theory Spec2Isabelle
  imports Complex_Main "HOL-Library.AList" "HOL-Library.Char_ord"
begin

section \<open>Values, errors and the Python operations the code uses\<close>

text \<open>
  The documents, schemas and call arguments of the program are JSON values held in Python
  objects. A dict is an association list in insertion order (the keys of a Python dict are
  distinct, and the operations below keep them so); a float is its real value.
\<close>

datatype json =
    JNull
  | JBool bool
  | JInt int
  | JFloat real
  | JStr string
  | JArr "json list"
  | JObj "(string \<times> json) list"

text \<open>Every exception the modelled code can raise is a value.\<close>

datatype error =
    ValueError string
  | TypeError
  | KeyError string
  | AttributeError
  | StopIteration
  | RecursionError
  | RuntimeError string
  | ValidationError
  | HTTPError nat string
  | TransportError string

definition ebind :: "error + 'a \<Rightarrow> ('a \<Rightarrow> error + 'b) \<Rightarrow> error + 'b" where
  "ebind m f = (case m of Inl e \<Rightarrow> Inl e | Inr x \<Rightarrow> f x)"

text \<open>Truth value of an object, as \<^verbatim>\<open>if x:\<close> reads it.\<close>

fun truthy :: "json \<Rightarrow> bool" where
  "truthy JNull = False"
| "truthy (JBool b) = b"
| "truthy (JInt n) = (n \<noteq> 0)"
| "truthy (JFloat r) = (r \<noteq> 0)"
| "truthy (JStr s) = (s \<noteq> [])"
| "truthy (JArr xs) = (xs \<noteq> [])"
| "truthy (JObj kvs) = (kvs \<noteq> [])"

definition startswith :: "string \<Rightarrow> string \<Rightarrow> bool" where
  "startswith s p = (take (length p) s = p)"

text \<open>\<^verbatim>\<open>p in s\<close> on two strings: \<open>p\<close> occurs in \<open>s\<close>.\<close>

fun contains_str :: "string \<Rightarrow> string \<Rightarrow> bool" where
  "contains_str p [] = (p = [])"
| "contains_str p (c # cs) = (startswith (c # cs) p \<or> contains_str p cs)"

text \<open>\<^verbatim>\<open>k in x\<close> for a string \<open>k\<close>: key of a dict, substring of a string, element of a list.\<close>

fun py_in :: "string \<Rightarrow> json \<Rightarrow> error + bool" where
  "py_in k (JObj kvs) = Inr (map_of kvs k \<noteq> None)"
| "py_in k (JStr s) = Inr (contains_str k s)"
| "py_in k (JArr xs) = Inr (JStr k \<in> set xs)"
| "py_in k JNull = Inl TypeError"
| "py_in k (JBool b) = Inl TypeError"
| "py_in k (JInt n) = Inl TypeError"
| "py_in k (JFloat r) = Inl TypeError"

text \<open>\<^verbatim>\<open>x[k]\<close> for a string \<open>k\<close>: only a dict can be indexed by a string.\<close>

fun py_getitem :: "json \<Rightarrow> string \<Rightarrow> error + json" where
  "py_getitem (JObj kvs) k = (case map_of kvs k of Some v \<Rightarrow> Inr v | None \<Rightarrow> Inl (KeyError k))"
| "py_getitem JNull k = Inl TypeError"
| "py_getitem (JBool b) k = Inl TypeError"
| "py_getitem (JInt n) k = Inl TypeError"
| "py_getitem (JFloat r) k = Inl TypeError"
| "py_getitem (JStr s) k = Inl TypeError"
| "py_getitem (JArr xs) k = Inl TypeError"

text \<open>\<^verbatim>\<open>x.get(k, d)\<close>: only a dict has the method.\<close>

fun py_get :: "json \<Rightarrow> string \<Rightarrow> json \<Rightarrow> error + json" where
  "py_get (JObj kvs) k d = Inr (case map_of kvs k of Some v \<Rightarrow> v | None \<Rightarrow> d)"
| "py_get JNull k d = Inl AttributeError"
| "py_get (JBool b) k d = Inl AttributeError"
| "py_get (JInt n) k d = Inl AttributeError"
| "py_get (JFloat r) k d = Inl AttributeError"
| "py_get (JStr s) k d = Inl AttributeError"
| "py_get (JArr xs) k d = Inl AttributeError"

text \<open>\<^verbatim>\<open>for v in x\<close>: the elements of a list, the characters of a string, the keys of a dict.\<close>

fun py_iter :: "json \<Rightarrow> error + json list" where
  "py_iter (JArr xs) = Inr xs"
| "py_iter (JStr s) = Inr (map (\<lambda>c. JStr [c]) s)"
| "py_iter (JObj kvs) = Inr (map (\<lambda>kv. JStr (fst kv)) kvs)"
| "py_iter JNull = Inl TypeError"
| "py_iter (JBool b) = Inl TypeError"
| "py_iter (JInt n) = Inl TypeError"
| "py_iter (JFloat r) = Inl TypeError"

text \<open>\<^verbatim>\<open>x.items()\<close> and \<^verbatim>\<open>x.values()\<close>.\<close>

fun py_items :: "json \<Rightarrow> error + (string \<times> json) list" where
  "py_items (JObj kvs) = Inr kvs"
| "py_items JNull = Inl AttributeError"
| "py_items (JBool b) = Inl AttributeError"
| "py_items (JInt n) = Inl AttributeError"
| "py_items (JFloat r) = Inl AttributeError"
| "py_items (JStr s) = Inl AttributeError"
| "py_items (JArr xs) = Inl AttributeError"

text \<open>\<^verbatim>\<open>s.lstrip(cs)\<close>, \<^verbatim>\<open>s.rstrip(cs)\<close>, \<^verbatim>\<open>s.strip(cs)\<close> and \<^verbatim>\<open>s.split(c)\<close> for a one-character \<open>c\<close>.\<close>

definition lstrip :: "string \<Rightarrow> string \<Rightarrow> string" where
  "lstrip cs s = dropWhile (\<lambda>c. c \<in> set cs) s"

definition rstrip :: "string \<Rightarrow> string \<Rightarrow> string" where
  "rstrip cs s = rev (dropWhile (\<lambda>c. c \<in> set cs) (rev s))"

definition strip :: "string \<Rightarrow> string \<Rightarrow> string" where
  "strip cs s = rstrip cs (lstrip cs s)"

fun split :: "char \<Rightarrow> string \<Rightarrow> string list" where
  "split c [] = [[]]"
| "split c (x # xs) =
     (if x = c then [] # split c xs
      else (case split c xs of [] \<Rightarrow> [[x]] | w # ws \<Rightarrow> (x # w) # ws))"

text \<open>\<^verbatim>\<open>s.replace(old, new)\<close>, every occurrence from the left; \<open>old\<close> is never empty in this code.\<close>

function replace :: "string \<Rightarrow> string \<Rightarrow> string \<Rightarrow> string" where
  "replace old new s =
     (if s = [] \<or> old = [] then s
      else if startswith s old then new @ replace old new (drop (length old) s)
      else hd s # replace old new (tl s))"
  by pat_completeness auto
termination
  by (relation "measure (\<lambda>(old, new, s). length s)") auto

declare replace.simps [simp del]

section \<open>Reference resolver (\<^verbatim>\<open>utils/openapi_utils.py\<close>)\<close>

fun resolve_parts :: "json \<Rightarrow> string list \<Rightarrow> error + json" where
  "resolve_parts obj [] = Inr obj"
| "resolve_parts obj (part # parts) = ebind (py_getitem obj part) (\<lambda>obj'. resolve_parts obj' parts)"

text \<open>\<^verbatim>\<open>_resolve_ref(spec, ref)\<close>; \<^verbatim>\<open>ref.startswith\<close> needs a string.\<close>

fun resolve_ref :: "json \<Rightarrow> json \<Rightarrow> error + json" where
  "resolve_ref spec (JStr ref) =
     (if \<not> startswith ref ''#/''
      then Inl (ValueError (''Only local refs are supported, got: '' @ ref))
      else resolve_parts spec (split (CHR ''/'') (lstrip ''#/'' ref)))"
| "resolve_ref spec JNull = Inl AttributeError"
| "resolve_ref spec (JBool b) = Inl AttributeError"
| "resolve_ref spec (JInt n) = Inl AttributeError"
| "resolve_ref spec (JFloat r) = Inl AttributeError"
| "resolve_ref spec (JArr xs) = Inl AttributeError"
| "resolve_ref spec (JObj kvs) = Inl AttributeError"

section \<open>Example synthesizer (\<^verbatim>\<open>example_generator.py\<close>)\<close>

text \<open>
  The loop over \<^verbatim>\<open>schema["examples"].values()\<close>: the first entry that is a dict with a
  \<^verbatim>\<open>value\<close> key gives that value, the first entry that is a string gives itself, any other
  entry is passed over.
\<close>

fun first_example :: "json list \<Rightarrow> json option" where
  "first_example [] = None"
| "first_example (JObj kvs # exs) =
     (case map_of kvs ''value'' of Some v \<Rightarrow> Some v | None \<Rightarrow> first_example exs)"
| "first_example (JStr s # exs) = Some (JStr s)"
| "first_example (JNull # exs) = first_example exs"
| "first_example (JBool b # exs) = first_example exs"
| "first_example (JInt n # exs) = first_example exs"
| "first_example (JFloat r # exs) = first_example exs"
| "first_example (JArr xs # exs) = first_example exs"

text \<open>The \<^verbatim>\<open>examples\<close> rule: taken only when the key is present and holds a dict.\<close>

definition examples_rule :: "json \<Rightarrow> error + json option" where
  "examples_rule schema =
     ebind (py_in ''examples'' schema) (\<lambda>has.
       if \<not> has then Inr None
       else ebind (py_getitem schema ''examples'') (\<lambda>exs.
         case exs of JObj kvs \<Rightarrow> Inr (first_example (map snd kvs)) | _ \<Rightarrow> Inr None))"

text \<open>The \<^verbatim>\<open>enum\<close> rule: taken only when the key holds a non-empty list.\<close>

definition enum_rule :: "json \<Rightarrow> error + json option" where
  "enum_rule schema =
     ebind (py_in ''enum'' schema) (\<lambda>has.
       if \<not> has then Inr None
       else ebind (py_getitem schema ''enum'') (\<lambda>en.
         case en of JArr (v # vs) \<Rightarrow> Inr (Some v) | _ \<Rightarrow> Inr None))"

definition string_example :: "json \<Rightarrow> json" where
  "string_example fmt =
     (if fmt = JStr ''date-time'' then JStr ''2023-01-01T00:00:00Z''
      else if fmt = JStr ''date'' then JStr ''2023-01-01''
      else if fmt = JStr ''uuid'' then JStr ''123e4567-e89b-12d3-a456-426614174000''
      else if fmt = JStr ''email'' then JStr ''user@example.com''
      else JStr ''string'')"

text \<open>A \<^verbatim>\<open>$ref\<close> at the root of the node is resolved once, before any rule applies.\<close>

definition resolve_root :: "json \<Rightarrow> json \<Rightarrow> error + json" where
  "resolve_root spec node =
     ebind (py_in ''$ref'' node) (\<lambda>has_ref.
       if has_ref then ebind (py_getitem node ''$ref'') (resolve_ref spec) else Inr node)"

text \<open>
  \<^verbatim>\<open>generate_example_from_schema(spec, schema)\<close>. The first argument is the number of stack
  frames left: Python bounds the recursion depth and raises \<^verbatim>\<open>RecursionError\<close> beyond it, which
  is how the function ends on a schema that refers to itself.
\<close>

fun generate_example_from_schema :: "nat \<Rightarrow> json \<Rightarrow> json \<Rightarrow> error + json"
and example_props :: "nat \<Rightarrow> json \<Rightarrow> (string \<times> json) list \<Rightarrow> error + (string \<times> json) list" where
  "generate_example_from_schema 0 spec node = Inl RecursionError"
| "generate_example_from_schema (Suc depth) spec node =
     ebind (resolve_root spec node) (\<lambda>schema.
     ebind (py_in ''example'' schema) (\<lambda>has_example.
     if has_example then py_getitem schema ''example''
     else ebind (examples_rule schema) (\<lambda>by_examples.
     case by_examples of Some v \<Rightarrow> Inr v | None \<Rightarrow>
     ebind (py_in ''default'' schema) (\<lambda>has_default.
     if has_default then py_getitem schema ''default''
     else ebind (enum_rule schema) (\<lambda>by_enum.
     case by_enum of Some v \<Rightarrow> Inr v | None \<Rightarrow>
     ebind (py_get schema ''type'' JNull) (\<lambda>typ.
     if typ = JStr ''object'' then
       ebind (py_get schema ''properties'' (JObj [])) (\<lambda>props.
       ebind (py_items props) (\<lambda>kvs.
       ebind (example_props depth spec kvs) (\<lambda>example_obj. Inr (JObj example_obj))))
     else if typ = JStr ''array'' then
       ebind (py_get schema ''items'' (JObj [])) (\<lambda>items_schema.
       ebind (generate_example_from_schema depth spec items_schema) (\<lambda>v. Inr (JArr [v])))
     else if typ = JStr ''string'' then
       ebind (py_get schema ''format'' JNull) (\<lambda>fmt. Inr (string_example fmt))
     else if typ = JStr ''integer'' then Inr (JInt 0)
     else if typ = JStr ''number'' then Inr (JFloat 0)
     else if typ = JStr ''boolean'' then Inr (JBool True)
     else Inr (JStr ''example'')))))))"
| "example_props depth spec [] = Inr []"
| "example_props depth spec ((prop_name, prop_schema) # rest) =
     ebind (generate_example_from_schema depth spec prop_schema) (\<lambda>v.
     ebind (example_props depth spec rest) (\<lambda>vs. Inr ((prop_name, v) # vs)))"

section \<open>Action descriptor builder (\<^verbatim>\<open>tool_generator.py\<close>)\<close>

text \<open>
  Two library functions print values: \<^verbatim>\<open>str\<close> (through f-strings) and \<^verbatim>\<open>json.dumps\<close>. A string
  prints as itself; what they print for other values is left open.
\<close>

record lib =
  repr :: "json \<Rightarrow> string"
  dumps :: "json \<Rightarrow> string"

definition py_str :: "lib \<Rightarrow> json \<Rightarrow> string" where
  "py_str L v = (case v of JStr s \<Rightarrow> s | _ \<Rightarrow> repr L v)"

definition lower_char :: "char \<Rightarrow> char" where
  "lower_char c =
     (case map_of (zip ''ABCDEFGHIJKLMNOPQRSTUVWXYZ'' ''abcdefghijklmnopqrstuvwxyz'') c of
        Some l \<Rightarrow> l | None \<Rightarrow> c)"

definition upper_char :: "char \<Rightarrow> char" where
  "upper_char c =
     (case map_of (zip ''abcdefghijklmnopqrstuvwxyz'' ''ABCDEFGHIJKLMNOPQRSTUVWXYZ'') c of
        Some u \<Rightarrow> u | None \<Rightarrow> c)"

text \<open>\<^verbatim>\<open>s.lower()\<close> and \<^verbatim>\<open>s.upper()\<close> on ASCII letters; other bytes are kept.\<close>

definition lower :: "string \<Rightarrow> string" where
  "lower s = map lower_char s"

definition upper :: "string \<Rightarrow> string" where
  "upper s = map upper_char s"

text \<open>
  The document is a graph of Python objects and the builder keeps a reference to one of them.
  The loader gives one object for a YAML anchor and each of its aliases, so one dict or list
  can sit at several positions of the document. The model keeps the document as the tree of
  what every position shows, together with the positions that hold one object. A reference
  is the list of keys that leads from the root of the document to an object.
\<close>

fun get_path :: "json \<Rightarrow> string list \<Rightarrow> json option" where
  "get_path obj [] = Some obj"
| "get_path obj (k # ks) =
     (case obj of
        JObj kvs \<Rightarrow> (case map_of kvs k of Some v \<Rightarrow> get_path v ks | None \<Rightarrow> None)
      | _ \<Rightarrow> None)"

fun set_path :: "json \<Rightarrow> string list \<Rightarrow> json \<Rightarrow> json" where
  "set_path obj [] new = new"
| "set_path obj (k # ks) new =
     (case obj of
        JObj kvs \<Rightarrow>
          (case map_of kvs k of
             Some v \<Rightarrow> JObj (AList.update k (set_path v ks new) kvs)
           | None \<Rightarrow> obj)
      | _ \<Rightarrow> obj)"

text \<open>
  A position is a list of steps, each a key of a dict or an index of a list. For a reference,
  a value of the type \<open>sharing\<close> lists the other positions of the object that the reference
  names; in a document without shared objects every list is empty.
\<close>

datatype step = Key string | Index nat

type_synonym sharing = "string list \<Rightarrow> step list list"

fun set_at :: "json \<Rightarrow> step list \<Rightarrow> json \<Rightarrow> json" where
  "set_at obj [] new = new"
| "set_at obj (Key k # rest) new =
     (case obj of
        JObj kvs \<Rightarrow>
          (case map_of kvs k of
             Some v \<Rightarrow> JObj (AList.update k (set_at v rest new) kvs)
           | None \<Rightarrow> obj)
      | _ \<Rightarrow> obj)"
| "set_at obj (Index i # rest) new =
     (case obj of
        JArr xs \<Rightarrow> (if i < length xs then JArr (xs[i := set_at (xs ! i) rest new]) else obj)
      | _ \<Rightarrow> obj)"

text \<open>What a position of the document shows.\<close>

fun get_at :: "json \<Rightarrow> step list \<Rightarrow> json option" where
  "get_at obj [] = Some obj"
| "get_at obj (Key k # rest) =
     (case obj of
        JObj kvs \<Rightarrow> (case map_of kvs k of Some v \<Rightarrow> get_at v rest | None \<Rightarrow> None)
      | _ \<Rightarrow> None)"
| "get_at obj (Index i # rest) =
     (case obj of
        JArr xs \<Rightarrow> (if i < length xs then get_at (xs ! i) rest else None)
      | _ \<Rightarrow> None)"

text \<open>\<open>leads_to pos r\<close>: the position \<open>pos\<close> is passed on the way along the position \<open>r\<close>.\<close>

fun leads_to :: "step list \<Rightarrow> step list \<Rightarrow> bool" where
  "leads_to [] r = True"
| "leads_to (x # pos) [] = False"
| "leads_to (x # pos) (y # r) = (x = y \<and> leads_to pos r)"

text \<open>Two positions are apart when neither lies on the way to the other.\<close>

definition apart :: "step list \<Rightarrow> step list \<Rightarrow> bool" where
  "apart a b \<longleftrightarrow> \<not> leads_to a b \<and> \<not> leads_to b a"

text \<open>
  A write into the object that a reference names: every position of the object shows the new
  value. An object does not lie inside itself, so a position on the way to the reference is
  none of its positions.
\<close>

definition write_object :: "sharing \<Rightarrow> json \<Rightarrow> string list \<Rightarrow> json \<Rightarrow> json" where
  "write_object sh spec ref new =
     set_path
       (foldl (\<lambda>doc pos. if leads_to pos (map Key ref) then doc else set_at doc pos new)
          spec (sh ref))
       ref new"

text \<open>
  The keys of the dicts that the builder fills are parameter names, which a document may give
  as any value. A dict takes a key that is hashable (not a list or a dict), and two keys are
  one when Python finds them equal: numbers by their value, \<^verbatim>\<open>True\<close> and \<^verbatim>\<open>False\<close> as 1 and 0.
\<close>

fun hashable :: "json \<Rightarrow> bool" where
  "hashable (JArr xs) = False"
| "hashable (JObj kvs) = False"
| "hashable JNull = True"
| "hashable (JBool b) = True"
| "hashable (JInt n) = True"
| "hashable (JFloat r) = True"
| "hashable (JStr s) = True"

fun number_of :: "json \<Rightarrow> real option" where
  "number_of (JBool b) = Some (if b then 1 else 0)"
| "number_of (JInt n) = Some (of_int n)"
| "number_of (JFloat r) = Some r"
| "number_of JNull = None"
| "number_of (JStr s) = None"
| "number_of (JArr xs) = None"
| "number_of (JObj kvs) = None"

definition key_eq :: "json \<Rightarrow> json \<Rightarrow> bool" where
  "key_eq a b =
     (case number_of a of
        Some x \<Rightarrow> (case number_of b of Some y \<Rightarrow> x = y | None \<Rightarrow> False)
      | None \<Rightarrow> (case number_of b of Some y \<Rightarrow> False | None \<Rightarrow> a = b))"

text \<open>\<^verbatim>\<open>d[k] = v\<close> and \<^verbatim>\<open>d.get(k)\<close> on such a dict: a key that is present keeps its place.\<close>

fun dict_set :: "json \<Rightarrow> 'v \<Rightarrow> (json \<times> 'v) list \<Rightarrow> (json \<times> 'v) list" where
  "dict_set k v [] = [(k, v)]"
| "dict_set k v ((k', v') # rest) =
     (if key_eq k' k then (k', v) # rest else (k', v') # dict_set k v rest)"

fun dict_find :: "(json \<times> 'v) list \<Rightarrow> json \<Rightarrow> 'v option" where
  "dict_find [] k = None"
| "dict_find ((k', v) # rest) k = (if key_eq k' k then Some v else dict_find rest k)"

text \<open>
  A property of an input schema is a dict the builder made itself, or the very object of the
  document that the reference names (\<^verbatim>\<open>properties["body"] = first_schema\<close>).
\<close>

datatype property = Owned json | Shared "string list"

record input_schema =
  properties :: "(json \<times> property) list"
  required :: "json list"

record Tool =
  name :: string
  description :: string
  inputSchema :: input_schema

text \<open>\<^verbatim>\<open>(desc or "") + text\<close>.\<close>

definition add_desc :: "json \<Rightarrow> string \<Rightarrow> error + json" where
  "add_desc desc text =
     (if \<not> truthy desc then Inr (JStr text)
      else (case desc of JStr s \<Rightarrow> Inr (JStr (s @ text)) | _ \<Rightarrow> Inl TypeError))"

text \<open>\<^verbatim>\<open>x += text\<close>: a string is extended, a list takes the characters, anything else raises.\<close>

definition iadd_str :: "json \<Rightarrow> string \<Rightarrow> error + json" where
  "iadd_str x text =
     (case x of
        JStr s \<Rightarrow> Inr (JStr (s @ text))
      | JArr xs \<Rightarrow> Inr (JArr (xs @ map (\<lambda>c. JStr [c]) text))
      | _ \<Rightarrow> Inl TypeError)"

text \<open>\<^verbatim>\<open>_extract_example_text(schema)\<close>.\<close>

definition extract_example_text :: "lib \<Rightarrow> json \<Rightarrow> error + string" where
  "extract_example_text L schema =
     ebind (py_in ''example'' schema) (\<lambda>has_example.
       if has_example
       then ebind (py_getitem schema ''example'') (\<lambda>v. Inr ('' Example: '' @ py_str L v))
       else ebind (examples_rule schema) (\<lambda>by_examples.
         case by_examples of Some v \<Rightarrow> Inr ('' Example: '' @ py_str L v) | None \<Rightarrow> Inr []))"

text \<open>The property built for a parameter whose schema is a \<^verbatim>\<open>$ref\<close>.\<close>

definition ref_property :: "lib \<Rightarrow> nat \<Rightarrow> json \<Rightarrow> json \<Rightarrow> json \<Rightarrow> error + json" where
  "ref_property L depth spec param_name schema =
     ebind (py_getitem schema ''$ref'') (\<lambda>ref.
     ebind (resolve_ref spec ref) (\<lambda>ref_schema.
     ebind (py_get ref_schema ''type'' (JStr ''string'')) (\<lambda>typ.
     ebind (py_get ref_schema ''description'' (JStr [])) (\<lambda>desc0.
     ebind (py_in ''enum'' ref_schema) (\<lambda>has_enum.
     ebind (if has_enum
            then ebind (py_getitem ref_schema ''enum'') (\<lambda>enum_vals.
                   add_desc desc0 ('' Possible values: '' @ py_str L enum_vals))
            else Inr desc0) (\<lambda>desc1.
     ebind (extract_example_text L ref_schema) (\<lambda>text0.
     ebind (if text0 = []
            then ebind (generate_example_from_schema depth spec ref_schema) (\<lambda>generated_example.
                   Inr ('' Example: '' @ py_str L generated_example))
            else Inr text0) (\<lambda>example_text.
     ebind (if example_text \<noteq> [] then add_desc desc1 example_text else Inr desc1) (\<lambda>desc.
     Inr (JObj ([(''type'', typ), (''title'', param_name)] @
                (if truthy desc then [(''description'', desc)] else []))))))))))))"

text \<open>The property built for a parameter with an inline schema.\<close>

definition plain_property :: "lib \<Rightarrow> json \<Rightarrow> json \<Rightarrow> error + json" where
  "plain_property L param schema =
     ebind (py_get schema ''type'' (JStr ''string'')) (\<lambda>typ.
     ebind (py_in ''description'' schema) (\<lambda>in_schema.
     ebind (if in_schema then py_getitem schema ''description''
            else ebind (py_in ''description'' param) (\<lambda>in_param.
                   if in_param then py_getitem param ''description'' else Inr (JStr [])))
       (\<lambda>desc0.
     ebind (py_in ''enum'' schema) (\<lambda>has_enum.
     ebind (if has_enum
            then ebind (py_getitem schema ''enum'') (\<lambda>enum_vals.
                   add_desc desc0 ('' Possible values: '' @ py_str L enum_vals))
            else Inr desc0) (\<lambda>desc.
     Inr (JObj ([(''type'', typ)] @
                (if truthy desc then [(''description'', desc)] else []))))))))"

text \<open>
  One round of the loop of \<^verbatim>\<open>extract_parameters\<close>. The name of the parameter is used as it
  is read; \<^verbatim>\<open>properties[param_name] = prop\<close> raises \<^verbatim>\<open>TypeError\<close> for a name that is not hashable.
\<close>

definition extract_parameter ::
  "lib \<Rightarrow> nat \<Rightarrow> json \<Rightarrow> json \<Rightarrow> (json \<times> property) list \<times> json list \<Rightarrow>
   error + (json \<times> property) list \<times> json list" where
  "extract_parameter L depth spec param acc =
     ebind (py_getitem param ''name'') (\<lambda>param_name.
     ebind (py_get param ''schema'' (JObj [])) (\<lambda>schema.
     ebind (py_in ''$ref'' schema) (\<lambda>is_ref.
     ebind (if is_ref then ref_property L depth spec param_name schema
            else plain_property L param schema) (\<lambda>built.
     if \<not> hashable param_name then Inl TypeError
     else
     ebind (py_get param ''required'' JNull) (\<lambda>req.
     Inr (dict_set param_name (Owned built) (fst acc),
          (if truthy req then snd acc @ [param_name] else snd acc)))))))"

fun extract_parameters_loop ::
  "lib \<Rightarrow> nat \<Rightarrow> json \<Rightarrow> json list \<Rightarrow> (json \<times> property) list \<times> json list \<Rightarrow>
   error + (json \<times> property) list \<times> json list" where
  "extract_parameters_loop L depth spec [] acc = Inr acc"
| "extract_parameters_loop L depth spec (param # params) acc =
     ebind (extract_parameter L depth spec param acc)
       (\<lambda>acc'. extract_parameters_loop L depth spec params acc')"

text \<open>\<^verbatim>\<open>extract_parameters(spec, operation, properties, required)\<close>; the two lists it fills are returned.\<close>

definition extract_parameters ::
  "lib \<Rightarrow> nat \<Rightarrow> json \<Rightarrow> json \<Rightarrow> (json \<times> property) list \<Rightarrow> json list \<Rightarrow>
   error + (json \<times> property) list \<times> json list" where
  "extract_parameters L depth spec operation props reqs =
     ebind (py_get operation ''parameters'' (JArr [])) (\<lambda>ps.
     ebind (py_iter ps) (\<lambda>params.
     extract_parameters_loop L depth spec params (props, reqs)))"

text \<open>The text appended after the content type: \<^verbatim>\<open>" Example: " + example if example else ""\<close>.\<close>

definition example_suffix :: "string option \<Rightarrow> string" where
  "example_suffix example =
     (case example of Some e \<Rightarrow> (if e \<noteq> [] then '' Example: '' @ e else []) | None \<Rightarrow> [])"

text \<open>
  The description that \<^verbatim>\<open>extract_body\<close> leaves in the first content entry: an absent
  description counts as the empty string, then the content type and the example are appended.
\<close>

definition annotate_body :: "(string \<times> json) list \<Rightarrow> string \<Rightarrow> string option \<Rightarrow> error + json" where
  "annotate_body kvs first_media_type example =
     (let desc0 = (case map_of kvs ''description'' of Some d \<Rightarrow> d | None \<Rightarrow> JStr [])
      in ebind (iadd_str desc0 ('' Body Content-Type: '' @ first_media_type)) (\<lambda>desc1.
         iadd_str desc1 (example_suffix example)))"

text \<open>The text that the two steps append, for an entry that is a dict.\<close>

definition annotation :: "lib \<Rightarrow> string \<Rightarrow> (string \<times> json) list \<Rightarrow> string" where
  "annotation L first_media_type kvs =
     '' Body Content-Type: '' @ first_media_type @
     example_suffix (map_option (dumps L) (map_of kvs ''example''))"

text \<open>
  Where the new description goes. A string is replaced by a new string in its slot of the
  entry (\<^verbatim>\<open>entry["description"] = ...\<close>), which is a write into the entry; a list is extended in
  place, which is a write into the list, and the slot of the entry keeps holding it.
\<close>

definition store_description ::
  "sharing \<Rightarrow> json \<Rightarrow> string list \<Rightarrow> (string \<times> json) list \<Rightarrow> json \<Rightarrow> json" where
  "store_description sh spec ref kvs desc =
     (case map_of kvs ''description'' of
        Some (JArr xs) \<Rightarrow> write_object sh spec (ref @ [''description'']) desc
      | _ \<Rightarrow> write_object sh spec ref (JObj (AList.update ''description'' desc kvs)))"

text \<open>
  \<^verbatim>\<open>extract_body(spec, operation, properties, required)\<close>. The operation is an object of the
  document, named here by its reference \<open>op_ref\<close>; the function writes into the first content
  entry of its request body, so the document is returned with the two lists. Every exception
  is raised before the first write.
\<close>

definition extract_body ::
  "lib \<Rightarrow> sharing \<Rightarrow> json \<Rightarrow> string list \<Rightarrow> (json \<times> property) list \<Rightarrow> json list \<Rightarrow>
   error + json \<times> (json \<times> property) list \<times> json list" where
  "extract_body L sh spec op_ref props reqs =
     (case get_path spec op_ref of
        None \<Rightarrow> Inl AttributeError
      | Some operation \<Rightarrow>
     ebind (py_get operation ''requestBody'' JNull) (\<lambda>request_body.
     if \<not> truthy request_body then Inr (spec, props, reqs)
     else
     ebind (py_get request_body ''content'' (JObj [])) (\<lambda>content.
     ebind (py_items content) (\<lambda>entries.
     case entries of
       [] \<Rightarrow> Inl StopIteration
     | (first_media_type, first_schema) # _ \<Rightarrow>
     ebind (py_in ''example'' first_schema) (\<lambda>has_example.
     ebind (if has_example
            then ebind (py_get first_schema ''example'' (JStr ''{}'')) (\<lambda>e. Inr (Some (dumps L e)))
            else Inr None) (\<lambda>example.
     if \<not> truthy first_schema then Inr (spec, props, reqs)
     else
       (case first_schema of
          JObj kvs \<Rightarrow>
            ebind (annotate_body kvs first_media_type example) (\<lambda>desc.
            Inr (store_description sh spec
                   (op_ref @ [''requestBody'', ''content'', first_media_type]) kvs desc,
                 dict_set (JStr ''body'')
                   (Shared (op_ref @ [''requestBody'', ''content'', first_media_type])) props,
                 reqs @ [JStr ''body'']))
        | _ \<Rightarrow> Inl TypeError)))))))"

text \<open>The name of the tool: the operation id, or method and path, behind the prefix.\<close>

definition tool_name :: "lib \<Rightarrow> json \<Rightarrow> string \<Rightarrow> string \<Rightarrow> string option \<Rightarrow> error + json" where
  "tool_name L operation path method prefix =
     ebind (py_get operation ''operationId'' JNull) (\<lambda>operation_id.
     let name0 = (if truthy operation_id then operation_id
                  else JStr (strip ''_'' (replace ''/'' ''_'' (method @ ''_'' @ path))))
     in (case prefix of
           Some p \<Rightarrow> (if p \<noteq> [] then Inr (JStr (p @ '':'' @ py_str L name0)) else Inr name0)
         | None \<Rightarrow> Inr name0))"

definition tool_description :: "json \<Rightarrow> error + json" where
  "tool_description operation =
     ebind (py_get operation ''description'' JNull) (\<lambda>d.
     if truthy d then Inr d
     else ebind (py_get operation ''summary'' JNull) (\<lambda>s.
       if truthy s then Inr s else Inr (JStr [])))"

text \<open>The constructor of \<^verbatim>\<open>Tool\<close> checks its fields: name and description are strings.\<close>

definition make_tool :: "json \<Rightarrow> json \<Rightarrow> input_schema \<Rightarrow> error + Tool" where
  "make_tool nm desc schema =
     (case nm of
        JStr n \<Rightarrow>
          (case desc of
             JStr d \<Rightarrow> Inr \<lparr>name = n, description = d, inputSchema = schema\<rparr>
           | _ \<Rightarrow> Inl ValidationError)
      | _ \<Rightarrow> Inl ValidationError)"

text \<open>
  What \<^verbatim>\<open>generate_tool_from_operation\<close> does before it constructs the tool: it finds the
  operation, derives name and description, and fills the two lists.
\<close>

definition tool_parts ::
  "lib \<Rightarrow> nat \<Rightarrow> sharing \<Rightarrow> json \<Rightarrow> string \<Rightarrow> string \<Rightarrow> string option \<Rightarrow>
   error + json \<times> json \<times> json \<times> input_schema" where
  "tool_parts L depth sh spec path method prefix =
     ebind (py_get spec ''paths'' (JObj [])) (\<lambda>paths.
     ebind (py_get paths path JNull) (\<lambda>path_item.
     if \<not> truthy path_item
     then Inl (ValueError (''Path '' @ [CHR 0x27] @ path @ [CHR 0x27] @ '' not found in OpenAPI spec.''))
     else
     ebind (py_get path_item (lower method) JNull) (\<lambda>operation.
     if \<not> truthy operation
     then Inl (ValueError (''Method '' @ [CHR 0x27] @ method @ [CHR 0x27] @ '' not found for path '' @
                 [CHR 0x27] @ path @ [CHR 0x27] @ '' in OpenAPI spec.''))
     else
     ebind (tool_name L operation path method prefix) (\<lambda>nm.
     ebind (tool_description operation) (\<lambda>desc.
     ebind (extract_parameters L depth spec operation [] []) (\<lambda>params.
     ebind (extract_body L sh spec [''paths'', path, lower method] (fst params) (snd params))
       (\<lambda>body.
     Inr (fst body, nm, desc,
          \<lparr>properties = fst (snd body), required = snd (snd body)\<rparr>))))))))"

text \<open>
  \<^verbatim>\<open>generate_tool_from_operation(spec, path, method, prefix)\<close>: the tool or the exception,
  together with the document as the call leaves it. The document is given by its tree \<open>spec\<close>
  and the shared objects \<open>sh\<close>.
\<close>

definition generate_tool_from_operation ::
  "lib \<Rightarrow> nat \<Rightarrow> sharing \<Rightarrow> json \<Rightarrow> string \<Rightarrow> string \<Rightarrow> string option \<Rightarrow> (error + Tool) \<times> json" where
  "generate_tool_from_operation L depth sh spec path method prefix =
     (case tool_parts L depth sh spec path method prefix of
        Inl e \<Rightarrow> (Inl e, spec)
      | Inr parts \<Rightarrow>
          (make_tool (fst (snd parts)) (fst (snd (snd parts))) (snd (snd (snd parts))),
           fst parts))"

text \<open>What a property of a tool holds, read in the current state of its document.\<close>

definition prop_value :: "json \<Rightarrow> property \<Rightarrow> json option" where
  "prop_value spec p = (case p of Owned v \<Rightarrow> Some v | Shared r \<Rightarrow> get_path spec r)"

section \<open>Shell patterns (\<^verbatim>\<open>fnmatch\<close> of the standard library)\<close>

text \<open>
  The text of a character class after its opening bracket is split at the closing bracket.
  A \<^verbatim>\<open>]\<close> that comes first in the class is a member; without a closing bracket the opening
  one is an ordinary character.
\<close>

fun find_close :: "string \<Rightarrow> (string \<times> string) option" where
  "find_close [] = None"
| "find_close (c # cs) =
     (if c = CHR '']'' then Some ([], cs)
      else (case find_close cs of None \<Rightarrow> None | Some (inside, rest) \<Rightarrow> Some (c # inside, rest)))"

definition bracket :: "string \<Rightarrow> (bool \<times> string \<times> string) option" where
  "bracket r =
     (let negated = (r \<noteq> [] \<and> hd r = CHR ''!'');
          r1 = (if negated then tl r else r)
      in (case r1 of
            [] \<Rightarrow> None
          | c # cs \<Rightarrow>
              (case find_close cs of
                 None \<Rightarrow> None
               | Some (inside, rest) \<Rightarrow> Some (negated, c # inside, rest))))"

text \<open>The members of a class: ranges \<^verbatim>\<open>lo-hi\<close> and single characters.\<close>

fun class_items :: "string \<Rightarrow> (char \<times> char) list" where
  "class_items (lo # m # hi # cs) =
     (if m = CHR ''-'' then (lo, hi) # class_items cs else (lo, lo) # class_items (m # hi # cs))"
| "class_items (c # cs) = (c, c) # class_items cs"
| "class_items [] = []"

definition in_class :: "char \<Rightarrow> string \<Rightarrow> bool" where
  "in_class c inside = list_ex (\<lambda>(lo, hi). lo \<le> c \<and> c \<le> hi) (class_items inside)"

text \<open>
  \<^verbatim>\<open>fnmatch.fnmatch(name, pat)\<close> on a POSIX system, where no case folding takes place: \<^verbatim>\<open>*\<close>
  stands for any text, \<^verbatim>\<open>?\<close> for one character, \<^verbatim>\<open>[seq]\<close> and \<^verbatim>\<open>[!seq]\<close> for one character in or
  not in the class; the whole name has to match.
\<close>

function fnmatch :: "string \<Rightarrow> string \<Rightarrow> bool" where
  "fnmatch nm [] = (nm = [])"
| "fnmatch nm (p # ps) =
     (if p = CHR ''*'' then
        (fnmatch nm ps \<or> (case nm of [] \<Rightarrow> False | c # cs \<Rightarrow> fnmatch cs (p # ps)))
      else
        (case nm of
           [] \<Rightarrow> False
         | c # cs \<Rightarrow>
             (if p = CHR ''?'' then fnmatch cs ps
              else if p = CHR ''['' then
                (case bracket ps of
                   None \<Rightarrow> c = CHR ''['' \<and> fnmatch cs ps
                 | Some (negated, inside, rest) \<Rightarrow>
                     (in_class c inside \<noteq> negated) \<and> fnmatch cs rest)
              else c = p \<and> fnmatch cs ps)))"
  by pat_completeness auto
termination
  by (relation "measures [\<lambda>(nm, pat). length nm, \<lambda>(nm, pat). length pat]") auto

section \<open>Multi-spec registry (\<^verbatim>\<open>tool_caller.py\<close>)\<close>

text \<open>The class \<^verbatim>\<open>OperationMeta\<close>; its attribute \<^verbatim>\<open>method\<close> is the field \<open>http_method\<close>.\<close>

record OperationMeta =
  http_method :: string
  path :: string
  param_locations :: "(json \<times> json) list"
  required :: "json list"
  conten_media_type :: json
  auth_type :: "string option"
  service_name :: string

text \<open>One entry of the configuration (\<^verbatim>\<open>utils/config.py\<close>).\<close>

record OpenAPISpec =
  service_name :: string
  file_location :: string
  prefix :: "string option"
  auth_type :: "string option"
  base_url :: "string option"
  include_tags :: "string list option"
  exclude_tags :: "string list option"
  include_paths :: "string list option"
  exclude_paths :: "string list option"

text \<open>
  The four dicts of an \<^verbatim>\<open>OpenAPIToolCaller\<close>. A value of \<^verbatim>\<open>tool_specs\<close> is a reference to a
  loaded document: its index in \<open>documents\<close>, which holds every loaded document in its
  current state.
\<close>

record OpenAPIToolCaller =
  tools :: "string \<rightharpoonup> Tool"
  registry :: "string \<rightharpoonup> OperationMeta"
  tool_base_urls :: "string \<rightharpoonup> string"
  tool_specs :: "string \<rightharpoonup> nat"
  documents :: "json list"

definition new_caller :: OpenAPIToolCaller where
  "new_caller = \<lparr>tools = Map.empty, registry = Map.empty, tool_base_urls = Map.empty,
                  tool_specs = Map.empty, documents = []\<rparr>"

text \<open>A filter that is \<^verbatim>\<open>None\<close> or empty is not set.\<close>

definition patterns_of :: "string list option \<Rightarrow> string list" where
  "patterns_of f = (case f of None \<Rightarrow> [] | Some ps \<Rightarrow> ps)"

text \<open>The inner loop of \<^verbatim>\<open>match_any\<close>; \<^verbatim>\<open>fnmatch\<close> takes strings only.\<close>

fun match_vals :: "json list \<Rightarrow> string \<Rightarrow> error + bool" where
  "match_vals [] pat = Inr False"
| "match_vals (val # vals) pat =
     (case val of
        JStr s \<Rightarrow> (if fnmatch s pat then Inr True else match_vals vals pat)
      | _ \<Rightarrow> Inl TypeError)"

fun match_any_loop :: "json \<Rightarrow> string list \<Rightarrow> error + bool" where
  "match_any_loop val_list [] = Inr False"
| "match_any_loop val_list (pat # pats) =
     ebind (py_iter val_list) (\<lambda>vals.
     ebind (match_vals vals pat) (\<lambda>hit.
     if hit then Inr True else match_any_loop val_list pats))"

definition match_any :: "json \<Rightarrow> string list \<Rightarrow> error + bool" where
  "match_any val_list patterns =
     (if patterns = [] \<or> \<not> truthy val_list then Inr False
      else match_any_loop val_list patterns)"

fun match_path :: "string \<Rightarrow> string list \<Rightarrow> bool" where
  "match_path p [] = False"
| "match_path p (pat # pats) = (if fnmatch p pat then True else match_path p pats)"

text \<open>
  The filtering logic of the loop body: \<open>True\<close> when the operation is kept, \<open>False\<close> when one
  of the four \<^verbatim>\<open>continue\<close> statements is taken.
\<close>

definition passes_filters :: "OpenAPISpec \<Rightarrow> string \<Rightarrow> json \<Rightarrow> error + bool" where
  "passes_filters b p op_tags =
     (if patterns_of (include_paths b) \<noteq> [] \<and> \<not> match_path p (patterns_of (include_paths b))
      then Inr False
      else if patterns_of (exclude_paths b) \<noteq> [] \<and> match_path p (patterns_of (exclude_paths b))
      then Inr False
      else
        ebind (if patterns_of (include_tags b) \<noteq> []
               then match_any op_tags (patterns_of (include_tags b)) else Inr True) (\<lambda>included.
        if \<not> included then Inr False
        else
          ebind (if patterns_of (exclude_tags b) \<noteq> []
                 then match_any op_tags (patterns_of (exclude_tags b)) else Inr False) (\<lambda>excluded.
          Inr (\<not> excluded))))"

definition http_verbs :: "string list" where
  "http_verbs = [''get'', ''post'', ''put'', ''delete'', ''patch'', ''options'', ''head'']"

text \<open>The loop that maps each parameter name to its location.\<close>

fun param_locations_loop :: "json list \<Rightarrow> (json \<times> json) list \<Rightarrow> error + (json \<times> json) list" where
  "param_locations_loop [] locs = Inr locs"
| "param_locations_loop (param # params) locs =
     ebind (py_getitem param ''name'') (\<lambda>pname.
     ebind (py_get param ''in'' (JStr ''query'')) (\<lambda>loc.
     if \<not> hashable pname then Inl TypeError
     else param_locations_loop params (dict_set pname loc locs)))"

text \<open>
  What the loop body does after a tool is built: the locations of the parameters and the
  media type, read from the operation.
\<close>

definition operation_meta ::
  "OpenAPISpec \<Rightarrow> json \<Rightarrow> string \<Rightarrow> string \<Rightarrow> Tool \<Rightarrow> error + OperationMeta" where
  "operation_meta b operation p m tool =
     ebind (py_get operation ''parameters'' (JArr [])) (\<lambda>ps.
     ebind (py_iter ps) (\<lambda>params.
     ebind (param_locations_loop params []) (\<lambda>locs.
     ebind (py_in ''requestBody'' operation) (\<lambda>has_body.
     ebind (if has_body
            then ebind (py_getitem operation ''requestBody'') (\<lambda>request_body.
                 ebind (py_get request_body ''content'' (JObj [])) (\<lambda>content.
                 ebind (py_iter content) (\<lambda>keys.
                 case keys of
                   [] \<Rightarrow> Inl StopIteration
                 | first # _ \<Rightarrow> Inr (dict_set (JStr ''body'') (JStr ''body'') locs, first))))
            else Inr (locs, JStr ''application/json'')) (\<lambda>located.
     Inr \<lparr>http_method = upper m, path = p, param_locations = fst located,
          required = input_schema.required (inputSchema tool),
          conten_media_type = snd located,
          auth_type = OpenAPISpec.auth_type b,
          service_name = OpenAPISpec.service_name b\<rparr>)))))"

text \<open>The four assignments that record a tool.\<close>

definition register ::
  "OpenAPIToolCaller \<Rightarrow> Tool \<Rightarrow> OperationMeta \<Rightarrow> string \<Rightarrow> nat \<Rightarrow> OpenAPIToolCaller" where
  "register st tool meta url spec_id =
     st\<lparr>tools := (tools st)(name tool \<mapsto> tool),
        registry := (registry st)(name tool \<mapsto> meta),
        tool_base_urls := (tool_base_urls st)(name tool \<mapsto> url),
        tool_specs := (tool_specs st)(name tool \<mapsto> spec_id)\<rparr>"

text \<open>
  The body of the inner loop of \<^verbatim>\<open>_add_tools_from_spec\<close>, for the key \<open>m\<close> of the path item
  at \<open>p\<close>. The state is the caller and the document, which a build may write into; the
  operation is read from the document as it is at that moment. The shared objects \<open>sh\<close> of
  the document stay the same.
\<close>

definition add_operation ::
  "lib \<Rightarrow> nat \<Rightarrow> sharing \<Rightarrow> OpenAPISpec \<Rightarrow> string \<Rightarrow> nat \<Rightarrow> OpenAPIToolCaller \<times> json \<Rightarrow> string \<Rightarrow>
   json \<Rightarrow> error + OpenAPIToolCaller \<times> json" where
  "add_operation L depth sh b url spec_id s p key =
     (case key of
        JStr m \<Rightarrow>
          if lower m \<notin> set http_verbs then Inr s
          else
            (case get_path (snd s) [''paths'', p] of
               None \<Rightarrow> Inl (KeyError p)
             | Some path_item \<Rightarrow>
            ebind (py_getitem path_item m) (\<lambda>operation.
            ebind (py_get operation ''tags'' (JArr [])) (\<lambda>op_tags.
            ebind (passes_filters b p op_tags) (\<lambda>keep.
            if \<not> keep then Inr s
            else
              (case generate_tool_from_operation L depth sh (snd s) p m (prefix b) of
                 (Inl e, spec') \<Rightarrow> Inr (fst s, spec')
               | (Inr tool, spec') \<Rightarrow>
                   (case get_path spec' [''paths'', p, m] of
                      None \<Rightarrow> Inl (KeyError m)
                    | Some operation' \<Rightarrow>
                   ebind (operation_meta b operation' p m tool) (\<lambda>meta.
                   Inr (register (fst s) tool meta url spec_id, spec'))))))))
      | _ \<Rightarrow> Inl AttributeError)"

fun loop_methods ::
  "lib \<Rightarrow> nat \<Rightarrow> sharing \<Rightarrow> OpenAPISpec \<Rightarrow> string \<Rightarrow> nat \<Rightarrow> OpenAPIToolCaller \<times> json \<Rightarrow> string \<Rightarrow>
   json list \<Rightarrow> error + OpenAPIToolCaller \<times> json" where
  "loop_methods L depth sh b url spec_id s p [] = Inr s"
| "loop_methods L depth sh b url spec_id s p (key # keys) =
     ebind (add_operation L depth sh b url spec_id s p key)
       (\<lambda>s'. loop_methods L depth sh b url spec_id s' p keys)"

fun loop_paths ::
  "lib \<Rightarrow> nat \<Rightarrow> sharing \<Rightarrow> OpenAPISpec \<Rightarrow> string \<Rightarrow> nat \<Rightarrow> OpenAPIToolCaller \<times> json \<Rightarrow>
   (string \<times> json) list \<Rightarrow> error + OpenAPIToolCaller \<times> json" where
  "loop_paths L depth sh b url spec_id s [] = Inr s"
| "loop_paths L depth sh b url spec_id s ((p, path_item) # rest) =
     ebind (py_iter path_item) (\<lambda>keys.
     ebind (loop_methods L depth sh b url spec_id s p keys)
       (\<lambda>s'. loop_paths L depth sh b url spec_id s' rest))"

text \<open>
  \<^verbatim>\<open>_add_tools_from_spec\<close>: the arguments other than the document and the base URL are fields
  of the configuration entry \<open>b\<close>; \<open>spec_id\<close> is the reference under which the document is
  recorded. An exception that is not caught inside the loop ends the construction.
\<close>

definition add_tools_from_spec ::
  "lib \<Rightarrow> nat \<Rightarrow> sharing \<Rightarrow> OpenAPIToolCaller \<Rightarrow> json \<Rightarrow> nat \<Rightarrow> OpenAPISpec \<Rightarrow> string \<Rightarrow>
   error + OpenAPIToolCaller \<times> json" where
  "add_tools_from_spec L depth sh st spec spec_id b url =
     ebind (py_get spec ''paths'' (JObj [])) (\<lambda>paths.
     ebind (py_items paths) (\<lambda>entries.
     loop_paths L depth sh b url spec_id (st, spec) entries))"

text \<open>
  The collaborators of the constructor: the loader of documents, which gives the tree of a
  document and its shared objects, and the base URL that the configuration file gives for a
  service.
\<close>

record loader =
  load_openapi_spec :: "string \<Rightarrow> error + json \<times> sharing"
  get_openapi_base_url :: "string \<Rightarrow> string option"

definition effective_base_url :: "loader \<Rightarrow> OpenAPISpec \<Rightarrow> string" where
  "effective_base_url E b =
     (case base_url b of
        Some u \<Rightarrow> (if u \<noteq> [] then u
                   else (case get_openapi_base_url E (OpenAPISpec.service_name b) of
                           Some c \<Rightarrow> c | None \<Rightarrow> []))
      | None \<Rightarrow> (case get_openapi_base_url E (OpenAPISpec.service_name b) of
                   Some c \<Rightarrow> c | None \<Rightarrow> []))"

text \<open>The loop of \<^verbatim>\<open>__init__\<close> over the configuration entries.\<close>

fun init_loop ::
  "loader \<Rightarrow> lib \<Rightarrow> nat \<Rightarrow> OpenAPIToolCaller \<Rightarrow> OpenAPISpec list \<Rightarrow> error + OpenAPIToolCaller" where
  "init_loop E L depth st [] = Inr st"
| "init_loop E L depth st (spec_obj # rest) =
     (case load_openapi_spec E (file_location spec_obj) of
        Inl e \<Rightarrow> init_loop E L depth st rest
      | Inr loaded \<Rightarrow>
          if effective_base_url E spec_obj = [] then init_loop E L depth st rest
          else
            ebind (add_tools_from_spec L depth (snd loaded) st (fst loaded)
                     (length (documents st)) spec_obj
                     (effective_base_url E spec_obj)) (\<lambda>s'.
            init_loop E L depth ((fst s')\<lparr>documents := documents (fst s') @ [snd s']\<rparr>) rest))"

definition init :: "loader \<Rightarrow> lib \<Rightarrow> nat \<Rightarrow> OpenAPISpec list \<Rightarrow> error + OpenAPIToolCaller" where
  "init E L depth openapi_specs = init_loop E L depth new_caller openapi_specs"

section \<open>Request dispatcher (\<^verbatim>\<open>tool_caller.py\<close>, \<^verbatim>\<open>utils/auth.py\<close>)\<close>

text \<open>
  The keyword arguments of the request. A file of the \<^verbatim>\<open>files\<close> list is the tuple of its field
  name, base name, open handle and media type; a handle is a number.
\<close>

record request_kwargs =
  req_method :: string
  url :: string
  params :: "(string \<times> json) list option"
  headers :: "(string \<times> json) list"
  json_body :: "json option"
  data :: "json option"
  files :: "(string \<times> string \<times> nat \<times> string) list"

text \<open>
  A response: its status, its text, and what \<^verbatim>\<open>resp.json()\<close> returns (\<open>None\<close> when the text
  does not parse and the call raises).
\<close>

record response =
  status_code :: nat
  resp_text :: string
  json_value :: "json option"

text \<open>
  What a dispatch touches outside the program: the handles that are open, the next free
  handle, and the requests handed to the transport so far.
\<close>

record world =
  opened :: "nat list"
  next_handle :: nat
  sent :: "request_kwargs list"

text \<open>
  The collaborators of a dispatch: the two credential resolvers of \<^verbatim>\<open>utils/auth.py\<close>, the
  working directory, which files \<^verbatim>\<open>open\<close> can open, \<^verbatim>\<open>mimetypes.guess_type\<close>, and the transport
  (session, preparation of the request and sending), which returns a response or raises.
\<close>

record services =
  get_basic_auth_header :: "string \<Rightarrow> error + (string \<times> json) list"
  get_bearer_auth_header :: "string \<Rightarrow> error + (string \<times> json) list"
  getcwd :: string
  can_open :: "string \<Rightarrow> bool"
  guess_type :: "string \<Rightarrow> string option"
  transport :: "request_kwargs \<Rightarrow> error + response"

text \<open>\<^verbatim>\<open>get_auth_header(auth_type, service_name)\<close>; \<^verbatim>\<open>None\<close> has no method \<^verbatim>\<open>lower\<close>.\<close>

definition get_auth_header ::
  "services \<Rightarrow> string option \<Rightarrow> string \<Rightarrow> error + (string \<times> json) list" where
  "get_auth_header S a service =
     (case a of
        None \<Rightarrow> Inl AttributeError
      | Some t \<Rightarrow>
          if lower t = ''basic'' then get_basic_auth_header S service
          else if lower t = ''bearer'' then get_bearer_auth_header S service
          else Inl (ValueError (''Unsupported auth type: '' @ t @
                      ''. Supported types are '' @ [CHR 0x27] @ ''basic'' @ [CHR 0x27] @
                      '' and '' @ [CHR 0x27] @ ''bearer'' @ [CHR 0x27] @ ''.'')))"

text \<open>\<^verbatim>\<open>{**a, **b}\<close>: the items of \<open>a\<close>, each item of \<open>b\<close> then stored in turn.\<close>

definition dict_merge :: "(string \<times> json) list \<Rightarrow> (string \<times> json) list \<Rightarrow> (string \<times> json) list" where
  "dict_merge a b = foldl (\<lambda>d kv. AList.update (fst kv) (snd kv) d) a b"

definition create_headers ::
  "services \<Rightarrow> OperationMeta \<Rightarrow> (string \<times> json) list \<Rightarrow> error + (string \<times> json) list" where
  "create_headers S meta hs =
     ebind (get_auth_header S (OperationMeta.auth_type meta) (OperationMeta.service_name meta))
       (\<lambda>auth_header.
     let content_type_header = [(''Content-Type'', conten_media_type meta)];
         hs' = dict_merge hs content_type_header
     in Inr (if hs' \<noteq> [] then dict_merge auth_header hs' else auth_header))"

text \<open>The four dicts that the arguments are sorted into.\<close>

record parts =
  path_params :: "(string \<times> json) list"
  query_params :: "(string \<times> json) list"
  header_params :: "(string \<times> json) list"
  body_params :: "(string \<times> json) list"

fun partition_arguments :: "(json \<times> json) list \<Rightarrow> (string \<times> json) list \<Rightarrow> parts \<Rightarrow> parts" where
  "partition_arguments locs [] ps = ps"
| "partition_arguments locs ((pname, v) # rest) ps =
     (let loc = (case dict_find locs (JStr pname) of Some l \<Rightarrow> l | None \<Rightarrow> JStr ''query'')
      in partition_arguments locs rest
           (if loc = JStr ''path'' then ps\<lparr>path_params := AList.update pname v (path_params ps)\<rparr>
            else if loc = JStr ''query'' then ps\<lparr>query_params := AList.update pname v (query_params ps)\<rparr>
            else if loc = JStr ''header'' then ps\<lparr>header_params := AList.update pname v (header_params ps)\<rparr>
            else if loc = JStr ''body'' then ps\<lparr>body_params := AList.update pname v (body_params ps)\<rparr>
            else ps))"

text \<open>The loop that puts the path parameters into the URL.\<close>

fun substitute :: "lib \<Rightarrow> (string \<times> json) list \<Rightarrow> string \<Rightarrow> string" where
  "substitute L [] u = u"
| "substitute L ((pname, v) # rest) u =
     substitute L rest (replace (''{'' @ pname @ ''}'') (py_str L v) u)"

text \<open>\<^verbatim>\<open>os.path.isabs\<close>, \<^verbatim>\<open>os.path.join\<close> and \<^verbatim>\<open>os.path.basename\<close> on a POSIX system.\<close>

definition isabs :: "string \<Rightarrow> bool" where
  "isabs f = startswith f ''/''"

definition path_join :: "string \<Rightarrow> string \<Rightarrow> string" where
  "path_join a b =
     (if startswith b ''/'' then b
      else if a = [] \<or> last a = CHR ''/'' then a @ b
      else a @ ''/'' @ b)"

definition basename :: "string \<Rightarrow> string" where
  "basename f = rev (takeWhile (\<lambda>c. c \<noteq> CHR ''/'') (rev f))"

text \<open>What \<^verbatim>\<open>type(x)\<close> prints.\<close>

fun type_name :: "json \<Rightarrow> string" where
  "type_name JNull = ''NoneType''"
| "type_name (JBool b) = ''bool''"
| "type_name (JInt n) = ''int''"
| "type_name (JFloat r) = ''float''"
| "type_name (JStr s) = ''str''"
| "type_name (JArr xs) = ''list''"
| "type_name (JObj kvs) = ''dict''"

text \<open>
  The loop over the attachments. Each file that opens takes the next handle, which stays
  open; the loop ends with \<^verbatim>\<open>ValueError\<close> at an entry that is not a string or does not open.
\<close>

fun open_attachments ::
  "services \<Rightarrow> json list \<Rightarrow> (string \<times> string \<times> nat \<times> string) list \<Rightarrow> world \<Rightarrow>
   (error + (string \<times> string \<times> nat \<times> string) list) \<times> world" where
  "open_attachments S [] fs w = (Inr fs, w)"
| "open_attachments S (a # rest) fs w =
     (case a of
        JStr file_path \<Rightarrow>
          (let resolved_path = (if isabs file_path then file_path
                                else path_join (getcwd S) file_path);
               mime_type = (case guess_type S (basename resolved_path) of
                              Some t \<Rightarrow> (if t \<noteq> [] then t else ''application/octet-stream'')
                            | None \<Rightarrow> ''application/octet-stream'')
           in if can_open S resolved_path
              then open_attachments S rest
                     (fs @ [(''attachment'', basename resolved_path, next_handle w, mime_type)])
                     (w\<lparr>opened := opened w @ [next_handle w], next_handle := Suc (next_handle w)\<rparr>)
              else (Inl (ValueError (''Failed to open attachment file: '' @ resolved_path)), w))
      | _ \<Rightarrow>
          (Inl (ValueError (''Attachment path must be a string, got <class '' @ [CHR 0x27] @
                  type_name a @ [CHR 0x27] @ ''>'')), w))"

text \<open>The form fields of a multipart request: every item but the attachment, with the two
  characters backslash and \<open>n\<close> of a string turned into a line feed.\<close>

fun form_fields :: "(string \<times> json) list \<Rightarrow> (string \<times> json) list" where
  "form_fields [] = []"
| "form_fields ((k, v) # rest) =
     (if k = ''attachment'' then form_fields rest
      else (case v of
              JStr s \<Rightarrow> (k, JStr (replace [CHR 0x5C, CHR ''n''] [CHR 0x0A] s)) # form_fields rest
            | _ \<Rightarrow> (k, v) # form_fields rest))"

definition or_none :: "json \<Rightarrow> json option" where
  "or_none v = (if truthy v then Some v else None)"

text \<open>
  The part of \<^verbatim>\<open>call_tool\<close> that fills the keyword arguments by content type. In the multipart
  case it opens the attachments, so it returns the world as well.
\<close>

definition encode_body ::
  "services \<Rightarrow> string \<Rightarrow> json \<Rightarrow> request_kwargs \<Rightarrow> world \<Rightarrow> (error + request_kwargs) \<times> world" where
  "encode_body S content_type req_body kw w =
     (if content_type = ''application/json'' then (Inr (kw\<lparr>json_body := or_none req_body\<rparr>), w)
      else if content_type = ''application/x-www-form-urlencoded''
      then (Inr (kw\<lparr>data := or_none req_body\<rparr>), w)
      else if content_type = ''multipart/form-data'' then
        (case py_get req_body ''attachment'' JNull of
           Inl e \<Rightarrow> (Inl e, w)
         | Inr attachments \<Rightarrow>
             if \<not> truthy attachments
             then (Inr (kw\<lparr>headers := AList.update ''Content-Type''
                                         (JStr ''application/x-www-form-urlencoded'') (headers kw),
                           data := or_none req_body\<rparr>), w)
             else
               (case open_attachments S
                       (case attachments of JArr xs \<Rightarrow> xs | _ \<Rightarrow> [attachments]) [] w of
                  (Inl e, w') \<Rightarrow> (Inl e, w')
                | (Inr fs, w') \<Rightarrow>
                    (case py_items req_body of
                       Inl e \<Rightarrow> (Inl e, w')
                     | Inr entries \<Rightarrow>
                         (Inr (kw\<lparr>files := fs,
                                  data := (if form_fields entries \<noteq> []
                                           then Some (JObj (form_fields entries)) else None),
                                  headers := AList.delete ''Content-Type'' (headers kw)\<rparr>), w'))))
      else (Inr kw, w))"

text \<open>The \<^verbatim>\<open>finally\<close> clause: every file of the list is closed.\<close>

definition close_files :: "(string \<times> string \<times> nat \<times> string) list \<Rightarrow> world \<Rightarrow> world" where
  "close_files fs w =
     w\<lparr>opened := filter (\<lambda>h. h \<notin> set (map (\<lambda>f. fst (snd (snd f))) fs)) (opened w)\<rparr>"

text \<open>\<^verbatim>\<open>resp.raise_for_status()\<close> of the HTTP library raises for the statuses 400 to 599; then
  the JSON value of the response is returned, or its text when there is none.\<close>

definition read_response :: "response \<Rightarrow> error + json" where
  "read_response resp =
     (if 400 \<le> status_code resp \<and> status_code resp < 600
      then Inl (HTTPError (status_code resp) (resp_text resp))
      else (case json_value resp of Some v \<Rightarrow> Inr v | None \<Rightarrow> Inr (JStr (resp_text resp))))"

text \<open>
  \<^verbatim>\<open>req in arguments\<close>: the keys of the arguments are strings, so only a string can be one of
  them.
\<close>

definition key_in :: "json \<Rightarrow> (string \<times> json) list \<Rightarrow> bool" where
  "key_in req arguments = (case req of JStr n \<Rightarrow> map_of arguments n \<noteq> None | _ \<Rightarrow> False)"

text \<open>The first required name that is not a key of the arguments.\<close>

definition first_missing :: "json list \<Rightarrow> (string \<times> json) list \<Rightarrow> json option" where
  "first_missing reqs arguments = find (\<lambda>req. \<not> key_in req arguments) reqs"

text \<open>
  \<^verbatim>\<open>call_tool(tool_name, arguments)\<close>: the result or the exception, and the world as the call
  leaves it. Writing the log has no part in the result and is left out.
\<close>

definition call_tool ::
  "services \<Rightarrow> lib \<Rightarrow> OpenAPIToolCaller \<Rightarrow> string \<Rightarrow> (string \<times> json) list \<Rightarrow> world \<Rightarrow>
   (error + json) \<times> world" where
  "call_tool S L st tname arguments w =
     (case (tools st tname, registry st tname) of
        (Some tool, Some meta) \<Rightarrow>
          (case first_missing (input_schema.required (inputSchema tool)) arguments of
             Some req \<Rightarrow> (Inl (ValueError (''Missing required argument: '' @ py_str L req)), w)
           | None \<Rightarrow>
               (case tool_base_urls st tname of
                  None \<Rightarrow> (Inl (ValueError (''No base URL found for tool: '' @ tname)), w)
                | Some base \<Rightarrow>
                    if base = [] then (Inl (ValueError (''No base URL found for tool: '' @ tname)), w)
                    else
                      (let ps = partition_arguments (param_locations meta) arguments
                                  \<lparr>path_params = [], query_params = [], header_params = [],
                                   body_params = []\<rparr>;
                           req_body = (case map_of arguments ''body'' of
                                         Some b \<Rightarrow> b | None \<Rightarrow> JObj (body_params ps));
                           u = substitute L (path_params ps)
                                 (rstrip ''/'' base @ OperationMeta.path meta)
                       in case create_headers S meta (header_params ps) of
                            Inl e \<Rightarrow> (Inl e, w)
                          | Inr req_headers \<Rightarrow>
                              (case conten_media_type meta of
                                 JStr mt \<Rightarrow>
                                   (case encode_body S
                                           (if lower mt = [] then ''application/json'' else lower mt)
                                           req_body
                                           \<lparr>req_method = http_method meta, url = u,
                                            params = (if query_params ps \<noteq> []
                                                      then Some (query_params ps) else None),
                                            headers = req_headers, json_body = None, data = None,
                                            files = []\<rparr> w of
                                      (Inl e, w') \<Rightarrow> (Inl e, w')
                                    | (Inr kw, w') \<Rightarrow>
                                        (case transport S kw of
                                           Inl e \<Rightarrow>
                                             (Inl e, close_files (files kw) (w'\<lparr>sent := sent w' @ [kw]\<rparr>))
                                         | Inr resp \<Rightarrow>
                                             (read_response resp,
                                              close_files (files kw) (w'\<lparr>sent := sent w' @ [kw]\<rparr>))))
                               | _ \<Rightarrow> (Inl AttributeError, w)))))
      | _ \<Rightarrow> (Inl (ValueError (''Unknown tool: '' @ tname)), w))"

section \<open>Sample values\<close>

text \<open>A printing library for running the functions on sample documents.\<close>

definition plain_lib :: lib where
  "plain_lib = \<lparr>repr = (\<lambda>v. ''<value>''), dumps = (\<lambda>v. ''<json>'')\<rparr>"

text \<open>A document without shared objects.\<close>

definition unshared :: sharing where
  "unshared r = []"

text \<open>
  A document with one operation whose request body is marked optional; its first content
  entry has a schema, an example and a description.
\<close>

definition order_entry :: "string \<Rightarrow> json" where
  "order_entry d =
     JObj [(''schema'', JObj [(''type'', JStr ''object'')]),
           (''example'', JObj [(''a'', JInt 1)]),
           (''description'', JStr d)]"

definition order_doc :: "string \<Rightarrow> json" where
  "order_doc d =
     JObj [(''paths'', JObj [(''/orders'', JObj [(''post'', JObj [
        (''operationId'', JStr ''createOrder''),
        (''requestBody'', JObj [(''required'', JBool False),
           (''content'', JObj [(''application/json'', order_entry d)])])])])])]"

definition order_tool :: Tool where
  "order_tool =
     \<lparr>name = ''createOrder'', description = [],
      inputSchema =
        \<lparr>properties =
           [(JStr ''body'',
             Shared [''paths'', ''/orders'', ''post'', ''requestBody'', ''content'',
                     ''application/json''])],
         required = [JStr ''body'']\<rparr>\<rparr>"

text \<open>
  A document with two operations whose request bodies have one and the same content entry:
  an anchor under \<^verbatim>\<open>/a\<close> and its alias under \<^verbatim>\<open>/b\<close>.
\<close>

definition twin_doc :: "string \<Rightarrow> json" where
  "twin_doc d =
     JObj [(''paths'', JObj [
       (''/a'', JObj [(''post'', JObj [
          (''operationId'', JStr ''createA''),
          (''requestBody'', JObj [(''content'', JObj [(''application/json'', order_entry d)])])])]),
       (''/b'', JObj [(''put'', JObj [
          (''operationId'', JStr ''replaceB''),
          (''requestBody'', JObj [(''content'', JObj [(''application/json'', order_entry d)])])])])])]"

definition twin_sharing :: sharing where
  "twin_sharing r =
     (if r = [''paths'', ''/a'', ''post'', ''requestBody'', ''content'', ''application/json'']
      then [[Key ''paths'', Key ''/b'', Key ''put'', Key ''requestBody'', Key ''content'',
             Key ''application/json'']]
      else if r = [''paths'', ''/b'', ''put'', ''requestBody'', ''content'', ''application/json'']
      then [[Key ''paths'', Key ''/a'', Key ''post'', Key ''requestBody'', Key ''content'',
             Key ''application/json'']]
      else [])"

definition twin_tool :: Tool where
  "twin_tool =
     \<lparr>name = ''createA'', description = [],
      inputSchema =
        \<lparr>properties =
           [(JStr ''body'',
             Shared [''paths'', ''/a'', ''post'', ''requestBody'', ''content'',
                     ''application/json''])],
         required = [JStr ''body'']\<rparr>\<rparr>"

text \<open>A document whose operation has a required request body with an empty content entry.\<close>

definition upload_doc :: json where
  "upload_doc =
     JObj [(''paths'', JObj [(''/upload'', JObj [(''post'', JObj [
        (''operationId'', JStr ''upload''),
        (''requestBody'', JObj [(''required'', JBool True),
           (''content'', JObj [(''application/octet-stream'', JObj [])])])])])])]"

definition upload_tool :: Tool where
  "upload_tool =
     \<lparr>name = ''upload'', description = [],
      inputSchema = \<lparr>properties = [], required = []\<rparr>\<rparr>"

text \<open>
  A caller with two registered tools: one that sends JSON, with a path parameter and a header
  parameter, and one that sends a multipart form.
\<close>

definition item_tool :: Tool where
  "item_tool =
     \<lparr>name = ''svc:updateItem'', description = ''Update an item'',
      inputSchema =
        \<lparr>properties =
           [(JStr ''id'', Owned (JObj [(''type'', JStr ''string'')])),
            (JStr ''Content-Type'', Owned (JObj [(''type'', JStr ''string'')])),
            (JStr ''body'', Owned (JObj [(''type'', JStr ''object'')]))],
         required = [JStr ''id'', JStr ''body'']\<rparr>\<rparr>"

definition item_meta :: OperationMeta where
  "item_meta =
     \<lparr>http_method = ''PUT'', path = ''/items/{id}'',
      param_locations =
        [(JStr ''id'', JStr ''path''), (JStr ''Content-Type'', JStr ''header''),
         (JStr ''body'', JStr ''body'')],
      required = [JStr ''id'', JStr ''body''],
      conten_media_type = JStr ''application/json'',
      auth_type = Some ''Bearer'', service_name = ''svc''\<rparr>"

definition mail_tool :: Tool where
  "mail_tool =
     \<lparr>name = ''svc:sendMail'', description = ''Send a mail'',
      inputSchema =
        \<lparr>properties = [(JStr ''body'', Owned (JObj [(''type'', JStr ''object'')]))],
         required = [JStr ''body'']\<rparr>\<rparr>"

definition mail_meta :: OperationMeta where
  "mail_meta =
     \<lparr>http_method = ''POST'', path = ''/mail'',
      param_locations = [(JStr ''body'', JStr ''body'')],
      required = [JStr ''body''],
      conten_media_type = JStr ''multipart/form-data'',
      auth_type = Some ''Bearer'', service_name = ''svc''\<rparr>"

definition sample_caller :: OpenAPIToolCaller where
  "sample_caller =
     register (register (new_caller\<lparr>documents := [JObj []]\<rparr>) item_tool item_meta
                 ''https://api.example.com/'' 0)
       mail_tool mail_meta ''https://api.example.com/'' 0"

text \<open>
  Collaborators for the samples: fixed credentials, the working directory \<^verbatim>\<open>/work\<close> in which
  only \<^verbatim>\<open>a.txt\<close> can be opened, no known media types, and a transport that answers every
  request with the given response.
\<close>

definition basic_credentials :: "string \<Rightarrow> error + (string \<times> json) list" where
  "basic_credentials service = Inr [(''Authorization'', JStr ''Basic a2V5OnNlY3JldA=='')]"

definition bearer_credentials :: "string \<Rightarrow> error + (string \<times> json) list" where
  "bearer_credentials service = Inr [(''Authorization'', JStr ''Bearer t0ken'')]"

definition only_file :: "string \<Rightarrow> string \<Rightarrow> bool" where
  "only_file f g = (g = f)"

definition no_guess :: "string \<Rightarrow> string option" where
  "no_guess f = None"

definition answer :: "response \<Rightarrow> request_kwargs \<Rightarrow> error + response" where
  "answer r kw = Inr r"

definition sample_services :: "response \<Rightarrow> services" where
  "sample_services r =
     \<lparr>get_basic_auth_header = basic_credentials, get_bearer_auth_header = bearer_credentials,
      getcwd = ''/work'', can_open = only_file ''/work/a.txt'', guess_type = no_guess,
      transport = answer r\<rparr>"

definition idle :: world where
  "idle = \<lparr>opened = [], next_handle = 0, sent = []\<rparr>"

text \<open>
  The document of the filtering test: three operations tagged \<open>{A, B}\<close>, \<open>{B, C}\<close> and \<open>{C, D}\<close>,
  and a configuration entry without filters.
\<close>

definition tagged_doc :: json where
  "tagged_doc =
     JObj [(''openapi'', JStr ''3.0.0''), (''paths'', JObj [
       (''/foo'', JObj [(''get'', JObj [(''operationId'', JStr ''getFoo''),
          (''tags'', JArr [JStr ''A'', JStr ''B'']), (''parameters'', JArr [])])]),
       (''/bar'', JObj [(''post'', JObj [(''operationId'', JStr ''postBar''),
          (''tags'', JArr [JStr ''B'', JStr ''C'']), (''parameters'', JArr [])])]),
       (''/baz'', JObj [(''get'', JObj [(''operationId'', JStr ''getBaz''),
          (''tags'', JArr [JStr ''C'', JStr ''D'']), (''parameters'', JArr [])])])])]"

definition test_binding :: OpenAPISpec where
  "test_binding =
     \<lparr>service_name = ''test'', file_location = ''dummy.yaml'', prefix = Some ''test'',
      auth_type = None, base_url = Some ''https://dummy.api'', include_tags = None,
      exclude_tags = None, include_paths = None, exclude_paths = None\<rparr>"

text \<open>A loader that knows that one document, and a configuration file without base URLs.\<close>

definition load_tagged :: "string \<Rightarrow> error + json \<times> sharing" where
  "load_tagged f =
     (if f = ''dummy.yaml'' then Inr (tagged_doc, unshared) else Inl (RuntimeError ''cannot load''))"

definition no_base_url :: "string \<Rightarrow> string option" where
  "no_base_url service = None"

definition sample_loader :: loader where
  "sample_loader = \<lparr>load_openapi_spec = load_tagged, get_openapi_base_url = no_base_url\<rparr>"

text \<open>The four dicts have the same keys, and no base URL is empty.\<close>

definition consistent :: "OpenAPIToolCaller \<Rightarrow> bool" where
  "consistent st \<longleftrightarrow>
     dom (registry st) = dom (tools st) \<and> dom (tool_base_urls st) = dom (tools st) \<and>
     dom (tool_specs st) = dom (tools st) \<and>
     (\<forall>tname u. tool_base_urls st tname = Some u \<longrightarrow> u \<noteq> [])"

section \<open>Properties\<close>

lemma ebind_Inl [simp]: "ebind (Inl e) f = Inl e"
  by (simp add: ebind_def)

lemma ebind_Inr [simp]: "ebind (Inr x) f = f x"
  by (simp add: ebind_def)


lemma resolve_root_plain: "map_of s ''$ref'' = None \<Longrightarrow> resolve_root spec (JObj s) = Inr (JObj s)"
  by (simp add: resolve_root_def)

lemma examples_rule_absent: "map_of s ''examples'' = None \<Longrightarrow> examples_rule (JObj s) = Inr None"
  by (simp add: examples_rule_def)

lemma examples_rule_dict:
  "map_of s ''examples'' = Some (JObj exs) \<Longrightarrow>
   examples_rule (JObj s) = Inr (first_example (map snd exs))"
  by (simp add: examples_rule_def)

lemma enum_rule_absent: "map_of s ''enum'' = None \<Longrightarrow> enum_rule (JObj s) = Inr None"
  by (simp add: enum_rule_def)

lemma enum_rule_list:
  "map_of s ''enum'' = Some (JArr (v # vs)) \<Longrightarrow> enum_rule (JObj s) = Inr (Some v)"
  by (simp add: enum_rule_def)

lemma example_rule_first:
  assumes "resolve_root spec node = Inr (JObj s)" and "map_of s ''example'' = Some v"
  shows "generate_example_from_schema (Suc d) spec node = Inr v"
  using assms by simp

lemma examples_rule_second:
  assumes "resolve_root spec node = Inr (JObj s)" and "map_of s ''example'' = None"
    and "examples_rule (JObj s) = Inr (Some v)"
  shows "generate_example_from_schema (Suc d) spec node = Inr v"
  using assms by simp

lemma default_rule_third:
  assumes "resolve_root spec node = Inr (JObj s)" and "map_of s ''example'' = None"
    and "examples_rule (JObj s) = Inr None" and "map_of s ''default'' = Some v"
  shows "generate_example_from_schema (Suc d) spec node = Inr v"
  using assms by simp

lemma enum_rule_fourth:
  assumes "resolve_root spec node = Inr (JObj s)" and "map_of s ''example'' = None"
    and "examples_rule (JObj s) = Inr None" and "map_of s ''default'' = None"
    and "enum_rule (JObj s) = Inr (Some v)"
  shows "generate_example_from_schema (Suc d) spec node = Inr v"
  using assms by simp


lemma type_rule_last:
  assumes "resolve_root spec node = Inr (JObj s)" and "map_of s ''example'' = None"
    and "examples_rule (JObj s) = Inr None" and "map_of s ''default'' = None"
    and "enum_rule (JObj s) = Inr None"
  shows "generate_example_from_schema (Suc d) spec node =
     (let typ = (case map_of s ''type'' of Some t \<Rightarrow> t | None \<Rightarrow> JNull) in
      if typ = JStr ''object'' then
        ebind (py_items (case map_of s ''properties'' of Some p \<Rightarrow> p | None \<Rightarrow> JObj []))
          (\<lambda>kvs. ebind (example_props d spec kvs) (\<lambda>example_obj. Inr (JObj example_obj)))
      else if typ = JStr ''array'' then
        ebind (generate_example_from_schema d spec
                 (case map_of s ''items'' of Some i \<Rightarrow> i | None \<Rightarrow> JObj []))
          (\<lambda>v. Inr (JArr [v]))
      else if typ = JStr ''string'' then
        Inr (string_example (case map_of s ''format'' of Some f \<Rightarrow> f | None \<Rightarrow> JNull))
      else if typ = JStr ''integer'' then Inr (JInt 0)
      else if typ = JStr ''number'' then Inr (JFloat 0)
      else if typ = JStr ''boolean'' then Inr (JBool True)
      else Inr (JStr ''example''))"
  using assms by (simp add: Let_def)

lemma plain_integer_example:
  assumes "map_of pa ''$ref'' = None" and "map_of pa ''example'' = None"
    and "map_of pa ''examples'' = None" and "map_of pa ''default'' = None"
    and "map_of pa ''enum'' = None" and "map_of pa ''type'' = Some (JStr ''integer'')"
  shows "generate_example_from_schema (Suc d) spec (JObj pa) = Inr (JInt 0)"
  using assms by (simp add: resolve_root_def examples_rule_def enum_rule_def)

lemma plain_string_example:
  assumes "map_of pb ''$ref'' = None" and "map_of pb ''example'' = None"
    and "map_of pb ''examples'' = None" and "map_of pb ''default'' = None"
    and "map_of pb ''enum'' = None" and "map_of pb ''type'' = Some (JStr ''string'')"
    and "map_of pb ''format'' = None"
  shows "generate_example_from_schema (Suc d) spec (JObj pb) = Inr (JStr ''string'')"
  using assms by (simp add: resolve_root_def examples_rule_def enum_rule_def string_example_def)


text \<open>
  C6. Once a \<^verbatim>\<open>$ref\<close> at the root is resolved to a node \<open>s\<close>, the synthesizer returns what the
  first applicable rule gives, in the order: the \<^verbatim>\<open>example\<close> field; the first usable entry of the
  \<^verbatim>\<open>examples\<close> mapping; the \<^verbatim>\<open>default\<close> field; the first element of a non-empty \<^verbatim>\<open>enum\<close> list;
  and only then the value chosen by \<^verbatim>\<open>type\<close>. In particular a node without \<^verbatim>\<open>$ref\<close> that has an
  \<^verbatim>\<open>example\<close> field yields exactly that value whatever its other fields are, and an object
  schema with the properties \<open>a\<close> (an integer) and \<open>b\<close> (a string), with no examples, defaults
  or enums, yields the object \<open>{a: 0, b: "string"}\<close>.
\<close>

theorem generate_example_rule_order:
  "(resolve_root spec node = Inr (JObj s) \<longrightarrow>
      (\<forall>v. map_of s ''example'' = Some v \<longrightarrow>
         generate_example_from_schema (Suc d) spec node = Inr v) \<and>
      (\<forall>v. map_of s ''example'' = None \<and> examples_rule (JObj s) = Inr (Some v) \<longrightarrow>
         generate_example_from_schema (Suc d) spec node = Inr v) \<and>
      (\<forall>v. map_of s ''example'' = None \<and> examples_rule (JObj s) = Inr None \<and>
         map_of s ''default'' = Some v \<longrightarrow>
         generate_example_from_schema (Suc d) spec node = Inr v) \<and>
      (\<forall>v. map_of s ''example'' = None \<and> examples_rule (JObj s) = Inr None \<and>
         map_of s ''default'' = None \<and> enum_rule (JObj s) = Inr (Some v) \<longrightarrow>
         generate_example_from_schema (Suc d) spec node = Inr v) \<and>
      (map_of s ''example'' = None \<and> examples_rule (JObj s) = Inr None \<and>
         map_of s ''default'' = None \<and> enum_rule (JObj s) = Inr None \<longrightarrow>
         generate_example_from_schema (Suc d) spec node =
           (let typ = (case map_of s ''type'' of Some t \<Rightarrow> t | None \<Rightarrow> JNull) in
            if typ = JStr ''object'' then
              ebind (py_items (case map_of s ''properties'' of Some p \<Rightarrow> p | None \<Rightarrow> JObj []))
                (\<lambda>kvs. ebind (example_props d spec kvs) (\<lambda>example_obj. Inr (JObj example_obj)))
            else if typ = JStr ''array'' then
              ebind (generate_example_from_schema d spec
                       (case map_of s ''items'' of Some i \<Rightarrow> i | None \<Rightarrow> JObj []))
                (\<lambda>v. Inr (JArr [v]))
            else if typ = JStr ''string'' then
              Inr (string_example (case map_of s ''format'' of Some f \<Rightarrow> f | None \<Rightarrow> JNull))
            else if typ = JStr ''integer'' then Inr (JInt 0)
            else if typ = JStr ''number'' then Inr (JFloat 0)
            else if typ = JStr ''boolean'' then Inr (JBool True)
            else Inr (JStr ''example'')))) \<and>
   (\<forall>t v. map_of t ''$ref'' = None \<and> map_of t ''example'' = Some v \<longrightarrow>
      generate_example_from_schema (Suc d) spec (JObj t) = Inr v) \<and>
   (\<forall>t pa pb.
      map_of t ''$ref'' = None \<and> map_of t ''example'' = None \<and> map_of t ''examples'' = None \<and>
      map_of t ''default'' = None \<and> map_of t ''enum'' = None \<and>
      map_of t ''type'' = Some (JStr ''object'') \<and>
      map_of t ''properties'' = Some (JObj [(''a'', JObj pa), (''b'', JObj pb)]) \<and>
      map_of pa ''$ref'' = None \<and> map_of pa ''example'' = None \<and> map_of pa ''examples'' = None \<and>
      map_of pa ''default'' = None \<and> map_of pa ''enum'' = None \<and>
      map_of pa ''type'' = Some (JStr ''integer'') \<and>
      map_of pb ''$ref'' = None \<and> map_of pb ''example'' = None \<and> map_of pb ''examples'' = None \<and>
      map_of pb ''default'' = None \<and> map_of pb ''enum'' = None \<and>
      map_of pb ''type'' = Some (JStr ''string'') \<and> map_of pb ''format'' = None \<longrightarrow>
      generate_example_from_schema (Suc (Suc d)) spec (JObj t) =
        Inr (JObj [(''a'', JInt 0), (''b'', JStr ''string'')]))"
proof (intro conjI impI allI)
  fix v assume "resolve_root spec node = Inr (JObj s)" "map_of s ''example'' = Some v"
  then show "generate_example_from_schema (Suc d) spec node = Inr v"
    by (rule example_rule_first)
next
  fix v assume "resolve_root spec node = Inr (JObj s)"
    "map_of s ''example'' = None \<and> examples_rule (JObj s) = Inr (Some v)"
  then show "generate_example_from_schema (Suc d) spec node = Inr v"
    by (simp add: examples_rule_second)
next
  fix v assume "resolve_root spec node = Inr (JObj s)"
    "map_of s ''example'' = None \<and> examples_rule (JObj s) = Inr None \<and>
     map_of s ''default'' = Some v"
  then show "generate_example_from_schema (Suc d) spec node = Inr v"
    by (simp add: default_rule_third)
next
  fix v assume "resolve_root spec node = Inr (JObj s)"
    "map_of s ''example'' = None \<and> examples_rule (JObj s) = Inr None \<and>
     map_of s ''default'' = None \<and> enum_rule (JObj s) = Inr (Some v)"
  then show "generate_example_from_schema (Suc d) spec node = Inr v"
    by (simp add: enum_rule_fourth)
next
  assume "resolve_root spec node = Inr (JObj s)"
    "map_of s ''example'' = None \<and> examples_rule (JObj s) = Inr None \<and>
     map_of s ''default'' = None \<and> enum_rule (JObj s) = Inr None"
  then show "generate_example_from_schema (Suc d) spec node =
           (let typ = (case map_of s ''type'' of Some t \<Rightarrow> t | None \<Rightarrow> JNull) in
            if typ = JStr ''object'' then
              ebind (py_items (case map_of s ''properties'' of Some p \<Rightarrow> p | None \<Rightarrow> JObj []))
                (\<lambda>kvs. ebind (example_props d spec kvs) (\<lambda>example_obj. Inr (JObj example_obj)))
            else if typ = JStr ''array'' then
              ebind (generate_example_from_schema d spec
                       (case map_of s ''items'' of Some i \<Rightarrow> i | None \<Rightarrow> JObj []))
                (\<lambda>v. Inr (JArr [v]))
            else if typ = JStr ''string'' then
              Inr (string_example (case map_of s ''format'' of Some f \<Rightarrow> f | None \<Rightarrow> JNull))
            else if typ = JStr ''integer'' then Inr (JInt 0)
            else if typ = JStr ''number'' then Inr (JFloat 0)
            else if typ = JStr ''boolean'' then Inr (JBool True)
            else Inr (JStr ''example''))"
    by (intro type_rule_last) simp_all
next
  fix t :: "(string \<times> json) list" and v
  assume "map_of t ''$ref'' = None \<and> map_of t ''example'' = Some v"
  then show "generate_example_from_schema (Suc d) spec (JObj t) = Inr v"
    by (simp add: resolve_root_def)
next
  fix t pa pb
  assume h: "map_of t ''$ref'' = None \<and> map_of t ''example'' = None \<and> map_of t ''examples'' = None \<and>
      map_of t ''default'' = None \<and> map_of t ''enum'' = None \<and>
      map_of t ''type'' = Some (JStr ''object'') \<and>
      map_of t ''properties'' = Some (JObj [(''a'', JObj pa), (''b'', JObj pb)]) \<and>
      map_of pa ''$ref'' = None \<and> map_of pa ''example'' = None \<and> map_of pa ''examples'' = None \<and>
      map_of pa ''default'' = None \<and> map_of pa ''enum'' = None \<and>
      map_of pa ''type'' = Some (JStr ''integer'') \<and>
      map_of pb ''$ref'' = None \<and> map_of pb ''example'' = None \<and> map_of pb ''examples'' = None \<and>
      map_of pb ''default'' = None \<and> map_of pb ''enum'' = None \<and>
      map_of pb ''type'' = Some (JStr ''string'') \<and> map_of pb ''format'' = None"
  have a: "generate_example_from_schema (Suc d) spec (JObj pa) = Inr (JInt 0)"
    using h by (intro plain_integer_example) simp_all
  have b: "generate_example_from_schema (Suc d) spec (JObj pb) = Inr (JStr ''string'')"
    using h by (intro plain_string_example) simp_all
  have props: "example_props (Suc d) spec [(''a'', JObj pa), (''b'', JObj pb)] =
      Inr [(''a'', JInt 0), (''b'', JStr ''string'')]"
    by (simp only: example_props.simps a b ebind_Inr)
  have "generate_example_from_schema (Suc (Suc d)) spec (JObj t) =
      ebind (py_items (JObj [(''a'', JObj pa), (''b'', JObj pb)]))
        (\<lambda>kvs. ebind (example_props (Suc d) spec kvs) (\<lambda>example_obj. Inr (JObj example_obj)))"
    using h
    by (subst type_rule_last [where s = t])
       (simp_all add: resolve_root_plain examples_rule_absent enum_rule_absent)
  then show "generate_example_from_schema (Suc (Suc d)) spec (JObj t) =
        Inr (JObj [(''a'', JInt 0), (''b'', JStr ''string'')])"
    by (simp add: props del: generate_example_from_schema.simps example_props.simps)
qed

theorem generate_example_rule_order_witness:
  "generate_example_from_schema 1 JNull
     (JObj [(''type'', JStr ''integer''), (''default'', JInt 7), (''example'', JStr ''x'')])
     = Inr (JStr ''x'') \<and>
   generate_example_from_schema 1 JNull
     (JObj [(''examples'', JObj [(''first'', JObj [(''value'', JInt 1)])]), (''default'', JInt 7)])
     = Inr (JInt 1) \<and>
   generate_example_from_schema 1 JNull
     (JObj [(''type'', JStr ''string''), (''enum'', JArr [JInt 3]), (''default'', JInt 7)])
     = Inr (JInt 7) \<and>
   generate_example_from_schema 1 JNull
     (JObj [(''type'', JStr ''string''), (''enum'', JArr [JInt 3, JInt 4])])
     = Inr (JInt 3) \<and>
   generate_example_from_schema 1 JNull (JObj [(''type'', JStr ''boolean'')])
     = Inr (JBool True) \<and>
   generate_example_from_schema 1
     (JObj [(''components'', JObj [(''schemas'', JObj [(''S'', JObj [(''example'', JInt 5)])])])])
     (JObj [(''$ref'', JStr ''#/components/schemas/S''), (''example'', JInt 9)])
     = Inr (JInt 5) \<and>
   generate_example_from_schema 2 JNull
     (JObj [(''type'', JStr ''object''),
            (''properties'', JObj [(''a'', JObj [(''type'', JStr ''integer'')]),
                                   (''b'', JObj [(''type'', JStr ''string'')])])])
     = Inr (JObj [(''a'', JInt 0), (''b'', JStr ''string'')])"
proof -
  note T = generate_example_rule_order
  have 1: "generate_example_from_schema 1 JNull
     (JObj [(''type'', JStr ''integer''), (''default'', JInt 7), (''example'', JStr ''x'')])
     = Inr (JStr ''x'')"
    using T [where d = 0 and spec = JNull
        and node = "JObj [(''type'', JStr ''integer''), (''default'', JInt 7), (''example'', JStr ''x'')]"
        and s = "[(''type'', JStr ''integer''), (''default'', JInt 7), (''example'', JStr ''x'')]"]
    by (simp add: resolve_root_def)
  have 2: "generate_example_from_schema 1 JNull
     (JObj [(''examples'', JObj [(''first'', JObj [(''value'', JInt 1)])]), (''default'', JInt 7)])
     = Inr (JInt 1)"
    using T [where d = 0 and spec = JNull
        and node = "JObj [(''examples'', JObj [(''first'', JObj [(''value'', JInt 1)])]), (''default'', JInt 7)]"
        and s = "[(''examples'', JObj [(''first'', JObj [(''value'', JInt 1)])]), (''default'', JInt 7)]"]
    by (simp add: resolve_root_def examples_rule_def)
  have 3: "generate_example_from_schema 1 JNull
     (JObj [(''type'', JStr ''string''), (''enum'', JArr [JInt 3]), (''default'', JInt 7)])
     = Inr (JInt 7)"
    using T [where d = 0 and spec = JNull
        and node = "JObj [(''type'', JStr ''string''), (''enum'', JArr [JInt 3]), (''default'', JInt 7)]"
        and s = "[(''type'', JStr ''string''), (''enum'', JArr [JInt 3]), (''default'', JInt 7)]"]
    by (simp add: resolve_root_def examples_rule_def)
  have 4: "generate_example_from_schema 1 JNull
     (JObj [(''type'', JStr ''string''), (''enum'', JArr [JInt 3, JInt 4])])
     = Inr (JInt 3)"
    using T [where d = 0 and spec = JNull
        and node = "JObj [(''type'', JStr ''string''), (''enum'', JArr [JInt 3, JInt 4])]"
        and s = "[(''type'', JStr ''string''), (''enum'', JArr [JInt 3, JInt 4])]"]
    by (simp add: resolve_root_def examples_rule_def enum_rule_def)
  have 5: "generate_example_from_schema 1 JNull (JObj [(''type'', JStr ''boolean'')])
     = Inr (JBool True)"
    using T [where d = 0 and spec = JNull
        and node = "JObj [(''type'', JStr ''boolean'')]"
        and s = "[(''type'', JStr ''boolean'')]"]
    by (simp add: resolve_root_def examples_rule_def enum_rule_def)
  have 6: "generate_example_from_schema 1
     (JObj [(''components'', JObj [(''schemas'', JObj [(''S'', JObj [(''example'', JInt 5)])])])])
     (JObj [(''$ref'', JStr ''#/components/schemas/S''), (''example'', JInt 9)])
     = Inr (JInt 5)"
    using T [where d = 0
        and spec = "JObj [(''components'', JObj [(''schemas'', JObj [(''S'', JObj [(''example'', JInt 5)])])])]"
        and node = "JObj [(''$ref'', JStr ''#/components/schemas/S''), (''example'', JInt 9)]"
        and s = "[(''example'', JInt 5)]"]
    by (simp add: resolve_root_def startswith_def lstrip_def)
  have 7: "generate_example_from_schema 2 JNull
     (JObj [(''type'', JStr ''object''),
            (''properties'', JObj [(''a'', JObj [(''type'', JStr ''integer'')]),
                                   (''b'', JObj [(''type'', JStr ''string'')])])])
     = Inr (JObj [(''a'', JInt 0), (''b'', JStr ''string'')])"
    using T [where d = 0 and spec = JNull, THEN conjunct2, THEN conjunct2, rule_format,
        where t = "[(''type'', JStr ''object''),
            (''properties'', JObj [(''a'', JObj [(''type'', JStr ''integer'')]),
                                   (''b'', JObj [(''type'', JStr ''string'')])])]"
        and pa = "[(''type'', JStr ''integer'')]" and pb = "[(''type'', JStr ''string'')]"]
    by (simp add: numeral_2_eq_2)
  show ?thesis using 1 2 3 4 5 6 7 by (simp only: simp_thms)
qed


subsection \<open>The builder and the document\<close>

lemma ebind_eq_Inr: "ebind m f = Inr y \<longleftrightarrow> (\<exists>x. m = Inr x \<and> f x = Inr y)"
  by (cases m) simp_all

lemma get_path_append:
  "get_path obj (p @ q) = (case get_path obj p of Some x \<Rightarrow> get_path x q | None \<Rightarrow> None)"
  by (induction p arbitrary: obj) (auto split: json.splits option.splits)

lemma set_path_append:
  "get_path obj p = Some x \<Longrightarrow> set_path obj (p @ q) new = set_path obj p (set_path x q new)"
  by (induction p arbitrary: obj) (auto split: json.splits option.splits)

lemma get_set_path:
  "get_path obj p \<noteq> None \<Longrightarrow> get_path (set_path obj p new) p = Some new"
  by (induction p arbitrary: obj) (auto split: json.splits option.splits simp: update_conv')

lemma get_path_last:
  "get_path spec (ks @ [k]) = Some v \<longleftrightarrow>
     (\<exists>kvs. get_path spec ks = Some (JObj kvs) \<and> map_of kvs k = Some v)"
  by (auto simp: get_path_append split: option.splits json.splits)

lemma update_update_same: "AList.update k v (AList.update k w al) = AList.update k v al"
  by (induction al) auto

lemma get_path_op:
  assumes "get_path spec [''paths'', p, m] = Some operation"
  shows "\<exists>sp ps item. spec = JObj sp \<and> map_of sp ''paths'' = Some (JObj ps) \<and>
     map_of ps p = Some (JObj item) \<and> map_of item m = Some operation"
  using assms by (auto split: json.splits option.splits)


lemma map_of_Some_nonempty: "map_of al k = Some v \<Longrightarrow> al \<noteq> []"
  by auto

lemma key_eq_same: "key_eq k k"
  by (simp add: key_eq_def split: option.splits)

lemma dict_find_dict_set: "dict_find (dict_set k v d) k = Some v"
  by (induction d) (auto simp: key_eq_same)

lemma extract_body_declared:
  assumes "get_path spec op_ref = Some (JObj op)"
    and "map_of op ''requestBody'' = Some (JObj rb)"
    and "map_of rb ''content'' = Some (JObj ((mt, JObj kvs) # rest))"
    and "kvs \<noteq> []"
  shows "extract_body L sh spec op_ref props reqs =
     ebind (annotate_body kvs mt (map_option (dumps L) (map_of kvs ''example''))) (\<lambda>desc.
       Inr (store_description sh spec (op_ref @ [''requestBody'', ''content'', mt]) kvs desc,
            dict_set (JStr ''body'') (Shared (op_ref @ [''requestBody'', ''content'', mt])) props,
            reqs @ [JStr ''body'']))"
proof -
  have "rb \<noteq> []" using assms(3) by auto
  then show ?thesis
    using assms by (cases "map_of kvs ''example''") (simp_all add: extract_body_def)
qed

lemma extract_body_empty_entry:
  assumes "get_path spec op_ref = Some (JObj op)"
    and "map_of op ''requestBody'' = Some (JObj rb)"
    and "map_of rb ''content'' = Some (JObj ((mt, JObj []) # rest))"
  shows "extract_body L sh spec op_ref props reqs = Inr (spec, props, reqs)"
proof -
  have "rb \<noteq> []" using assms(3) by auto
  then show ?thesis using assms by (simp add: extract_body_def)
qed

lemma tool_name_total: "\<exists>nm. tool_name L (JObj op) p m pre = Inr nm"
  by (simp add: tool_name_def Let_def split: option.splits)

lemma tool_description_total: "\<exists>d. tool_description (JObj op) = Inr d"
  by (simp add: tool_description_def)

lemma tool_parts_found:
  assumes "get_path spec [''paths'', p, lower m] = Some (JObj op)" and "op \<noteq> []"
  shows "tool_parts L depth sh spec p m pre =
     ebind (tool_name L (JObj op) p m pre) (\<lambda>nm.
     ebind (tool_description (JObj op)) (\<lambda>desc.
     ebind (extract_parameters L depth spec (JObj op) [] []) (\<lambda>params.
     ebind (extract_body L sh spec [''paths'', p, lower m] (fst params) (snd params))
       (\<lambda>body.
     Inr (fst body, nm, desc,
          \<lparr>properties = fst (snd body), required = snd (snd body)\<rparr>)))))"
proof -
  obtain sp ps item where s: "spec = JObj sp" "map_of sp ''paths'' = Some (JObj ps)"
     "map_of ps p = Some (JObj item)" "map_of item (lower m) = Some (JObj op)"
    using get_path_op [OF assms(1)] by blast
  have "item \<noteq> []" using s(4) by auto
  then show ?thesis using s assms(2) by (simp add: tool_parts_def)
qed


lemma make_tool_Inr:
  "make_tool nm desc schema = Inr tool \<Longrightarrow> inputSchema tool = schema"
  by (auto simp: make_tool_def split: json.splits)

lemma generate_tool_Inr:
  assumes "generate_tool_from_operation L depth sh spec p m pre = (Inr tool, spec')"
  shows "\<exists>nm desc schema. tool_parts L depth sh spec p m pre = Inr (spec', nm, desc, schema)
           \<and> make_tool nm desc schema = Inr tool"
  using assms by (auto simp: generate_tool_from_operation_def split: sum.splits)

lemma generate_tool_body_effect:
  assumes op: "get_path spec [''paths'', p, lower m] = Some (JObj op)"
    and rb: "map_of op ''requestBody'' = Some (JObj rb)"
    and content: "map_of rb ''content'' = Some (JObj ((mt, JObj kvs) # rest))"
    and nonempty: "kvs \<noteq> []"
    and build: "generate_tool_from_operation L depth sh spec p m pre = (Inr tool, spec')"
  shows "\<exists>desc params.
     extract_parameters L depth spec (JObj op) [] [] = Inr params \<and>
     annotate_body kvs mt (map_option (dumps L) (map_of kvs ''example'')) = Inr desc \<and>
     spec' = store_description sh spec
               [''paths'', p, lower m, ''requestBody'', ''content'', mt] kvs desc \<and>
     inputSchema tool =
       \<lparr>properties = dict_set (JStr ''body'')
            (Shared [''paths'', p, lower m, ''requestBody'', ''content'', mt]) (fst params),
        required = snd params @ [JStr ''body'']\<rparr>"
proof -
  have "op \<noteq> []" using rb by auto
  note parts = tool_parts_found [OF op this, of L depth sh pre]
  obtain nm desc schema where
    tp: "tool_parts L depth sh spec p m pre = Inr (spec', nm, desc, schema)"
    and mk: "make_tool nm desc schema = Inr tool"
    using generate_tool_Inr [OF build] by blast
  from tp [unfolded parts] obtain params b where
    ps: "extract_parameters L depth spec (JObj op) [] [] = Inr params"
    and eb: "extract_body L sh spec [''paths'', p, lower m] (fst params) (snd params) = Inr b"
    and res: "spec' = fst b" "schema = \<lparr>properties = fst (snd b), required = snd (snd b)\<rparr>"
    by (auto simp: ebind_eq_Inr)
  from eb [unfolded extract_body_declared [OF op rb content nonempty]] obtain d where
    an: "annotate_body kvs mt (map_option (dumps L) (map_of kvs ''example'')) = Inr d"
    and b: "b = (store_description sh spec
                   ([''paths'', p, lower m] @ [''requestBody'', ''content'', mt]) kvs d,
            dict_set (JStr ''body'')
              (Shared ([''paths'', p, lower m] @ [''requestBody'', ''content'', mt])) (fst params),
            snd params @ [JStr ''body''])"
    by (auto simp: ebind_eq_Inr)
  show ?thesis
    using ps an b res make_tool_Inr [OF mk] by simp
qed

lemma extract_body_entry:
  assumes "get_path spec op_ref = Some (JObj op)"
    and "map_of op ''requestBody'' = Some (JObj rb)"
    and "map_of rb ''content'' = Some (JObj ((mt, node) # rest))"
    and "extract_body L sh spec op_ref props reqs = Inr r"
  shows "(truthy node \<longrightarrow> JStr ''body'' \<in> set (snd (snd r))) \<and>
         (\<not> truthy node \<longrightarrow> r = (spec, props, reqs))"
proof -
  have "rb \<noteq> []" using assms(3) by auto
  then show ?thesis
    using assms
    by (cases node) (auto simp: extract_body_def ebind_eq_Inr split: if_splits)
qed

text \<open>
  A parameter name that is not a string is a key like any other: the names \<^verbatim>\<open>5\<close> and \<^verbatim>\<open>None\<close>
  give two properties, and the name \<^verbatim>\<open>5.0\<close> is the key \<^verbatim>\<open>5\<close> again.
\<close>

lemma unusual_names_build:
  "generate_tool_from_operation plain_lib 8 unshared
     (JObj [(''paths'', JObj [(''/n'', JObj [(''get'', JObj [
        (''operationId'', JStr ''numbered''),
        (''parameters'', JArr [
           JObj [(''name'', JInt 5), (''required'', JBool True)],
           JObj [(''name'', JNull)],
           JObj [(''name'', JFloat 5), (''schema'', JObj [(''type'', JStr ''integer'')])]])])])])])
     ''/n'' ''get'' None =
   (Inr \<lparr>name = ''numbered'', description = [],
         inputSchema =
           \<lparr>properties = [(JInt 5, Owned (JObj [(''type'', JStr ''integer'')])),
                          (JNull, Owned (JObj [(''type'', JStr ''string'')]))],
            required = [JInt 5]\<rparr>\<rparr>,
    JObj [(''paths'', JObj [(''/n'', JObj [(''get'', JObj [
        (''operationId'', JStr ''numbered''),
        (''parameters'', JArr [
           JObj [(''name'', JInt 5), (''required'', JBool True)],
           JObj [(''name'', JNull)],
           JObj [(''name'', JFloat 5), (''schema'', JObj [(''type'', JStr ''integer'')])]])])])])])"
  by (simp add: generate_tool_from_operation_def tool_parts_def tool_name_def tool_description_def
      extract_parameters_def extract_parameter_def plain_property_def extract_body_def
      make_tool_def lower_def lower_char_def key_eq_def)

text \<open>
  C7 (amended). Let an operation declare a request body whose content has a first entry. If
  the tool is built and that entry is a non-empty mapping, \<open>body\<close> is in the required list of
  the input schema, whatever the \<^verbatim>\<open>required\<close> flag of the request body says. If the entry is
  empty the builder adds nothing for the body: the lists are those of the parameters alone
  and the document is untouched.
\<close>

theorem body_required_for_nonempty_entry:
  assumes "get_path spec [''paths'', p, lower m] = Some (JObj op)"
    and "map_of op ''requestBody'' = Some (JObj rb)"
    and "map_of rb ''content'' = Some (JObj ((mt, node) # rest))"
    and "generate_tool_from_operation L depth sh spec p m pre = (Inr tool, spec')"
  shows "(truthy node \<longrightarrow> JStr ''body'' \<in> set (input_schema.required (inputSchema tool))) \<and>
         (\<not> truthy node \<longrightarrow>
            spec' = spec \<and>
            extract_parameters L depth spec (JObj op) [] [] =
              Inr (properties (inputSchema tool), input_schema.required (inputSchema tool)))"
proof -
  have "op \<noteq> []" using assms(2) by auto
  note parts = tool_parts_found [OF assms(1) this, of L depth sh pre]
  obtain nm desc schema where
    tp: "tool_parts L depth sh spec p m pre = Inr (spec', nm, desc, schema)"
    and mk: "make_tool nm desc schema = Inr tool"
    using generate_tool_Inr [OF assms(4)] by blast
  from tp [unfolded parts] obtain params b where
    ps: "extract_parameters L depth spec (JObj op) [] [] = Inr params"
    and eb: "extract_body L sh spec [''paths'', p, lower m] (fst params) (snd params) = Inr b"
    and res: "spec' = fst b" "schema = \<lparr>properties = fst (snd b), required = snd (snd b)\<rparr>"
    by (auto simp: ebind_eq_Inr)
  show ?thesis
    using extract_body_entry [OF assms(1,2,3) eb] ps res make_tool_Inr [OF mk] by auto
qed

lemmas build_defs = generate_tool_from_operation_def tool_parts_def tool_name_def
  tool_description_def extract_parameters_def extract_body_def make_tool_def lower_def
  lower_char_def annotate_body_def store_description_def write_object_def unshared_def
  iadd_str_def example_suffix_def plain_lib_def key_eq_def

lemma order_build:
  "generate_tool_from_operation plain_lib 8 unshared (order_doc d) ''/orders'' ''post'' None =
     (Inr order_tool,
      order_doc (d @ '' Body Content-Type: application/json Example: <json>''))"
  by (simp add: build_defs order_doc_def order_entry_def order_tool_def)

theorem body_required_for_nonempty_entry_witness:
  "generate_tool_from_operation plain_lib 8 unshared (order_doc ''Payload.'') ''/orders'' ''post'' None =
     (Inr order_tool,
      order_doc ''Payload. Body Content-Type: application/json Example: <json>'') \<and>
   JStr ''body'' \<in> set (input_schema.required (inputSchema order_tool)) \<and>
   generate_tool_from_operation plain_lib 8 unshared upload_doc ''/upload'' ''post'' None =
     (Inr upload_tool, upload_doc) \<and>
   extract_parameters plain_lib 8 upload_doc
     (JObj [(''operationId'', JStr ''upload''),
            (''requestBody'', JObj [(''required'', JBool True),
               (''content'', JObj [(''application/octet-stream'', JObj [])])])]) [] [] =
     Inr (properties (inputSchema upload_tool), input_schema.required (inputSchema upload_tool))"
proof -
  have build: "generate_tool_from_operation plain_lib 8 unshared (order_doc ''Payload.'') ''/orders'' ''post'' None =
     (Inr order_tool,
      order_doc ''Payload. Body Content-Type: application/json Example: <json>'')"
    using order_build [of "''Payload.''"] by simp
  have "JStr ''body'' \<in> set (input_schema.required (inputSchema order_tool))"
    using body_required_for_nonempty_entry [where spec = "order_doc ''Payload.''"
        and p = "''/orders''" and m = "''post''" and mt = "''application/json''"
        and node = "order_entry ''Payload.''" and rest = "[]" and L = plain_lib and depth = 8
        and sh = unshared and pre = None and tool = order_tool
        and spec' = "order_doc ''Payload. Body Content-Type: application/json Example: <json>''"
        and rb = "[(''required'', JBool False),
           (''content'', JObj [(''application/json'', order_entry ''Payload.'')])]"
        and op = "[(''operationId'', JStr ''createOrder''),
        (''requestBody'', JObj [(''required'', JBool False),
           (''content'', JObj [(''application/json'', order_entry ''Payload.'')])])]"]
      build
    by (simp add: order_doc_def lower_def lower_char_def order_entry_def)
  have build_u: "generate_tool_from_operation plain_lib 8 unshared upload_doc ''/upload'' ''post'' None =
     (Inr upload_tool, upload_doc)"
    by (simp add: build_defs upload_doc_def upload_tool_def)
  have "extract_parameters plain_lib 8 upload_doc
     (JObj [(''operationId'', JStr ''upload''),
            (''requestBody'', JObj [(''required'', JBool True),
               (''content'', JObj [(''application/octet-stream'', JObj [])])])]) [] [] =
     Inr (properties (inputSchema upload_tool), input_schema.required (inputSchema upload_tool))"
    using body_required_for_nonempty_entry [where spec = upload_doc
        and p = "''/upload''" and m = "''post''" and mt = "''application/octet-stream''"
        and node = "JObj []" and rest = "[]" and L = plain_lib and depth = 8
        and sh = unshared and pre = None and tool = upload_tool and spec' = upload_doc
        and rb = "[(''required'', JBool True),
               (''content'', JObj [(''application/octet-stream'', JObj [])])]"
        and op = "[(''operationId'', JStr ''upload''),
            (''requestBody'', JObj [(''required'', JBool True),
               (''content'', JObj [(''application/octet-stream'', JObj [])])])]"]
      build_u
    by (simp add: upload_doc_def lower_def lower_char_def)
  with \<open>JStr ''body'' \<in> set (input_schema.required (inputSchema order_tool))\<close> build build_u
  show ?thesis by simp
qed

text \<open>A request body whose only content entry is empty, though marked required.\<close>

theorem body_not_required_counterexample:
  "generate_tool_from_operation plain_lib 8 unshared
     (JObj [(''paths'', JObj [(''/upload'', JObj [(''post'', JObj [
        (''operationId'', JStr ''upload''),
        (''requestBody'', JObj [(''required'', JBool True),
           (''content'', JObj [(''application/octet-stream'', JObj [])])])])])])])
     ''/upload'' ''post'' None =
   (Inr \<lparr>name = ''upload'', description = [],
         inputSchema = \<lparr>properties = [], required = []\<rparr>\<rparr>,
    JObj [(''paths'', JObj [(''/upload'', JObj [(''post'', JObj [
        (''operationId'', JStr ''upload''),
        (''requestBody'', JObj [(''required'', JBool True),
           (''content'', JObj [(''application/octet-stream'', JObj [])])])])])])])"
  by (simp add: generate_tool_from_operation_def tool_parts_def tool_name_def tool_description_def
      extract_parameters_def extract_body_def make_tool_def lower_def lower_char_def)



subsection \<open>Writes into the document\<close>

lemma iadd_str_twice:
  "ebind (iadd_str x a) (\<lambda>y. iadd_str y b) = iadd_str x (a @ b)"
  by (cases x) (simp_all add: iadd_str_def)

lemma annotate_body_annotation:
  "annotate_body kvs mt (map_option (dumps L) (map_of kvs ''example'')) =
     iadd_str (case map_of kvs ''description'' of Some d \<Rightarrow> d | None \<Rightarrow> JStr [])
       (annotation L mt kvs)"
  by (simp add: annotate_body_def annotation_def iadd_str_twice)

lemma iadd_str_differs: "iadd_str x a = Inr y \<Longrightarrow> a \<noteq> [] \<Longrightarrow> y \<noteq> x"
  by (cases x) (auto simp: iadd_str_def)

lemma annotation_nonempty: "annotation L mt kvs \<noteq> []"
  by (simp add: annotation_def)

lemma set_at_keeps_path:
  "get_path s r \<noteq> None \<Longrightarrow> \<not> leads_to pos (map Key r) \<Longrightarrow> get_path (set_at s pos v) r \<noteq> None"
proof (induction r arbitrary: s pos)
  case Nil
  then show ?case by simp
next
  case (Cons k r)
  then obtain kvs child where s: "s = JObj kvs" "map_of kvs k = Some child"
    "get_path child r \<noteq> None"
    by (auto split: json.splits option.splits)
  show ?case
  proof (cases pos)
    case Nil
    then show ?thesis using Cons.prems by simp
  next
    case (Cons x pos')
    show ?thesis
    proof (cases x)
      case (Key k')
      show ?thesis
      proof (cases "k' = k")
        case True
        then have "\<not> leads_to pos' (map Key r)" using Cons.prems(2) Cons Key by simp
        from Cons.IH [OF s(3) this] show ?thesis
          using s Cons Key True by (simp add: update_conv')
      next
        case False
        then show ?thesis using s Cons Key
          by (simp add: update_conv' split: option.splits)
      qed
    next
      case (Index i)
      then show ?thesis using s Cons by simp
    qed
  qed
qed

lemma set_at_first_entry:
  "get_path s c = Some (JObj ((mt, e) # rest)) \<Longrightarrow> \<not> leads_to pos (map Key (c @ [mt])) \<Longrightarrow>
   \<exists>e' rest'. get_path (set_at s pos v) c = Some (JObj ((mt, e') # rest'))"
proof (induction c arbitrary: s pos)
  case Nil
  then have s: "s = JObj ((mt, e) # rest)" by simp
  show ?case
  proof (cases pos)
    case Nil
    then show ?thesis using Nil.prems by simp
  next
    case (Cons x pos')
    show ?thesis
    proof (cases x)
      case (Key k')
      then show ?thesis using s Cons by (auto split: option.splits)
    next
      case (Index i)
      then show ?thesis using s Cons by simp
    qed
  qed
next
  case (Cons k c)
  then obtain kvs child where s: "s = JObj kvs" "map_of kvs k = Some child"
    "get_path child c = Some (JObj ((mt, e) # rest))"
    by (auto split: json.splits option.splits)
  show ?case
  proof (cases pos)
    case Nil
    then show ?thesis using Cons.prems by simp
  next
    case pos: (Cons x pos')
    show ?thesis
    proof (cases x)
      case (Key k')
      show ?thesis
      proof (cases "k' = k")
        case True
        then have "\<not> leads_to pos' (map Key (c @ [mt]))" using Cons.prems(2) pos Key by simp
        from Cons.IH [OF s(3) this] show ?thesis
          using s pos Key True by (simp add: update_conv')
      next
        case False
        then show ?thesis using s pos Key
          by (simp add: update_conv' split: option.splits)
      qed
    next
      case (Index i)
      then show ?thesis using s pos by simp
    qed
  qed
qed

lemma leads_to_append: "leads_to pos r \<Longrightarrow> leads_to pos (r @ q)"
  by (induction pos r rule: leads_to.induct) auto

lemma foldl_keeps_path:
  "get_path s r \<noteq> None \<Longrightarrow>
   get_path (foldl (\<lambda>doc pos. if leads_to pos (map Key r) then doc else set_at doc pos v) s ps) r
     \<noteq> None"
proof (induction ps arbitrary: s)
  case Nil
  then show ?case by simp
next
  case (Cons pos ps)
  show ?case
  proof (cases "leads_to pos (map Key r)")
    case True
    then show ?thesis using Cons.IH [OF Cons.prems] by simp
  next
    case False
    from Cons.IH [OF set_at_keeps_path [OF Cons.prems False, of v]] show ?thesis
      using False by simp
  qed
qed

lemma foldl_first_entry:
  "get_path s c = Some (JObj ((mt, e) # rest)) \<Longrightarrow>
   \<exists>e' rest'. get_path
      (foldl (\<lambda>doc pos. if leads_to pos (map Key ((c @ [mt]) @ q)) then doc else set_at doc pos v)
         s ps) c = Some (JObj ((mt, e') # rest'))"
proof (induction ps arbitrary: s e rest)
  case Nil
  then show ?case by simp
next
  case (Cons pos ps)
  show ?case
  proof (cases "leads_to pos (map Key ((c @ [mt]) @ q))")
    case True
    then show ?thesis using Cons.IH [OF Cons.prems] by simp
  next
    case False
    then have "\<not> leads_to pos (map Key (c @ [mt]))"
      using leads_to_append [of pos "map Key (c @ [mt])" "map Key q"] by auto
    from set_at_first_entry [OF Cons.prems this, of v] obtain e' rest' where
      "get_path (set_at s pos v) c = Some (JObj ((mt, e') # rest'))" by blast
    from Cons.IH [OF this] show ?thesis using False by simp
  qed
qed

lemma write_object_read:
  "get_path s r \<noteq> None \<Longrightarrow> get_path (write_object sh s r v) r = Some v"
  unfolding write_object_def by (intro get_set_path foldl_keeps_path)

lemma write_object_first_entry:
  assumes "get_path s c = Some (JObj ((mt, e) # rest))"
  shows "\<exists>e' rest'. get_path (write_object sh s ((c @ [mt]) @ q) v) c =
           Some (JObj ((mt, e') # rest'))"
proof -
  define t where "t = foldl (\<lambda>doc pos. if leads_to pos (map Key ((c @ [mt]) @ q)) then doc
                                         else set_at doc pos v) s (sh ((c @ [mt]) @ q))"
  obtain e' rest' where t: "get_path t c = Some (JObj ((mt, e') # rest'))"
    unfolding t_def using foldl_first_entry [OF assms] by blast
  have "set_path t (c @ (mt # q)) v = set_path t c (set_path (JObj ((mt, e') # rest')) (mt # q) v)"
    by (rule set_path_append [OF t])
  then have "get_path (set_path t (c @ (mt # q)) v) c =
      Some (JObj ((mt, set_path e' q v) # rest'))"
    using t by (simp add: get_set_path)
  then show ?thesis by (auto simp: write_object_def t_def)
qed


lemma content_read:
  "get_path spec (op_ref @ [''requestBody'', ''content'']) = Some content \<longleftrightarrow>
     (\<exists>op rb. get_path spec op_ref = Some (JObj op) \<and> map_of op ''requestBody'' = Some (JObj rb) \<and>
        map_of rb ''content'' = Some content)"
proof -
  have "op_ref @ [''requestBody'', ''content''] = (op_ref @ [''requestBody'']) @ [''content'']"
    by simp
  then show ?thesis by (simp only: get_path_last) blast
qed

lemma first_entry_read:
  assumes "get_path spec c = Some (JObj ((mt, e) # rest))"
  shows "get_path spec (c @ [mt] @ q) = get_path e q"
  using assms by (simp add: get_path_append)

lemma build_effect:
  assumes content: "get_path spec ([''paths'', p, lower m] @ [''requestBody'', ''content'']) =
                      Some (JObj ((mt, JObj kvs) # rest))"
    and nonempty: "kvs \<noteq> []"
    and build: "generate_tool_from_operation L depth sh spec p m pre = (Inr tool, spec')"
  shows "\<exists>d node rest'.
     iadd_str (case map_of kvs ''description'' of Some x \<Rightarrow> x | None \<Rightarrow> JStr [])
       (annotation L mt kvs) = Inr d \<and>
     get_path spec' ([''paths'', p, lower m] @ [''requestBody'', ''content'']) =
       Some (JObj ((mt, JObj node) # rest')) \<and>
     map_of node ''description'' = Some d \<and>
     ((\<forall>xs. map_of kvs ''description'' \<noteq> Some (JArr xs)) \<longrightarrow>
        node = AList.update ''description'' d kvs) \<and>
     dict_find (properties (inputSchema tool)) (JStr ''body'') =
       Some (Shared [''paths'', p, lower m, ''requestBody'', ''content'', mt])"
proof -
  let ?c = "[''paths'', p, lower m] @ [''requestBody'', ''content'']"
  let ?ref = "[''paths'', p, lower m, ''requestBody'', ''content'', mt]"
  have ref: "?ref = (?c @ [mt]) @ []" and refd: "?ref @ [''description''] = (?c @ [mt]) @ [''description'']"
    by simp_all
  obtain op rb where op: "get_path spec [''paths'', p, lower m] = Some (JObj op)"
    and rb: "map_of op ''requestBody'' = Some (JObj rb)"
    and ct: "map_of rb ''content'' = Some (JObj ((mt, JObj kvs) # rest))"
    using content unfolding content_read by blast
  obtain d params where
    an: "annotate_body kvs mt (map_option (dumps L) (map_of kvs ''example'')) = Inr d"
    and s1: "spec' = store_description sh spec ?ref kvs d"
    and sch: "inputSchema tool =
       \<lparr>properties = dict_set (JStr ''body'') (Shared ?ref) (fst params),
        required = snd params @ [JStr ''body'']\<rparr>"
    using generate_tool_body_effect [OF op rb ct nonempty build] by blast
  have d: "iadd_str (case map_of kvs ''description'' of Some x \<Rightarrow> x | None \<Rightarrow> JStr [])
       (annotation L mt kvs) = Inr d"
    using an by (simp add: annotate_body_annotation)
  have at_ref: "get_path spec (?c @ [mt] @ q) = get_path (JObj kvs) q" for q
    by (rule first_entry_read [OF content])
  have shared: "dict_find (properties (inputSchema tool)) (JStr ''body'') = Some (Shared ?ref)"
    using sch by (simp add: dict_find_dict_set)
  show ?thesis
  proof (cases "\<exists>xs. map_of kvs ''description'' = Some (JArr xs)")
    case True
    then obtain xs where xs: "map_of kvs ''description'' = Some (JArr xs)" by blast
    have w: "spec' = write_object sh spec ((?c @ [mt]) @ [''description'']) d"
      using s1 xs by (simp add: store_description_def)
    have "get_path spec ((?c @ [mt]) @ [''description'']) \<noteq> None"
      using at_ref [of "[''description'']"] xs by simp
    then have rd: "get_path spec' ((?c @ [mt]) @ [''description'']) = Some d"
      unfolding w by (rule write_object_read)
    obtain e' rest' where fe: "get_path spec' ?c = Some (JObj ((mt, e') # rest'))"
      unfolding w using write_object_first_entry [OF content] by blast
    have "get_path e' [''description''] = Some d"
      using first_entry_read [OF fe, of "[''description'']"] rd by simp
    then obtain node where "e' = JObj node" "map_of node ''description'' = Some d"
      by (auto split: json.splits option.splits)
    then show ?thesis using d fe shared xs by auto
  next
    case False
    then have w: "spec' = write_object sh spec ((?c @ [mt]) @ [])
                            (JObj (AList.update ''description'' d kvs))"
      using s1 by (auto simp: store_description_def split: option.splits json.splits)
    have "get_path spec ((?c @ [mt]) @ []) \<noteq> None"
      using at_ref [of "[]"] by simp
    then have rd: "get_path spec' ((?c @ [mt]) @ []) = Some (JObj (AList.update ''description'' d kvs))"
      unfolding w by (rule write_object_read)
    obtain e' rest' where fe: "get_path spec' ?c = Some (JObj ((mt, e') # rest'))"
      unfolding w using write_object_first_entry [OF content] by blast
    have "e' = JObj (AList.update ''description'' d kvs)"
      using first_entry_read [OF fe, of "[]"] rd by simp
    then show ?thesis using d fe shared by (auto simp: update_conv')
  qed
qed

text \<open>
  A write into an object shows at each of its other positions, when the positions of the
  object are apart from one another as those of an anchor and its aliases are.
\<close>

lemma set_at_keys: "set_at obj (map Key ks) new = set_path obj ks new"
  by (induction ks arbitrary: obj) (auto split: json.splits option.splits)

lemma get_at_keys: "get_at obj (map Key ks) = get_path obj ks"
  by (induction ks arbitrary: obj) (auto split: json.splits option.splits)

lemma get_at_set_at_same:
  "get_at s pos \<noteq> None \<Longrightarrow> get_at (set_at s pos v) pos = Some v"
proof (induction s pos v rule: set_at.induct)
  case (1 obj new)
  then show ?case by simp
next
  case (2 obj k rest new)
  then show ?case by (auto split: json.splits option.splits simp: update_conv')
next
  case (3 obj i rest new)
  then show ?case by (auto split: json.splits if_splits)
qed

lemma get_at_set_at_apart:
  "apart q pos \<Longrightarrow> get_at (set_at s q v) pos = get_at s pos"
proof (induction s q v arbitrary: pos rule: set_at.induct)
  case (1 obj new)
  then show ?case by (simp add: apart_def)
next
  case (2 obj k rest new)
  show ?case
  proof (cases pos)
    case Nil
    then show ?thesis using 2 by (simp add: apart_def)
  next
    case (Cons y pos')
    show ?thesis
    proof (cases "y = Key k")
      case True
      with 2 Cons have a: "apart rest pos'" by (simp add: apart_def)
      show ?thesis
      proof (cases obj)
        case (JObj kvs)
        show ?thesis
        proof (cases "map_of kvs k")
          case None
          then show ?thesis using JObj by simp
        next
          case (Some child)
          from "2.IH" [OF JObj Some a] show ?thesis
            using JObj Some Cons True by (simp add: update_conv')
        qed
      qed simp_all
    next
      case False
      then show ?thesis using Cons
        by (cases y) (auto split: json.splits option.splits simp: update_conv')
    qed
  qed
next
  case (3 obj i rest new)
  show ?case
  proof (cases pos)
    case Nil
    then show ?thesis using 3 by (simp add: apart_def)
  next
    case (Cons y pos')
    show ?thesis
    proof (cases "y = Index i")
      case True
      with 3 Cons have a: "apart rest pos'" by (simp add: apart_def)
      show ?thesis
      proof (cases obj)
        case (JArr xs)
        show ?thesis
        proof (cases "i < length xs")
          case False
          then show ?thesis using JArr by simp
        next
          case inb: True
          from "3.IH" [OF JArr inb a] show ?thesis
            using JArr inb Cons True by simp
        qed
      qed simp_all
    next
      case False
      then show ?thesis using Cons
        by (cases y) (auto split: json.splits option.splits)
    qed
  qed
qed

lemma foldl_shows_new:
  assumes "\<forall>q \<in> set ps. q \<noteq> pos \<longrightarrow> apart q pos" and "\<not> leads_to pos r"
    and "get_at s pos \<noteq> None" and "pos \<in> set ps \<or> get_at s pos = Some v"
  shows "get_at (foldl (\<lambda>doc q. if leads_to q r then doc else set_at doc q v) s ps) pos = Some v"
  using assms
proof (induction ps arbitrary: s)
  case Nil
  then show ?case by simp
next
  case (Cons q ps)
  let ?s = "if leads_to q r then s else set_at s q v"
  have rest: "\<forall>q \<in> set ps. q \<noteq> pos \<longrightarrow> apart q pos" using Cons.prems(1) by simp
  show ?case
  proof (cases "q = pos")
    case True
    then have "get_at ?s pos = Some v"
      using Cons.prems(2,3) by (simp add: get_at_set_at_same)
    then have "get_at ?s pos \<noteq> None" "pos \<in> set ps \<or> get_at ?s pos = Some v" by simp_all
    from Cons.IH [OF rest Cons.prems(2) this] show ?thesis by simp
  next
    case False
    then have "apart q pos" using Cons.prems(1) by simp
    then have "get_at ?s pos = get_at s pos" by (simp add: get_at_set_at_apart)
    then have "get_at ?s pos \<noteq> None" "pos \<in> set ps \<or> get_at ?s pos = Some v"
      using Cons.prems(3,4) False by auto
    from Cons.IH [OF rest Cons.prems(2) this] show ?thesis by simp
  qed
qed

lemma write_object_everywhere:
  assumes "pos \<in> set (sh ref)" and "get_at spec pos \<noteq> None"
    and "apart (map Key ref) pos"
    and "\<forall>q \<in> set (sh ref). q \<noteq> pos \<longrightarrow> apart q pos"
  shows "get_at (write_object sh spec ref new) pos = Some new"
proof -
  have "\<not> leads_to pos (map Key ref)" using assms(3) by (simp add: apart_def)
  from foldl_shows_new [OF assms(4) this assms(2)] assms(1)
  have "get_at (foldl (\<lambda>doc q. if leads_to q (map Key ref) then doc else set_at doc q new)
                  spec (sh ref)) pos = Some new"
    by simp
  then show ?thesis
    unfolding write_object_def set_at_keys [symmetric]
    by (simp add: get_at_set_at_apart [OF assms(3)])
qed

text \<open>
  C9 (amended). Let an operation declare a request body whose first content entry is a
  non-empty mapping. A successful build changes the document: the description of the entry,
  the empty string when it has none, is extended by the annotation (the content type and the
  example). The \<open>body\<close> property of the tool is the reference to that entry of the document,
  not a copy, so it reads the entry as the document has it. A second successful build of the
  same operation extends the description again, by the annotation of the entry as the first
  build left it, and that is what the \<open>body\<close> property of the first tool then reads. When
  the description is not a list the first build leaves the other fields of the entry as they
  were, so the same annotation is appended twice.
\<close>

theorem build_writes_into_document:
  assumes op: "get_path spec [''paths'', p, lower m] = Some (JObj op)"
    and rb: "map_of op ''requestBody'' = Some (JObj rb)"
    and content: "map_of rb ''content'' = Some (JObj ((mt, JObj kvs) # rest))"
    and nonempty: "kvs \<noteq> []"
    and ref: "ref = [''paths'', p, lower m, ''requestBody'', ''content'', mt]"
    and old: "old = (case map_of kvs ''description'' of Some x \<Rightarrow> x | None \<Rightarrow> JStr [])"
    and build: "generate_tool_from_operation L depth sh spec p m pre = (Inr tool, spec')"
  shows "\<exists>node d.
     spec' \<noteq> spec \<and>
     get_path spec' ref = Some (JObj node) \<and>
     iadd_str old (annotation L mt kvs) = Inr d \<and>
     map_of node ''description'' = Some d \<and>
     dict_find (properties (inputSchema tool)) (JStr ''body'') = Some (Shared ref) \<and>
     prop_value spec' (Shared ref) = Some (JObj node) \<and>
     ((\<forall>xs. old \<noteq> JArr xs) \<longrightarrow>
        node = AList.update ''description'' d kvs \<and>
        annotation L mt node = annotation L mt kvs) \<and>
     (\<forall>tool' spec''.
        generate_tool_from_operation L depth sh spec' p m pre = (Inr tool', spec'') \<longrightarrow>
        (\<exists>node' d'.
           get_path spec'' ref = Some (JObj node') \<and>
           iadd_str d (annotation L mt node) = Inr d' \<and>
           map_of node' ''description'' = Some d' \<and>
           prop_value spec'' (Shared ref) = Some (JObj node')))"
proof -
  let ?c = "[''paths'', p, lower m] @ [''requestBody'', ''content'']"
  have ref': "ref = ?c @ [mt] @ []" using ref by simp
  have c: "get_path spec ?c = Some (JObj ((mt, JObj kvs) # rest))"
    unfolding content_read using op rb content by blast
  obtain d node rest' where
    d: "iadd_str old (annotation L mt kvs) = Inr d"
    and c': "get_path spec' ?c = Some (JObj ((mt, JObj node) # rest'))"
    and nd: "map_of node ''description'' = Some d"
    and same: "(\<forall>xs. map_of kvs ''description'' \<noteq> Some (JArr xs)) \<longrightarrow>
        node = AList.update ''description'' d kvs"
    and shared: "dict_find (properties (inputSchema tool)) (JStr ''body'') = Some (Shared ref)"
    using build_effect [OF c nonempty build] old ref by blast
  have at: "get_path spec ref = Some (JObj kvs)"
    unfolding ref' using first_entry_read [OF c, of "[]"] by simp
  have at': "get_path spec' ref = Some (JObj node)"
    unfolding ref' using first_entry_read [OF c', of "[]"] by simp
  have "d \<noteq> old" using iadd_str_differs [OF d annotation_nonempty] .
  then have "node \<noteq> kvs" using nd old d by (auto simp: iadd_str_def split: option.splits)
  then have changed: "spec' \<noteq> spec" using at at' by auto
  have plain: "node = AList.update ''description'' d kvs \<and>
        annotation L mt node = annotation L mt kvs" if "\<forall>xs. old \<noteq> JArr xs"
  proof -
    have "\<forall>xs. map_of kvs ''description'' \<noteq> Some (JArr xs)"
      using that old by auto
    then have "node = AList.update ''description'' d kvs" using same by blast
    then show ?thesis by (simp add: annotation_def update_conv')
  qed
  have again: "\<exists>node' d'.
           get_path spec'' ref = Some (JObj node') \<and>
           iadd_str d (annotation L mt node) = Inr d' \<and>
           map_of node' ''description'' = Some d' \<and>
           prop_value spec'' (Shared ref) = Some (JObj node')"
    if build': "generate_tool_from_operation L depth sh spec' p m pre = (Inr tool', spec'')"
    for tool' spec''
  proof -
    have ne: "node \<noteq> []" using nd by auto
    obtain d' node' rest'' where
      d': "iadd_str (case map_of node ''description'' of Some x \<Rightarrow> x | None \<Rightarrow> JStr [])
             (annotation L mt node) = Inr d'"
      and c'': "get_path spec'' ?c = Some (JObj ((mt, JObj node') # rest''))"
      and nd': "map_of node' ''description'' = Some d'"
      using build_effect [OF c' ne build'] by blast
    have "get_path spec'' ref = Some (JObj node')"
      unfolding ref' using first_entry_read [OF c'', of "[]"] by simp
    then show ?thesis using d' nd nd' by (simp add: prop_value_def)
  qed
  show ?thesis
    using changed at' d nd shared plain again by (auto simp: prop_value_def)
qed

lemma twin_build:
  "generate_tool_from_operation plain_lib 8 twin_sharing (twin_doc d) ''/a'' ''post'' None =
     (Inr twin_tool,
      twin_doc (d @ '' Body Content-Type: application/json Example: <json>''))"
  by (simp add: build_defs twin_doc_def twin_sharing_def order_entry_def twin_tool_def)

theorem build_writes_into_document_witness:
  "generate_tool_from_operation plain_lib 8 twin_sharing (twin_doc ''Payload.'') ''/a'' ''post'' None =
     (Inr twin_tool,
      twin_doc ''Payload. Body Content-Type: application/json Example: <json>'') \<and>
   twin_doc ''Payload. Body Content-Type: application/json Example: <json>'' \<noteq>
     twin_doc ''Payload.'' \<and>
   dict_find (properties (inputSchema twin_tool)) (JStr ''body'') =
     Some (Shared [''paths'', ''/a'', ''post'', ''requestBody'', ''content'', ''application/json'']) \<and>
   generate_tool_from_operation plain_lib 8 twin_sharing
      (twin_doc ''Payload. Body Content-Type: application/json Example: <json>'')
      ''/a'' ''post'' None =
     (Inr twin_tool,
      twin_doc (''Payload. Body Content-Type: application/json Example: <json>'' @
                '' Body Content-Type: application/json Example: <json>'')) \<and>
   (\<exists>node. prop_value
      (twin_doc (''Payload. Body Content-Type: application/json Example: <json>'' @
                 '' Body Content-Type: application/json Example: <json>''))
      (Shared [''paths'', ''/a'', ''post'', ''requestBody'', ''content'', ''application/json'']) =
        Some (JObj node) \<and>
      map_of node ''description'' =
        Some (JStr (''Payload. Body Content-Type: application/json Example: <json>'' @
                    '' Body Content-Type: application/json Example: <json>'')))"
proof -
  let ?d1 = "''Payload. Body Content-Type: application/json Example: <json>''"
  let ?a = "'' Body Content-Type: application/json Example: <json>''"
  let ?ref = "[''paths'', ''/a'', ''post'', ''requestBody'', ''content'', ''application/json'']"
  let ?kvs = "[(''schema'', JObj [(''type'', JStr ''object'')]),
           (''example'', JObj [(''a'', JInt 1)]),
           (''description'', JStr ''Payload.'')]"
  have build1: "generate_tool_from_operation plain_lib 8 twin_sharing (twin_doc ''Payload.'') ''/a'' ''post'' None =
     (Inr twin_tool, twin_doc ?d1)"
    using twin_build [of "''Payload.''"] by simp
  have build2: "generate_tool_from_operation plain_lib 8 twin_sharing (twin_doc ?d1) ''/a'' ''post'' None =
     (Inr twin_tool, twin_doc (?d1 @ ?a))"
    by (rule twin_build)
  have a: "annotation plain_lib ''application/json'' ?kvs = ?a"
    by (simp add: annotation_def example_suffix_def plain_lib_def)
  let ?rb = "[(''content'', JObj [(''application/json'', JObj ?kvs)])]"
  let ?op = "[(''operationId'', JStr ''createA''), (''requestBody'', JObj ?rb)]"
  have op: "get_path (twin_doc ''Payload.'') [''paths'', ''/a'', lower ''post''] = Some (JObj ?op)"
    by (simp add: twin_doc_def lower_def lower_char_def order_entry_def)
  have rb: "map_of ?op ''requestBody'' = Some (JObj ?rb)"
    by simp
  have content: "map_of ?rb ''content'' = Some (JObj ((''application/json'', JObj ?kvs) # []))"
    by simp
  have nonempty: "?kvs \<noteq> []"
    by simp
  have ref: "?ref = [''paths'', ''/a'', lower ''post'', ''requestBody'', ''content'', ''application/json'']"
    by (simp add: lower_def lower_char_def)
  have old: "JStr ''Payload.'' = (case map_of ?kvs ''description'' of Some x \<Rightarrow> x | None \<Rightarrow> JStr [])"
    by simp
  from build_writes_into_document [OF op rb content nonempty ref old build1]
  obtain node d where
    h: "twin_doc ?d1 \<noteq> twin_doc ''Payload.''"
       "iadd_str (JStr ''Payload.'') (annotation plain_lib ''application/json'' ?kvs) = Inr d"
       "dict_find (properties (inputSchema twin_tool)) (JStr ''body'') = Some (Shared ?ref)"
       "(\<forall>xs. JStr ''Payload.'' \<noteq> JArr xs) \<longrightarrow>
          annotation plain_lib ''application/json'' node =
          annotation plain_lib ''application/json'' ?kvs"
       "\<forall>tool' spec''.
          generate_tool_from_operation plain_lib 8 twin_sharing (twin_doc ?d1) ''/a'' ''post'' None =
            (Inr tool', spec'') \<longrightarrow>
          (\<exists>node' d'.
             get_path spec'' ?ref = Some (JObj node') \<and>
             iadd_str d (annotation plain_lib ''application/json'' node) = Inr d' \<and>
             map_of node' ''description'' = Some d' \<and>
             prop_value spec'' (Shared ?ref) = Some (JObj node'))"
    by blast
  have d: "d = JStr ?d1" using h(2) a by (simp add: iadd_str_def)
  have a': "annotation plain_lib ''application/json'' node = ?a" using h(4) a by simp
  from h(5) build2 obtain node' d' where
    h': "iadd_str d (annotation plain_lib ''application/json'' node) = Inr d'"
        "map_of node' ''description'' = Some d'"
        "prop_value (twin_doc (?d1 @ ?a)) (Shared ?ref) = Some (JObj node')"
    by blast
  have "d' = JStr (?d1 @ ?a)" using h'(1) d a' by (simp add: iadd_str_def)
  then have "\<exists>node. prop_value (twin_doc (?d1 @ ?a)) (Shared ?ref) = Some (JObj node) \<and>
      map_of node ''description'' = Some (JStr (?d1 @ ?a))"
    using h'(2,3) by blast
  then show ?thesis using build1 build2 h(1,3) by blast
qed


text \<open>With an empty first content entry the build returns the document as it was.\<close>

theorem build_leaves_document_counterexample:
  "snd (generate_tool_from_operation plain_lib 8 unshared
     (JObj [(''paths'', JObj [(''/ping'', JObj [(''put'', JObj [
        (''summary'', JStr ''Ping''),
        (''requestBody'', JObj [(''content'', JObj [(''text/plain'', JObj [])])])])])])])
     ''/ping'' ''put'' (Some ''svc'')) =
    JObj [(''paths'', JObj [(''/ping'', JObj [(''put'', JObj [
        (''summary'', JStr ''Ping''),
        (''requestBody'', JObj [(''content'', JObj [(''text/plain'', JObj [])])])])])])] \<and>
   fst (generate_tool_from_operation plain_lib 8 unshared
     (JObj [(''paths'', JObj [(''/ping'', JObj [(''put'', JObj [
        (''summary'', JStr ''Ping''),
        (''requestBody'', JObj [(''content'', JObj [(''text/plain'', JObj [])])])])])])])
     ''/ping'' ''put'' (Some ''svc'')) =
    Inr \<lparr>name = ''svc:put__ping'', description = ''Ping'',
         inputSchema = \<lparr>properties = [], required = []\<rparr>\<rparr>"
  by (simp add: generate_tool_from_operation_def tool_parts_def tool_name_def tool_description_def
      extract_parameters_def extract_body_def make_tool_def lower_def lower_char_def
      replace.simps strip_def lstrip_def rstrip_def startswith_def py_str_def)



subsection \<open>The dispatcher\<close>

lemma find_first:
  assumes "\<exists>r \<in> set xs. P r"
  shows "\<exists>before x after. xs = before @ x # after \<and> P x \<and> (\<forall>r \<in> set before. \<not> P r) \<and>
           find P xs = Some x"
  using assms
proof (induction xs)
  case Nil
  then show ?case by simp
next
  case (Cons a xs)
  show ?case
  proof (cases "P a")
    case True
    then have "a # xs = [] @ a # xs \<and> P a \<and> (\<forall>r \<in> set []. \<not> P r) \<and> find P (a # xs) = Some a"
      by simp
    then show ?thesis by blast
  next
    case False
    with Cons.prems have "\<exists>r \<in> set xs. P r" by auto
    from Cons.IH [OF this] obtain before x after where
      h: "xs = before @ x # after" "P x" "\<forall>r \<in> set before. \<not> P r" "find P xs = Some x"
      by blast
    have "a # xs = (a # before) @ x # after \<and> P x \<and> (\<forall>r \<in> set (a # before). \<not> P r) \<and>
        find P (a # xs) = Some x"
      using h False by simp
    then show ?thesis by blast
  qed
qed

text \<open>
  C2. For a registered tool, if some name of its required list is not a key of the arguments,
  the dispatch fails with the message \<^verbatim>\<open>Missing required argument: x\<close>, where \<open>x\<close> is the first
  such name in the order of the list: every name before it is a key of the arguments and no
  later name is reported. The world is returned as it was, whatever the collaborators are: no
  request has been handed to the transport and no file has been opened.
\<close>

theorem missing_required_argument:
  assumes "tools st tname = Some tool" and "registry st tname = Some meta"
    and "\<exists>req \<in> set (input_schema.required (inputSchema tool)). \<not> key_in req arguments"
  shows "\<exists>before x after.
     input_schema.required (inputSchema tool) = before @ x # after \<and>
     \<not> key_in x arguments \<and>
     (\<forall>req \<in> set before. key_in req arguments) \<and>
     call_tool S L st tname arguments w =
       (Inl (ValueError (''Missing required argument: '' @ py_str L x)), w)"
proof -
  obtain before x after where
    h: "input_schema.required (inputSchema tool) = before @ x # after"
       "\<not> key_in x arguments" "\<forall>req \<in> set before. \<not> \<not> key_in req arguments"
       "find (\<lambda>req. \<not> key_in req arguments) (input_schema.required (inputSchema tool)) = Some x"
    using find_first [OF assms(3)] by blast
  have "call_tool S L st tname arguments w =
       (Inl (ValueError (''Missing required argument: '' @ py_str L x)), w)"
    using assms(1,2) h(4) by (simp add: call_tool_def first_missing_def)
  with h show ?thesis by blast
qed



lemmas sample_defs = sample_caller_def register_def new_caller_def item_tool_def item_meta_def
  mail_tool_def mail_meta_def sample_services_def basic_credentials_def bearer_credentials_def
  only_file_def no_guess_def answer_def idle_def plain_lib_def

lemmas dispatch_defs = call_tool_def first_missing_def key_in_def key_eq_def create_headers_def get_auth_header_def
  dict_merge_def encode_body_def or_none_def close_files_def read_response_def
  lower_def lower_char_def rstrip_def py_str_def replace.simps startswith_def
  isabs_def path_join_def basename_def

theorem missing_required_argument_witness:
  "call_tool (sample_services \<lparr>status_code = 200, resp_text = ''ok'', json_value = None\<rparr>)
     plain_lib sample_caller ''svc:updateItem'' [(''body'', JObj [])] idle =
   (Inl (ValueError ''Missing required argument: id''), idle)"
proof -
  let ?S = "sample_services \<lparr>status_code = 200, resp_text = ''ok'', json_value = None\<rparr>"
  have t: "tools sample_caller ''svc:updateItem'' = Some item_tool"
    and r: "registry sample_caller ''svc:updateItem'' = Some item_meta"
    by (simp_all add: sample_defs)
  have miss: "\<exists>req \<in> set (input_schema.required (inputSchema item_tool)).
      \<not> key_in req [(''body'', JObj [])]"
    by (simp add: item_tool_def key_in_def)
  from missing_required_argument [OF t r miss, of ?S plain_lib idle]
  obtain before x after where
    h: "input_schema.required (inputSchema item_tool) = before @ x # after"
       "\<not> key_in x [(''body'', JObj [])]"
       "call_tool ?S plain_lib sample_caller ''svc:updateItem'' [(''body'', JObj [])] idle =
          (Inl (ValueError (''Missing required argument: '' @ py_str plain_lib x)), idle)"
    by blast
  have "x \<in> set (input_schema.required (inputSchema item_tool))"
    using h(1) by simp
  then have "x = JStr ''id''" using h(2) by (auto simp: item_tool_def key_in_def split: if_splits)
  then show ?thesis using h(3) by (simp add: py_str_def)
qed


text \<open>
  C1. The caller passes the header \<^verbatim>\<open>Content-Type: text/plain\<close> to a tool whose declared media
  type is \<^verbatim>\<open>application/json\<close>. The request that reaches the transport carries the derived
  value, not the caller's: \<^verbatim>\<open>create_headers\<close> stores the derived header over the headers of
  the caller, against its own comment that user headers take precedence.
\<close>

theorem caller_content_type_is_overridden:
  "call_tool (sample_services \<lparr>status_code = 200, resp_text = ''ok'', json_value = None\<rparr>)
     plain_lib sample_caller ''svc:updateItem''
     [(''id'', JStr ''7''), (''Content-Type'', JStr ''text/plain''),
      (''body'', JObj [(''n'', JInt 1)])] idle =
   (Inr (JStr ''ok''),
    \<lparr>opened = [], next_handle = 0,
     sent = [\<lparr>req_method = ''PUT'', url = ''https://api.example.com/items/7'', params = None,
              headers = [(''Authorization'', JStr ''Bearer t0ken''),
                         (''Content-Type'', JStr ''application/json'')],
              json_body = Some (JObj [(''n'', JInt 1)]), data = None, files = []\<rparr>]\<rparr>)"
  by (simp add: sample_defs dispatch_defs)

text \<open>
  C3. A multipart dispatch with the attachments \<^verbatim>\<open>a.txt\<close>, which opens, and \<^verbatim>\<open>missing.txt\<close>,
  which does not: the dispatch ends with \<^verbatim>\<open>ValueError\<close> while the handle of the first file is
  still open. The files are opened before the \<^verbatim>\<open>try\<close> block whose \<^verbatim>\<open>finally\<close> clause closes them.
\<close>

theorem attachment_left_open:
  "call_tool (sample_services \<lparr>status_code = 200, resp_text = ''ok'', json_value = None\<rparr>)
     plain_lib sample_caller ''svc:sendMail''
     [(''body'', JObj [(''to'', JStr ''a@b''),
                       (''attachment'', JArr [JStr ''a.txt'', JStr ''missing.txt''])])] idle =
   (Inl (ValueError ''Failed to open attachment file: /work/missing.txt''),
    \<lparr>opened = [0], next_handle = 1, sent = []\<rparr>)"
  by (simp add: sample_defs dispatch_defs)



lemma map_of_dict_merge: "map_of (dict_merge a b) = map_of a ++ map_of (rev b)"
proof (induction b arbitrary: a)
  case Nil
  then show ?case by (simp add: dict_merge_def)
next
  case (Cons x b)
  have "dict_merge a (x # b) = dict_merge (AList.update (fst x) (snd x) a) b"
    by (simp add: dict_merge_def)
  then show ?case
    by (cases x) (simp add: Cons.IH update_conv' map_add_upd_left fun_eq_iff map_add_def
        split: option.splits)
qed

lemma dict_merge_distinct:
  "distinct (map fst a) \<Longrightarrow> distinct (map fst (dict_merge a b))"
  by (induction b arbitrary: a) (simp_all add: dict_merge_def distinct_update)

lemma dict_merge_nonempty: "b \<noteq> [] \<Longrightarrow> dict_merge a b \<noteq> []"
proof (induction b arbitrary: a rule: rev_induct)
  case Nil
  then show ?case by simp
next
  case (snoc x b)
  have "dict_merge a (b @ [x]) = AList.update (fst x) (snd x) (dict_merge a b)"
    by (simp add: dict_merge_def)
  then show ?case by (cases "dict_merge a b") auto
qed

lemma map_of_rev_distinct: "distinct (map fst xs) \<Longrightarrow> map_of (rev xs) = map_of xs"
  by (subst map_of_inject_set) (simp_all add: rev_map [symmetric])

lemma create_headers_precedence:
  assumes "distinct (map fst hs)"
    and "get_auth_header S (OperationMeta.auth_type meta) (OperationMeta.service_name meta) = Inr auth_header"
  shows "\<exists>h. create_headers S meta hs = Inr h \<and>
     (\<forall>k. map_of h k =
        (if k = ''Content-Type'' then Some (conten_media_type meta)
         else (case map_of hs k of Some v \<Rightarrow> Some v | None \<Rightarrow> map_of auth_header k)))"
proof -
  let ?hs' = "dict_merge hs [(''Content-Type'', conten_media_type meta)]"
  have ne: "?hs' \<noteq> []" by (rule dict_merge_nonempty) simp
  have d: "distinct (map fst ?hs')" using assms(1) by (rule dict_merge_distinct)
  have r: "map_of (rev ?hs') = map_of ?hs'"
    using d by (rule map_of_rev_distinct)
  have eq: "create_headers S meta hs = Inr (dict_merge auth_header ?hs')"
    using assms(2) ne by (simp add: create_headers_def Let_def)
  have "map_of (dict_merge auth_header ?hs') k =
        (if k = ''Content-Type'' then Some (conten_media_type meta)
         else (case map_of hs k of Some v \<Rightarrow> Some v | None \<Rightarrow> map_of auth_header k))" for k
    by (simp add: map_of_dict_merge [of auth_header] r)
       (simp add: map_of_dict_merge [of hs] map_add_def split: option.splits)
  with eq show ?thesis by blast
qed


lemma open_attachments_effect:
  "open_attachments S as fs w = (r, w') \<Longrightarrow>
   sent w' = sent w \<and>
   (\<exists>hs. opened w' = opened w @ hs \<and> (\<forall>h \<in> set hs. next_handle w \<le> h) \<and>
      (\<forall>fs'. r = Inr fs' \<longrightarrow>
         map (\<lambda>f. fst (snd (snd f))) fs' = map (\<lambda>f. fst (snd (snd f))) fs @ hs))"
proof (induction as arbitrary: fs w)
  case Nil
  then show ?case by auto
next
  case (Cons a as)
  show ?case
  proof (cases a)
    case (JStr file_path)
    let ?resolved = "if isabs file_path then file_path else path_join (getcwd S) file_path"
    show ?thesis
    proof (cases "can_open S ?resolved")
      case True
      let ?w1 = "w\<lparr>opened := opened w @ [next_handle w], next_handle := Suc (next_handle w)\<rparr>"
      obtain fs1 where
        step: "open_attachments S as fs1 ?w1 = (r, w')"
        and fs1: "map (\<lambda>f. fst (snd (snd f))) fs1 = map (\<lambda>f. fst (snd (snd f))) fs @ [next_handle w]"
        using Cons.prems JStr True by (auto simp: Let_def)
      from Cons.IH [OF step] obtain hs where
        h: "sent w' = sent ?w1" "opened w' = opened ?w1 @ hs"
           "\<forall>h \<in> set hs. next_handle ?w1 \<le> h"
           "\<forall>fs'. r = Inr fs' \<longrightarrow>
              map (\<lambda>f. fst (snd (snd f))) fs' = map (\<lambda>f. fst (snd (snd f))) fs1 @ hs"
        by blast
      have "opened w' = opened w @ (next_handle w # hs)" using h(2) by simp
      moreover have "\<forall>h \<in> set (next_handle w # hs). next_handle w \<le> h"
        using h(3) by auto
      moreover have "\<forall>fs'. r = Inr fs' \<longrightarrow>
         map (\<lambda>f. fst (snd (snd f))) fs' = map (\<lambda>f. fst (snd (snd f))) fs @ (next_handle w # hs)"
        using h(4) fs1 by simp
      moreover have "sent w' = sent w" using h(1) by simp
      ultimately show ?thesis by blast
    next
      case False
      then show ?thesis using Cons.prems JStr by (auto simp: Let_def)
    qed
  qed (use Cons.prems in auto)
qed

lemma encode_body_effect:
  assumes "encode_body S ct rb kw w = (r, w')" and "files kw = []"
  shows "sent w' = sent w \<and>
   (\<exists>hs. opened w' = opened w @ hs \<and> (\<forall>h \<in> set hs. next_handle w \<le> h) \<and>
      (\<forall>kw'. r = Inr kw' \<longrightarrow> map (\<lambda>f. fst (snd (snd f))) (files kw') = hs))"
  using assms
  by (auto simp: encode_body_def split: if_splits sum.splits prod.splits
      dest!: open_attachments_effect)


lemma call_tool_outcome:
  "sent (snd (call_tool S L st tname arguments w)) = sent w \<or>
   (\<exists>kw hs. sent (snd (call_tool S L st tname arguments w)) = sent w @ [kw] \<and>
      fst (call_tool S L st tname arguments w) =
        (case transport S kw of Inl e \<Rightarrow> Inl e | Inr resp \<Rightarrow> read_response resp) \<and>
      (\<forall>h \<in> set hs. next_handle w \<le> h) \<and>
      opened (snd (call_tool S L st tname arguments w)) =
        filter (\<lambda>h. h \<notin> set hs) (opened w @ hs))"
proof (cases "tools st tname")
  case None
  then show ?thesis by (simp add: call_tool_def)
next
  case (Some tool)
  note tool = this
  show ?thesis
  proof (cases "registry st tname")
    case None
    then show ?thesis using tool by (simp add: call_tool_def)
  next
    case (Some meta)
    note meta = this
    show ?thesis
    proof (cases "first_missing (input_schema.required (inputSchema tool)) arguments")
      case (Some req)
      then show ?thesis using tool meta by (simp add: call_tool_def)
    next
      case None
      note present = this
      show ?thesis
      proof (cases "tool_base_urls st tname")
        case None
        then show ?thesis using tool meta present by (simp add: call_tool_def)
      next
        case (Some base)
        note base = this
        show ?thesis
        proof (cases "base = []")
          case True
          then show ?thesis using tool meta present base by (simp add: call_tool_def)
        next
          case False
          note nonempty = this
          define ps where "ps = partition_arguments (param_locations meta) arguments
              \<lparr>path_params = [], query_params = [], header_params = [], body_params = []\<rparr>"
          show ?thesis
          proof (cases "create_headers S meta (header_params ps)")
            case (Inl e)
            then show ?thesis
              using tool meta present base nonempty
              by (simp add: call_tool_def Let_def ps_def)
          next
            case (Inr req_headers)
            note hdrs = this
            show ?thesis
            proof (cases "conten_media_type meta")
              case (JStr mt)
              define kw0 where "kw0 =
                \<lparr>req_method = http_method meta,
                 url = substitute L (path_params ps) (rstrip ''/'' base @ OperationMeta.path meta),
                 params = (if query_params ps \<noteq> [] then Some (query_params ps) else None),
                 headers = req_headers, json_body = None, data = None, files = []\<rparr>"
              define rb where "rb = (case map_of arguments ''body'' of
                                         Some b \<Rightarrow> b | None \<Rightarrow> JObj (body_params ps))"
              define ct where "ct = (if lower mt = [] then ''application/json'' else lower mt)"
              obtain r w' where enc: "encode_body S ct rb kw0 w = (r, w')"
                by (cases "encode_body S ct rb kw0 w")
              have f0: "files kw0 = []" by (simp add: kw0_def)
              from encode_body_effect [OF enc f0] obtain hs where
                e: "sent w' = sent w" "opened w' = opened w @ hs"
                   "\<forall>h \<in> set hs. next_handle w \<le> h"
                   "\<forall>kw'. r = Inr kw' \<longrightarrow> map (\<lambda>f. fst (snd (snd f))) (files kw') = hs"
                by blast
              have ct: "call_tool S L st tname arguments w =
                 (case r of
                    Inl e \<Rightarrow> (Inl e, w')
                  | Inr kw \<Rightarrow>
                      (case transport S kw of
                         Inl e \<Rightarrow> (Inl e, close_files (files kw) (w'\<lparr>sent := sent w' @ [kw]\<rparr>))
                       | Inr resp \<Rightarrow>
                           (read_response resp,
                            close_files (files kw) (w'\<lparr>sent := sent w' @ [kw]\<rparr>))))"
                using tool meta present base nonempty hdrs JStr enc
                by (simp add: call_tool_def Let_def ps_def [symmetric] kw0_def [symmetric]
                    rb_def [symmetric] ct_def [symmetric])
              show ?thesis
              proof (cases r)
                case (Inl err)
                then show ?thesis using ct e(1) by simp
              next
                case (Inr kw)
                have hs: "set (map (\<lambda>f. fst (snd (snd f))) (files kw)) = set hs"
                  using e(4) Inr by simp
                have "sent (snd (call_tool S L st tname arguments w)) = sent w @ [kw] \<and>
                  fst (call_tool S L st tname arguments w) =
                    (case transport S kw of Inl e \<Rightarrow> Inl e | Inr resp \<Rightarrow> read_response resp) \<and>
                  opened (snd (call_tool S L st tname arguments w)) =
                    filter (\<lambda>h. h \<notin> set hs) (opened w @ hs)"
                  using ct Inr e(1,2) hs
                  by (cases "transport S kw") (simp_all add: close_files_def)
                then show ?thesis using e(3) by blast
              qed
            qed (use tool meta present base nonempty hdrs in
                  \<open>simp_all add: call_tool_def Let_def ps_def\<close>)
          qed
        qed
      qed
    qed
  qed
qed

lemma files_closed_once_sent:
  assumes "sent (snd (call_tool S L st tname arguments w)) \<noteq> sent w"
    and "\<forall>h \<in> set (opened w). h < next_handle w"
  shows "opened (snd (call_tool S L st tname arguments w)) = opened w"
proof -
  from call_tool_outcome [of S L st tname arguments w] assms(1) obtain kw hs where
    h: "\<forall>h \<in> set hs. next_handle w \<le> h"
       "opened (snd (call_tool S L st tname arguments w)) =
          filter (\<lambda>h. h \<notin> set hs) (opened w @ hs)"
    by blast
  have "filter (\<lambda>h. h \<notin> set hs) (opened w) = opened w"
    using h(1) assms(2) by (fastforce simp: filter_id_conv)
  then show ?thesis using h(2) by simp
qed

text \<open>
  C8 (amended). For a dispatch that hands a request to the transport and gets a response: a
  status from 400 to 599 makes the dispatch fail with the HTTP error that carries the status
  and the text of the response; with any other status the dispatch returns the JSON value of
  the response when the body parses, and the text of the response when it does not. So a
  body that is not JSON never makes the dispatch fail.
\<close>

theorem response_handling:
  assumes "sent (snd (call_tool S L st tname arguments w)) = sent w @ [kw]"
    and "transport S kw = Inr resp"
  shows "fst (call_tool S L st tname arguments w) =
     (if 400 \<le> status_code resp \<and> status_code resp < 600
      then Inl (HTTPError (status_code resp) (resp_text resp))
      else (case json_value resp of
              Some v \<Rightarrow> Inr v
            | None \<Rightarrow> Inr (JStr (resp_text resp))))"
proof -
  from call_tool_outcome [of S L st tname arguments w] assms(1) obtain kw' where
    h: "sent (snd (call_tool S L st tname arguments w)) = sent w @ [kw']"
       "fst (call_tool S L st tname arguments w) =
        (case transport S kw' of Inl e \<Rightarrow> Inl e | Inr resp \<Rightarrow> read_response resp)"
    by auto
  have "kw' = kw" using h(1) assms(1) by simp
  then show ?thesis using h(2) assms(2) by (simp add: read_response_def)
qed


lemma sample_request:
  "snd (call_tool (sample_services r) plain_lib sample_caller ''svc:updateItem''
     [(''id'', JStr ''7''), (''body'', JObj [(''n'', JInt 1)])] idle) =
   \<lparr>opened = [], next_handle = 0,
     sent = [\<lparr>req_method = ''PUT'', url = ''https://api.example.com/items/7'', params = None,
              headers = [(''Authorization'', JStr ''Bearer t0ken''),
                         (''Content-Type'', JStr ''application/json'')],
              json_body = Some (JObj [(''n'', JInt 1)]), data = None, files = []\<rparr>]\<rparr>"
  by (simp add: sample_defs dispatch_defs split: sum.splits)

theorem response_handling_witness:
  "fst (call_tool (sample_services \<lparr>status_code = 404, resp_text = ''not found'', json_value = None\<rparr>)
     plain_lib sample_caller ''svc:updateItem''
     [(''id'', JStr ''7''), (''body'', JObj [(''n'', JInt 1)])] idle) =
     Inl (HTTPError 404 ''not found'') \<and>
   fst (call_tool (sample_services \<lparr>status_code = 200, resp_text = ''[1, 2]'',
                                     json_value = Some (JArr [JInt 1, JInt 2])\<rparr>)
     plain_lib sample_caller ''svc:updateItem''
     [(''id'', JStr ''7''), (''body'', JObj [(''n'', JInt 1)])] idle) =
     Inr (JArr [JInt 1, JInt 2]) \<and>
   fst (call_tool (sample_services \<lparr>status_code = 200, resp_text = ''done'', json_value = None\<rparr>)
     plain_lib sample_caller ''svc:updateItem''
     [(''id'', JStr ''7''), (''body'', JObj [(''n'', JInt 1)])] idle) =
     Inr (JStr ''done'')"
proof -
  let ?kw = "\<lparr>req_method = ''PUT'', url = ''https://api.example.com/items/7'', params = None,
              headers = [(''Authorization'', JStr ''Bearer t0ken''),
                         (''Content-Type'', JStr ''application/json'')],
              json_body = Some (JObj [(''n'', JInt 1)]), data = None, files = []\<rparr>"
  have s: "sent (snd (call_tool (sample_services r) plain_lib sample_caller ''svc:updateItem''
     [(''id'', JStr ''7''), (''body'', JObj [(''n'', JInt 1)])] idle)) = sent idle @ [?kw]" for r
    using sample_request [of r] by (simp add: idle_def)
  have t: "transport (sample_services r) ?kw = Inr r" for r
    by (simp add: sample_services_def answer_def)
  show ?thesis
    using response_handling [OF s [of "\<lparr>status_code = 404, resp_text = ''not found'', json_value = None\<rparr>"]
                                 t [of "\<lparr>status_code = 404, resp_text = ''not found'', json_value = None\<rparr>"]]
      response_handling [OF s [of "\<lparr>status_code = 200, resp_text = ''[1, 2]'',
                                     json_value = Some (JArr [JInt 1, JInt 2])\<rparr>"]
                            t [of "\<lparr>status_code = 200, resp_text = ''[1, 2]'',
                                     json_value = Some (JArr [JInt 1, JInt 2])\<rparr>"]]
      response_handling [OF s [of "\<lparr>status_code = 200, resp_text = ''done'', json_value = None\<rparr>"]
                            t [of "\<lparr>status_code = 200, resp_text = ''done'', json_value = None\<rparr>"]]
    by simp
qed

text \<open>The statuses 103 and 600 are outside 200 to 399, and the dispatch returns the text.\<close>

theorem unraised_status_counterexample:
  "call_tool (sample_services \<lparr>status_code = 103, resp_text = ''hint'', json_value = None\<rparr>)
     plain_lib sample_caller ''svc:updateItem''
     [(''id'', JStr ''7''), (''body'', JObj [(''n'', JInt 1)])] idle =
   (Inr (JStr ''hint''),
    \<lparr>opened = [], next_handle = 0,
     sent = [\<lparr>req_method = ''PUT'', url = ''https://api.example.com/items/7'', params = None,
              headers = [(''Authorization'', JStr ''Bearer t0ken''),
                         (''Content-Type'', JStr ''application/json'')],
              json_body = Some (JObj [(''n'', JInt 1)]), data = None, files = []\<rparr>]\<rparr>) \<and>
   call_tool (sample_services \<lparr>status_code = 600, resp_text = ''odd'', json_value = None\<rparr>)
     plain_lib sample_caller ''svc:updateItem''
     [(''id'', JStr ''7''), (''body'', JObj [(''n'', JInt 1)])] idle =
   (Inr (JStr ''odd''),
    \<lparr>opened = [], next_handle = 0,
     sent = [\<lparr>req_method = ''PUT'', url = ''https://api.example.com/items/7'', params = None,
              headers = [(''Authorization'', JStr ''Bearer t0ken''),
                         (''Content-Type'', JStr ''application/json'')],
              json_body = Some (JObj [(''n'', JInt 1)]), data = None, files = []\<rparr>]\<rparr>)"
  by (simp add: sample_defs dispatch_defs)



subsection \<open>The registry\<close>

lemmas registry_defs = add_tools_from_spec_def add_operation_def passes_filters_def key_eq_def
  patterns_of_def match_any_def http_verbs_def operation_meta_def register_def new_caller_def
  generate_tool_from_operation_def tool_parts_def tool_name_def tool_description_def
  extract_parameters_def extract_body_def make_tool_def lower_def lower_char_def
  upper_def upper_char_def py_str_def plain_lib_def

lemma include_C:
  "\<exists>st d. add_tools_from_spec plain_lib 8 unshared new_caller tagged_doc 0
       (test_binding\<lparr>include_tags := Some [''C'']\<rparr>) ''https://dummy.api'' = Inr (st, d) \<and>
     dom (tools st) = {''test:postBar'', ''test:getBaz''}"
  by (simp add: registry_defs tagged_doc_def test_binding_def insert_commute)

lemma exclude_B:
  "\<exists>st d. add_tools_from_spec plain_lib 8 unshared new_caller tagged_doc 0
       (test_binding\<lparr>exclude_tags := Some [''B'']\<rparr>) ''https://dummy.api'' = Inr (st, d) \<and>
     dom (tools st) = {''test:getBaz''}"
  by (simp add: registry_defs tagged_doc_def test_binding_def insert_commute)

lemma match_path_iff: "match_path p pats \<longleftrightarrow> (\<exists>pat \<in> set pats. fnmatch p pat)"
  by (induction pats) auto

lemma match_vals_strings:
  "match_vals (map JStr ts) pat = Inr (\<exists>t \<in> set ts. fnmatch t pat)"
  by (induction ts) auto

lemma match_any_loop_strings:
  "match_any_loop (JArr (map JStr ts)) pats =
     Inr (\<exists>pat \<in> set pats. \<exists>t \<in> set ts. fnmatch t pat)"
  by (induction pats) (auto simp: match_vals_strings)

lemma match_any_strings:
  "match_any (JArr (map JStr ts)) pats = Inr (\<exists>t \<in> set ts. \<exists>pat \<in> set pats. fnmatch t pat)"
proof -
  have "(\<exists>pat \<in> set pats. \<exists>t \<in> set ts. fnmatch t pat) =
        (\<exists>t \<in> set ts. \<exists>pat \<in> set pats. fnmatch t pat)"
    by blast
  then show ?thesis
    by (cases "ts = []") (auto simp: match_any_def match_any_loop_strings)
qed

lemma passes_filters_strings:
  "passes_filters b p (JArr (map JStr ts)) =
     Inr ((patterns_of (include_paths b) = [] \<or>
             (\<exists>pat \<in> set (patterns_of (include_paths b)). fnmatch p pat)) \<and>
          \<not> (\<exists>pat \<in> set (patterns_of (exclude_paths b)). fnmatch p pat) \<and>
          (patterns_of (include_tags b) = [] \<or>
             (\<exists>t \<in> set ts. \<exists>pat \<in> set (patterns_of (include_tags b)). fnmatch t pat)) \<and>
          \<not> (\<exists>t \<in> set ts. \<exists>pat \<in> set (patterns_of (exclude_tags b)). fnmatch t pat))"
  by (auto simp: passes_filters_def match_path_iff match_any_strings)

lemma path_filters_first:
  assumes "patterns_of (include_paths b) \<noteq> [] \<and>
             \<not> (\<exists>pat \<in> set (patterns_of (include_paths b)). fnmatch p pat) \<or>
           (\<exists>pat \<in> set (patterns_of (exclude_paths b)). fnmatch p pat)"
  shows "passes_filters b p op_tags = Inr False"
  using assms by (auto simp: passes_filters_def match_path_iff)


lemma operation_read:
  assumes "get_path spec [''paths'', p, m] = Some operation"
  shows "\<exists>item. get_path spec [''paths'', p] = Some (JObj item) \<and>
           py_getitem (JObj item) m = Inr operation"
proof -
  have "get_path spec ([''paths'', p] @ [m]) = Some operation" using assms by simp
  then obtain kvs where "get_path spec [''paths'', p] = Some (JObj kvs)" "map_of kvs m = Some operation"
    unfolding get_path_last by blast
  then show ?thesis by auto
qed

lemma add_operation_other_key:
  "lower m \<notin> set http_verbs \<Longrightarrow> add_operation L depth sh b base spec_id s p (JStr m) = Inr s"
  by (simp add: add_operation_def)

lemma add_operation_filtered:
  assumes "lower m \<in> set http_verbs"
    and "get_path (snd s) [''paths'', p, m] = Some operation"
    and "py_get operation ''tags'' (JArr []) = Inr op_tags"
    and "passes_filters b p op_tags = Inr False"
  shows "add_operation L depth sh b base spec_id s p (JStr m) = Inr s"
proof -
  obtain item where "get_path (snd s) [''paths'', p] = Some (JObj item)"
    "py_getitem (JObj item) m = Inr operation"
    using operation_read [OF assms(2)] by blast
  then show ?thesis using assms(1,3,4) by (simp add: add_operation_def)
qed

lemma add_operation_kept:
  assumes "lower m \<in> set http_verbs"
    and "get_path (snd s) [''paths'', p, m] = Some operation"
    and "py_get operation ''tags'' (JArr []) = Inr op_tags"
    and "passes_filters b p op_tags = Inr True"
    and "generate_tool_from_operation L depth sh (snd s) p m (prefix b) = (Inr tool, spec')"
    and "add_operation L depth sh b base spec_id s p (JStr m) = Inr s'"
  shows "\<exists>meta. s' = (register (fst s) tool meta base spec_id, spec') \<and>
           http_method meta = upper m \<and> OperationMeta.path meta = p \<and>
           OperationMeta.required meta = input_schema.required (inputSchema tool)"
proof -
  obtain item where "get_path (snd s) [''paths'', p] = Some (JObj item)"
    "py_getitem (JObj item) m = Inr operation"
    using operation_read [OF assms(2)] by blast
  then show ?thesis
    using assms(1,3,4,5,6)
    by (auto simp: add_operation_def operation_meta_def ebind_eq_Inr
        split: option.splits if_splits list.splits)
qed

lemma add_operation_steps:
  assumes "add_operation L depth sh b base spec_id s p key = Inr s'"
  shows "fst s' = fst s \<or>
         (\<exists>tool meta m. key = JStr m \<and> lower m \<in> set http_verbs \<and>
            fst s' = register (fst s) tool meta base spec_id)"
  using assms
  by (auto simp: add_operation_def ebind_eq_Inr
      split: json.splits option.splits if_splits prod.splits sum.splits) blast

lemma register_consistent:
  "consistent st \<Longrightarrow> u \<noteq> [] \<Longrightarrow> consistent (register st tool meta u spec_id)"
  by (auto simp: consistent_def register_def)

lemma register_grows: "dom (tools st) \<subseteq> dom (tools (register st tool meta u spec_id))"
  by (auto simp: register_def)

lemma add_operation_consistent:
  assumes "add_operation L depth sh b base spec_id s p key = Inr s'"
    and "consistent (fst s)" and "base \<noteq> []"
  shows "consistent (fst s') \<and> dom (tools (fst s)) \<subseteq> dom (tools (fst s'))"
proof -
  from add_operation_steps [OF assms(1)] show ?thesis
  proof
    assume "fst s' = fst s"
    then show ?thesis using assms(2) by simp
  next
    assume "\<exists>tool meta m. key = JStr m \<and> lower m \<in> set http_verbs \<and>
            fst s' = register (fst s) tool meta base spec_id"
    then obtain tool meta where r: "fst s' = register (fst s) tool meta base spec_id"
      by blast
    show ?thesis
      unfolding r using register_consistent [OF assms(2,3)] register_grows by blast
  qed
qed

lemma loop_methods_consistent:
  assumes "loop_methods L depth sh b base spec_id s p keys = Inr s'"
    and "consistent (fst s)" and "base \<noteq> []"
  shows "consistent (fst s') \<and> dom (tools (fst s)) \<subseteq> dom (tools (fst s'))"
  using assms
proof (induction keys arbitrary: s)
  case Nil
  then show ?case by simp
next
  case (Cons key keys)
  from Cons.prems(1) obtain s1 where
    one: "add_operation L depth sh b base spec_id s p key = Inr s1"
    and rest: "loop_methods L depth sh b base spec_id s1 p keys = Inr s'"
    by (auto simp: ebind_eq_Inr)
  from add_operation_consistent [OF one Cons.prems(2,3)]
  have c1: "consistent (fst s1)" and g1: "dom (tools (fst s)) \<subseteq> dom (tools (fst s1))"
    by simp_all
  from Cons.IH [OF rest c1 Cons.prems(3)] g1 show ?case by blast
qed

lemma loop_paths_consistent:
  assumes "loop_paths L depth sh b base spec_id s entries = Inr s'"
    and "consistent (fst s)" and "base \<noteq> []"
  shows "consistent (fst s') \<and> dom (tools (fst s)) \<subseteq> dom (tools (fst s'))"
  using assms
proof (induction entries arbitrary: s)
  case Nil
  then show ?case by simp
next
  case (Cons entry entries)
  obtain p path_item where entry: "entry = (p, path_item)" by (cases entry)
  from Cons.prems(1) obtain keys s1 where
    one: "loop_methods L depth sh b base spec_id s p keys = Inr s1"
    and rest: "loop_paths L depth sh b base spec_id s1 entries = Inr s'"
    unfolding entry by (auto simp: ebind_eq_Inr)
  from loop_methods_consistent [OF one Cons.prems(2,3)]
  have c1: "consistent (fst s1)" and g1: "dom (tools (fst s)) \<subseteq> dom (tools (fst s1))"
    by simp_all
  from Cons.IH [OF rest c1 Cons.prems(3)] g1 show ?case by blast
qed

lemma add_tools_from_spec_consistent:
  assumes "add_tools_from_spec L depth sh st spec spec_id b base = Inr s'"
    and "consistent st" and "base \<noteq> []"
  shows "consistent (fst s') \<and> dom (tools st) \<subseteq> dom (tools (fst s'))"
proof -
  from assms(1) obtain entries where
    "loop_paths L depth sh b base spec_id (st, spec) entries = Inr s'"
    by (auto simp: add_tools_from_spec_def ebind_eq_Inr)
  from loop_paths_consistent [OF this] assms(2,3) show ?thesis by simp
qed

lemma init_loop_consistent:
  assumes "init_loop E L depth st specs = Inr st'" and "consistent st"
  shows "consistent st'"
  using assms
proof (induction specs arbitrary: st)
  case Nil
  then show ?case by simp
next
  case (Cons spec_obj specs)
  show ?case
  proof (cases "load_openapi_spec E (file_location spec_obj)")
    case (Inl e)
    then show ?thesis using Cons by simp
  next
    case (Inr loaded)
    show ?thesis
    proof (cases "effective_base_url E spec_obj = []")
      case True
      then show ?thesis using Cons Inr by simp
    next
      case False
      from Cons.prems(1) Inr False obtain s1 where
        one: "add_tools_from_spec L depth (snd loaded) st (fst loaded) (length (documents st))
                spec_obj (effective_base_url E spec_obj) = Inr s1"
        and rest: "init_loop E L depth ((fst s1)\<lparr>documents := documents (fst s1) @ [snd s1]\<rparr>) specs = Inr st'"
        by (auto simp: ebind_eq_Inr)
      have "consistent (fst s1)"
        using add_tools_from_spec_consistent [OF one Cons.prems(2) False] by simp
      then have "consistent ((fst s1)\<lparr>documents := documents (fst s1) @ [snd s1]\<rparr>)"
        by (simp add: consistent_def)
      from Cons.IH [OF rest this] show ?thesis .
    qed
  qed
qed

lemma new_caller_consistent: "consistent new_caller"
  by (simp add: consistent_def new_caller_def)


lemma add_operation_grows:
  assumes "add_operation L depth sh b base spec_id s p key = Inr s'"
  shows "dom (tools (fst s)) \<subseteq> dom (tools (fst s'))"
  using add_operation_steps [OF assms] register_grows by fastforce

lemma loop_methods_grows:
  "loop_methods L depth sh b base spec_id s p keys = Inr s' \<Longrightarrow>
   dom (tools (fst s)) \<subseteq> dom (tools (fst s'))"
proof (induction keys arbitrary: s)
  case Nil
  then show ?case by simp
next
  case (Cons key keys)
  from Cons.prems obtain sa where
    one: "add_operation L depth sh b base spec_id s p key = Inr sa"
    and rest: "loop_methods L depth sh b base spec_id sa p keys = Inr s'"
    by (auto simp: ebind_eq_Inr)
  from add_operation_grows [OF one] Cons.IH [OF rest] show ?case by blast
qed

lemma loop_paths_grows:
  "loop_paths L depth sh b base spec_id s entries = Inr s' \<Longrightarrow>
   dom (tools (fst s)) \<subseteq> dom (tools (fst s'))"
proof (induction entries arbitrary: s)
  case Nil
  then show ?case by simp
next
  case (Cons entry entries)
  obtain p path_item where entry: "entry = (p, path_item)" by (cases entry)
  from Cons.prems obtain keys sa where
    one: "loop_methods L depth sh b base spec_id s p keys = Inr sa"
    and rest: "loop_paths L depth sh b base spec_id sa entries = Inr s'"
    unfolding entry by (auto simp: ebind_eq_Inr)
  from loop_methods_grows [OF one] Cons.IH [OF rest] show ?case by blast
qed

lemma init_loop_grows:
  "init_loop E L depth st specs = Inr st' \<Longrightarrow> dom (tools st) \<subseteq> dom (tools st')"
proof (induction specs arbitrary: st)
  case Nil
  then show ?case by simp
next
  case (Cons spec_obj specs)
  show ?case
  proof (cases "load_openapi_spec E (file_location spec_obj)")
    case (Inl e)
    then show ?thesis using Cons by simp
  next
    case (Inr loaded)
    show ?thesis
    proof (cases "effective_base_url E spec_obj = []")
      case True
      then show ?thesis using Cons Inr by simp
    next
      case False
      from Cons.prems Inr False obtain sa where
        one: "add_tools_from_spec L depth (snd loaded) st (fst loaded) (length (documents st))
                spec_obj (effective_base_url E spec_obj) = Inr sa"
        and rest: "init_loop E L depth ((fst sa)\<lparr>documents := documents (fst sa) @ [snd sa]\<rparr>) specs = Inr st'"
        by (auto simp: ebind_eq_Inr)
      from one obtain entries where
        "loop_paths L depth (snd loaded) spec_obj (effective_base_url E spec_obj)
           (length (documents st)) (st, fst loaded) entries = Inr sa"
        by (auto simp: add_tools_from_spec_def ebind_eq_Inr)
      from loop_paths_grows [OF this] have "dom (tools st) \<subseteq> dom (tools (fst sa))" by simp
      moreover from Cons.IH [OF rest] have "dom (tools (fst sa)) \<subseteq> dom (tools st')" by simp
      ultimately show ?thesis by blast
    qed
  qed
qed

text \<open>
  C10. When the construction of a caller over any list of configuration entries succeeds,
  the four dicts (tools, operation metadata, base URLs, owning documents) have the same set
  of keys. So every registered name has a tool, metadata, a base URL and a document, and its
  base URL is not empty: the test \<^verbatim>\<open>if not base_url\<close> of the dispatcher is never true for a
  registered name.
\<close>

theorem registry_maps_agree:
  assumes "init E L depth openapi_specs = Inr st"
  shows "dom (registry st) = dom (tools st) \<and>
         dom (tool_base_urls st) = dom (tools st) \<and>
         dom (tool_specs st) = dom (tools st) \<and>
         (\<forall>tname \<in> dom (tools st).
            \<exists>tool meta u i.
              tools st tname = Some tool \<and> registry st tname = Some meta \<and>
              tool_base_urls st tname = Some u \<and> u \<noteq> [] \<and> tool_specs st tname = Some i)"
proof -
  have c: "consistent st"
    using assms init_loop_consistent [OF _ new_caller_consistent] by (simp add: init_def)
  then have d: "dom (registry st) = dom (tools st)" "dom (tool_base_urls st) = dom (tools st)"
    "dom (tool_specs st) = dom (tools st)"
    and u: "\<And>tname u. tool_base_urls st tname = Some u \<Longrightarrow> u \<noteq> []"
    by (simp_all add: consistent_def)
  have "\<exists>tool meta u i.
          tools st tname = Some tool \<and> registry st tname = Some meta \<and>
          tool_base_urls st tname = Some u \<and> u \<noteq> [] \<and> tool_specs st tname = Some i"
    if "tname \<in> dom (tools st)" for tname
  proof -
    from that d have "tname \<in> dom (registry st)" "tname \<in> dom (tool_base_urls st)"
      "tname \<in> dom (tool_specs st)" by simp_all
    with that obtain tool meta v i where
      "tools st tname = Some tool" "registry st tname = Some meta"
      "tool_base_urls st tname = Some v" "tool_specs st tname = Some i"
      by blast
    with u [of tname v] show ?thesis by blast
  qed
  with d show ?thesis by blast
qed


lemmas init_defs = init_def effective_base_url_def sample_loader_def load_tagged_def
  no_base_url_def unshared_def

theorem registry_maps_agree_witness:
  "\<exists>st. init sample_loader plain_lib 8 [test_binding] = Inr st \<and>
     dom (tools st) = {''test:getFoo'', ''test:postBar'', ''test:getBaz''} \<and>
     dom (registry st) = dom (tools st) \<and>
     dom (tool_base_urls st) = dom (tools st) \<and>
     dom (tool_specs st) = dom (tools st) \<and>
     tool_base_urls st ''test:getBaz'' = Some ''https://dummy.api''"
proof -
  have "\<exists>st. init sample_loader plain_lib 8 [test_binding] = Inr st \<and>
     dom (tools st) = {''test:getFoo'', ''test:postBar'', ''test:getBaz''} \<and>
     tool_base_urls st ''test:getBaz'' = Some ''https://dummy.api''"
    by (simp add: init_defs registry_defs tagged_doc_def test_binding_def insert_commute)
  then obtain st where
    st: "init sample_loader plain_lib 8 [test_binding] = Inr st"
    "dom (tools st) = {''test:getFoo'', ''test:postBar'', ''test:getBaz''}"
    "tool_base_urls st ''test:getBaz'' = Some ''https://dummy.api''"
    by blast
  from registry_maps_agree [OF st(1)] st show ?thesis by blast
qed

text \<open>
  C5 (amended). The loop looks at the keys of a path item whose lower-case form is one of
  the seven verbs get, post, put, delete, patch, options and head. A key outside that list
  is passed over with no effect on the caller or the document. For a key in the list whose
  operation passes the filters and builds, the loop body, when it ends without an exception,
  has recorded the tool under its name in all four dicts, with the upper-case verb and the
  path in the metadata; nothing that runs later in the construction removes a name.
\<close>

theorem verbs_considered:
  "http_verbs = [''get'', ''post'', ''put'', ''delete'', ''patch'', ''options'', ''head''] \<and>
   (lower m \<notin> set http_verbs \<longrightarrow>
      add_operation L depth sh b base spec_id s p (JStr m) = Inr s \<and>
      loop_methods L depth sh b base spec_id s p (JStr m # keys) =
        loop_methods L depth sh b base spec_id s p keys) \<and>
   (lower m \<in> set http_verbs \<and>
    get_path (snd s) [''paths'', p, m] = Some operation \<and>
    py_get operation ''tags'' (JArr []) = Inr op_tags \<and>
    passes_filters b p op_tags = Inr True \<and>
    generate_tool_from_operation L depth sh (snd s) p m (prefix b) = (Inr tool, spec') \<and>
    add_operation L depth sh b base spec_id s p (JStr m) = Inr sa \<longrightarrow>
      snd sa = spec' \<and>
      tools (fst sa) (name tool) = Some tool \<and>
      (\<exists>meta. registry (fst sa) (name tool) = Some meta \<and> http_method meta = upper m \<and>
               OperationMeta.path meta = p) \<and>
      tool_base_urls (fst sa) (name tool) = Some base \<and>
      tool_specs (fst sa) (name tool) = Some spec_id) \<and>
   (loop_methods L depth sh b base spec_id sa p keys = Inr sb \<longrightarrow>
      dom (tools (fst sa)) \<subseteq> dom (tools (fst sb))) \<and>
   (loop_paths L depth sh b base spec_id sb entries = Inr sc \<longrightarrow>
      dom (tools (fst sb)) \<subseteq> dom (tools (fst sc))) \<and>
   (init_loop E L depth st specs = Inr st' \<longrightarrow> dom (tools st) \<subseteq> dom (tools st')) \<and>
   (add_operation L depth sh b base spec_id s p key = Inr sd \<and> tools (fst sd) \<noteq> tools (fst s) \<longrightarrow>
      (\<exists>k. key = JStr k \<and> lower k \<in> set http_verbs))"
proof (intro conjI impI)
  show "http_verbs = [''get'', ''post'', ''put'', ''delete'', ''patch'', ''options'', ''head'']"
    by (simp add: http_verbs_def)
next
  assume "lower m \<notin> set http_verbs"
  then show "add_operation L depth sh b base spec_id s p (JStr m) = Inr s"
    by (rule add_operation_other_key)
next
  assume "lower m \<notin> set http_verbs"
  then show "loop_methods L depth sh b base spec_id s p (JStr m # keys) =
        loop_methods L depth sh b base spec_id s p keys"
    by (simp add: add_operation_other_key)
next
  assume h: "lower m \<in> set http_verbs \<and>
    get_path (snd s) [''paths'', p, m] = Some operation \<and>
    py_get operation ''tags'' (JArr []) = Inr op_tags \<and>
    passes_filters b p op_tags = Inr True \<and>
    generate_tool_from_operation L depth sh (snd s) p m (prefix b) = (Inr tool, spec') \<and>
    add_operation L depth sh b base spec_id s p (JStr m) = Inr sa"
  then obtain meta where
    m: "sa = (register (fst s) tool meta base spec_id, spec')"
       "http_method meta = upper m" "OperationMeta.path meta = p"
    using add_operation_kept [of m s p operation op_tags b L depth sh tool spec' base spec_id sa]
    by blast
  show "snd sa = spec'" using m(1) by simp
  show "tools (fst sa) (name tool) = Some tool" using m(1) by (simp add: register_def)
  show "\<exists>meta. registry (fst sa) (name tool) = Some meta \<and> http_method meta = upper m \<and>
               OperationMeta.path meta = p"
    using m by (simp add: register_def)
  show "tool_base_urls (fst sa) (name tool) = Some base" using m(1) by (simp add: register_def)
  show "tool_specs (fst sa) (name tool) = Some spec_id" using m(1) by (simp add: register_def)
next
  assume "loop_methods L depth sh b base spec_id sa p keys = Inr sb"
  then show "dom (tools (fst sa)) \<subseteq> dom (tools (fst sb))" by (rule loop_methods_grows)
next
  assume "loop_paths L depth sh b base spec_id sb entries = Inr sc"
  then show "dom (tools (fst sb)) \<subseteq> dom (tools (fst sc))" by (rule loop_paths_grows)
next
  assume "init_loop E L depth st specs = Inr st'"
  then show "dom (tools st) \<subseteq> dom (tools st')" by (rule init_loop_grows)
next
  assume "add_operation L depth sh b base spec_id s p key = Inr sd \<and> tools (fst sd) \<noteq> tools (fst s)"
  then show "\<exists>k. key = JStr k \<and> lower k \<in> set http_verbs"
    using add_operation_steps [of L depth sh b base spec_id s p key sd] by auto
qed

text \<open>An operation under \<^verbatim>\<open>trace\<close> passes the filters and builds, and is not registered.\<close>

theorem trace_ignored_counterexample:
  "add_tools_from_spec plain_lib 8 unshared new_caller
     (JObj [(''paths'', JObj [(''/echo'', JObj [(''trace'', JObj [
        (''operationId'', JStr ''echo'')])])])]) 0 test_binding ''https://dummy.api'' =
     Inr (new_caller,
          JObj [(''paths'', JObj [(''/echo'', JObj [(''trace'', JObj [
            (''operationId'', JStr ''echo'')])])])]) \<and>
   passes_filters test_binding ''/echo'' (JArr []) = Inr True \<and>
   fst (generate_tool_from_operation plain_lib 8 unshared
     (JObj [(''paths'', JObj [(''/echo'', JObj [(''trace'', JObj [
        (''operationId'', JStr ''echo'')])])])]) ''/echo'' ''trace'' (Some ''test'')) =
     Inr \<lparr>name = ''test:echo'', description = [],
          inputSchema = \<lparr>properties = [], required = []\<rparr>\<rparr>"
  by (simp add: registry_defs test_binding_def)


theorem verbs_considered_witness:
  "add_operation plain_lib 8 unshared test_binding ''https://dummy.api'' 0 (new_caller, tagged_doc)
      ''/bar'' (JStr ''parameters'') = Inr (new_caller, tagged_doc) \<and>
   (\<exists>sa. add_operation plain_lib 8 unshared test_binding ''https://dummy.api'' 0 (new_caller, tagged_doc)
            ''/bar'' (JStr ''post'') = Inr sa \<and>
         snd sa = tagged_doc \<and>
         tools (fst sa) ''test:postBar'' =
           Some \<lparr>name = ''test:postBar'', description = [],
                 inputSchema = \<lparr>properties = [], required = []\<rparr>\<rparr> \<and>
         tool_base_urls (fst sa) ''test:postBar'' = Some ''https://dummy.api'' \<and>
         tool_specs (fst sa) ''test:postBar'' = Some 0) \<and>
   (\<exists>sb. loop_methods plain_lib 8 unshared test_binding ''https://dummy.api'' 0 (new_caller, tagged_doc)
            ''/bar'' [JStr ''post''] = Inr sb \<and>
         dom (tools new_caller) \<subseteq> dom (tools (fst sb))) \<and>
   (\<exists>sc. loop_paths plain_lib 8 unshared test_binding ''https://dummy.api'' 0 (new_caller, tagged_doc)
            [(''/bar'', JObj [(''post'', JObj [(''operationId'', JStr ''postBar''),
               (''tags'', JArr [JStr ''B'', JStr ''C'']), (''parameters'', JArr [])])])] = Inr sc \<and>
         dom (tools new_caller) \<subseteq> dom (tools (fst sc))) \<and>
   (\<exists>st. init_loop sample_loader plain_lib 8 new_caller [test_binding] = Inr st \<and>
         dom (tools new_caller) \<subseteq> dom (tools st))"
proof -
  let ?tool = "\<lparr>name = ''test:postBar'', description = [],
                 inputSchema = \<lparr>properties = [], required = []\<rparr>\<rparr>"
  let ?op = "JObj [(''operationId'', JStr ''postBar''),
          (''tags'', JArr [JStr ''B'', JStr ''C'']), (''parameters'', JArr [])]"
  note T = verbs_considered [where L = plain_lib and depth = 8 and sh = unshared and b = test_binding
      and base = "''https://dummy.api''" and spec_id = 0 and s = "(new_caller, tagged_doc)"
      and p = "''/bar''"]
  have other: "lower ''parameters'' \<notin> set http_verbs"
    by (simp add: http_verbs_def lower_def lower_char_def)
  have 1: "add_operation plain_lib 8 unshared test_binding ''https://dummy.api'' 0 (new_caller, tagged_doc)
      ''/bar'' (JStr ''parameters'') = Inr (new_caller, tagged_doc)"
    using T [where m = "''parameters''"] other by blast
  have verb: "lower ''post'' \<in> set http_verbs"
    by (simp add: http_verbs_def lower_def lower_char_def)
  have rd: "get_path (snd (new_caller, tagged_doc)) [''paths'', ''/bar'', ''post''] = Some ?op"
    by (simp add: tagged_doc_def)
  have tg: "py_get ?op ''tags'' (JArr []) = Inr (JArr [JStr ''B'', JStr ''C''])"
    by simp
  have ps: "passes_filters test_binding ''/bar'' (JArr [JStr ''B'', JStr ''C'']) = Inr True"
    by (simp add: passes_filters_def patterns_of_def test_binding_def)
  have bd: "generate_tool_from_operation plain_lib 8 unshared (snd (new_caller, tagged_doc)) ''/bar'' ''post''
      (prefix test_binding) = (Inr ?tool, tagged_doc)"
    by (simp add: registry_defs tagged_doc_def test_binding_def)
  obtain sa where
    run: "add_operation plain_lib 8 unshared test_binding ''https://dummy.api'' 0 (new_caller, tagged_doc)
            ''/bar'' (JStr ''post'') = Inr sa"
    by (simp add: registry_defs tagged_doc_def test_binding_def)
  have "snd sa = tagged_doc \<and> tools (fst sa) (name ?tool) = Some ?tool \<and>
      tool_base_urls (fst sa) (name ?tool) = Some ''https://dummy.api'' \<and>
      tool_specs (fst sa) (name ?tool) = Some 0"
    using T [where m = "''post''" and operation = ?op and op_tags = "JArr [JStr ''B'', JStr ''C'']"
        and tool = ?tool and spec' = tagged_doc and sa = sa] verb rd tg ps bd run
    by blast
  then have 2: "\<exists>sa. add_operation plain_lib 8 unshared test_binding ''https://dummy.api'' 0 (new_caller, tagged_doc)
            ''/bar'' (JStr ''post'') = Inr sa \<and>
         snd sa = tagged_doc \<and>
         tools (fst sa) ''test:postBar'' = Some ?tool \<and>
         tool_base_urls (fst sa) ''test:postBar'' = Some ''https://dummy.api'' \<and>
         tool_specs (fst sa) ''test:postBar'' = Some 0"
    using run by auto
  obtain sb where
    lm: "loop_methods plain_lib 8 unshared test_binding ''https://dummy.api'' 0 (new_caller, tagged_doc)
            ''/bar'' [JStr ''post''] = Inr sb"
    using run by simp
  have 3: "dom (tools (fst (new_caller, tagged_doc))) \<subseteq> dom (tools (fst sb))"
    using T [where sa = "(new_caller, tagged_doc)" and keys = "[JStr ''post'']" and sb = sb] lm
    by blast
  obtain sc where
    lp: "loop_paths plain_lib 8 unshared test_binding ''https://dummy.api'' 0 (new_caller, tagged_doc)
            [(''/bar'', JObj [(''post'', JObj [(''operationId'', JStr ''postBar''),
               (''tags'', JArr [JStr ''B'', JStr ''C'']), (''parameters'', JArr [])])])] = Inr sc"
    using lm by simp
  have 4: "dom (tools (fst (new_caller, tagged_doc))) \<subseteq> dom (tools (fst sc))"
    using T [where sb = "(new_caller, tagged_doc)" and entries = "[(''/bar'', JObj [(''post'', JObj [(''operationId'', JStr ''postBar''),
               (''tags'', JArr [JStr ''B'', JStr ''C'']), (''parameters'', JArr [])])])]"
        and sc = sc] lp
    by blast
  obtain st where
    il: "init_loop sample_loader plain_lib 8 new_caller [test_binding] = Inr st"
    by (simp add: init_defs registry_defs tagged_doc_def test_binding_def)
  have 5: "dom (tools new_caller) \<subseteq> dom (tools st)"
    using T [where E = sample_loader and st = new_caller and specs = "[test_binding]" and st' = st] il
    by blast
  show ?thesis using 1 2 3 4 5 lm lp il by auto
qed

text \<open>
  C4. The filters of the loop body are applied in the order include-paths, exclude-paths,
  include-tags, exclude-tags, and the first that fails skips the operation: when a path
  filter fails the tags are not looked at (the result is the same for any value of the
  tags), and when the include-tags filter fails the exclude-tags filter plays no part. A
  filter that is unset or empty lets everything pass. For tags that are a list of strings
  the operation is kept exactly when the path matches one include-path pattern (if set) and
  no exclude-path pattern, one tag matches one include-tag pattern (if set) and no tag
  matches an exclude-tag pattern, patterns being shell patterns. A filtered operation leaves
  the caller and the document as they were. On the document with three operations tagged
  \<open>{A, B}\<close>, \<open>{B, C}\<close> and \<open>{C, D}\<close>, \<open>include_tags = ["C"]\<close> registers exactly the second and
  third, and \<open>exclude_tags = ["B"]\<close> exactly the third.
\<close>

theorem filters_in_order:
  "(patterns_of (include_paths b) \<noteq> [] \<and>
      \<not> (\<exists>pat \<in> set (patterns_of (include_paths b)). fnmatch p pat) \<longrightarrow>
      passes_filters b p op_tags = Inr False) \<and>
   ((\<exists>pat \<in> set (patterns_of (exclude_paths b)). fnmatch p pat) \<longrightarrow>
      passes_filters b p op_tags = Inr False) \<and>
   ((patterns_of (include_paths b) = [] \<or>
       (\<exists>pat \<in> set (patterns_of (include_paths b)). fnmatch p pat)) \<and>
    \<not> (\<exists>pat \<in> set (patterns_of (exclude_paths b)). fnmatch p pat) \<and>
    patterns_of (include_tags b) \<noteq> [] \<and>
    match_any op_tags (patterns_of (include_tags b)) = Inr False \<longrightarrow>
      passes_filters b p op_tags = Inr False) \<and>
   passes_filters b p (JArr (map JStr ts)) =
     Inr ((patterns_of (include_paths b) = [] \<or>
             (\<exists>pat \<in> set (patterns_of (include_paths b)). fnmatch p pat)) \<and>
          \<not> (\<exists>pat \<in> set (patterns_of (exclude_paths b)). fnmatch p pat) \<and>
          (patterns_of (include_tags b) = [] \<or>
             (\<exists>t \<in> set ts. \<exists>pat \<in> set (patterns_of (include_tags b)). fnmatch t pat)) \<and>
          \<not> (\<exists>t \<in> set ts. \<exists>pat \<in> set (patterns_of (exclude_tags b)). fnmatch t pat)) \<and>
   (lower m \<in> set http_verbs \<and>
    get_path (snd s) [''paths'', p, m] = Some operation \<and>
    py_get operation ''tags'' (JArr []) = Inr op_tags \<and>
    passes_filters b p op_tags = Inr False \<longrightarrow>
      add_operation L depth sh b base spec_id s p (JStr m) = Inr s) \<and>
   (\<exists>st d. add_tools_from_spec plain_lib 8 unshared new_caller tagged_doc 0
       (test_binding\<lparr>include_tags := Some [''C'']\<rparr>) ''https://dummy.api'' = Inr (st, d) \<and>
     dom (tools st) = {''test:postBar'', ''test:getBaz''}) \<and>
   (\<exists>st d. add_tools_from_spec plain_lib 8 unshared new_caller tagged_doc 0
       (test_binding\<lparr>exclude_tags := Some [''B'']\<rparr>) ''https://dummy.api'' = Inr (st, d) \<and>
     dom (tools st) = {''test:getBaz''})"
proof (intro conjI impI)
  assume "patterns_of (include_paths b) \<noteq> [] \<and>
      \<not> (\<exists>pat \<in> set (patterns_of (include_paths b)). fnmatch p pat)"
  then show "passes_filters b p op_tags = Inr False"
    by (intro path_filters_first) simp
next
  assume "\<exists>pat \<in> set (patterns_of (exclude_paths b)). fnmatch p pat"
  then show "passes_filters b p op_tags = Inr False"
    by (intro path_filters_first) simp
next
  assume "(patterns_of (include_paths b) = [] \<or>
       (\<exists>pat \<in> set (patterns_of (include_paths b)). fnmatch p pat)) \<and>
    \<not> (\<exists>pat \<in> set (patterns_of (exclude_paths b)). fnmatch p pat) \<and>
    patterns_of (include_tags b) \<noteq> [] \<and>
    match_any op_tags (patterns_of (include_tags b)) = Inr False"
  then show "passes_filters b p op_tags = Inr False"
    by (auto simp: passes_filters_def match_path_iff)
next
  show "passes_filters b p (JArr (map JStr ts)) =
     Inr ((patterns_of (include_paths b) = [] \<or>
             (\<exists>pat \<in> set (patterns_of (include_paths b)). fnmatch p pat)) \<and>
          \<not> (\<exists>pat \<in> set (patterns_of (exclude_paths b)). fnmatch p pat) \<and>
          (patterns_of (include_tags b) = [] \<or>
             (\<exists>t \<in> set ts. \<exists>pat \<in> set (patterns_of (include_tags b)). fnmatch t pat)) \<and>
          \<not> (\<exists>t \<in> set ts. \<exists>pat \<in> set (patterns_of (exclude_tags b)). fnmatch t pat))"
    by (rule passes_filters_strings)
next
  assume "lower m \<in> set http_verbs \<and>
    get_path (snd s) [''paths'', p, m] = Some operation \<and>
    py_get operation ''tags'' (JArr []) = Inr op_tags \<and>
    passes_filters b p op_tags = Inr False"
  then show "add_operation L depth sh b base spec_id s p (JStr m) = Inr s"
    using add_operation_filtered by blast
next
  show "\<exists>st d. add_tools_from_spec plain_lib 8 unshared new_caller tagged_doc 0
       (test_binding\<lparr>include_tags := Some [''C'']\<rparr>) ''https://dummy.api'' = Inr (st, d) \<and>
     dom (tools st) = {''test:postBar'', ''test:getBaz''}"
    by (rule include_C)
next
  show "\<exists>st d. add_tools_from_spec plain_lib 8 unshared new_caller tagged_doc 0
       (test_binding\<lparr>exclude_tags := Some [''B'']\<rparr>) ''https://dummy.api'' = Inr (st, d) \<and>
     dom (tools st) = {''test:getBaz''}"
    by (rule exclude_B)
qed


theorem filters_in_order_witness:
  "passes_filters (test_binding\<lparr>include_paths := Some [''/bar'']\<rparr>) ''/foo'' (JInt 5) = Inr False \<and>
   passes_filters (test_binding\<lparr>exclude_paths := Some [''/f*'']\<rparr>) ''/foo'' (JInt 5) = Inr False \<and>
   passes_filters (test_binding\<lparr>include_tags := Some [''C''], exclude_tags := Some [''A'']\<rparr>)
     ''/foo'' (JArr [JStr ''A'', JStr ''B'']) = Inr False \<and>
   add_operation plain_lib 8 unshared (test_binding\<lparr>include_tags := Some [''C'']\<rparr>) ''https://dummy.api'' 0
     (new_caller, tagged_doc) ''/foo'' (JStr ''get'') = Inr (new_caller, tagged_doc)"
proof -
  let ?op = "JObj [(''operationId'', JStr ''getFoo''),
          (''tags'', JArr [JStr ''A'', JStr ''B'']), (''parameters'', JArr [])]"
  have 1: "passes_filters (test_binding\<lparr>include_paths := Some [''/bar'']\<rparr>) ''/foo'' (JInt 5) = Inr False"
    using filters_in_order [where b = "test_binding\<lparr>include_paths := Some [''/bar'']\<rparr>"
        and p = "''/foo''" and op_tags = "JInt 5", THEN conjunct1]
    by (simp add: patterns_of_def test_binding_def)
  have 2: "passes_filters (test_binding\<lparr>exclude_paths := Some [''/f*'']\<rparr>) ''/foo'' (JInt 5) = Inr False"
    using filters_in_order [where b = "test_binding\<lparr>exclude_paths := Some [''/f*'']\<rparr>"
        and p = "''/foo''" and op_tags = "JInt 5", THEN conjunct2, THEN conjunct1]
    by (simp add: patterns_of_def test_binding_def)
  have 3: "passes_filters (test_binding\<lparr>include_tags := Some [''C''], exclude_tags := Some [''A'']\<rparr>)
     ''/foo'' (JArr [JStr ''A'', JStr ''B'']) = Inr False"
    using filters_in_order [where
        b = "test_binding\<lparr>include_tags := Some [''C''], exclude_tags := Some [''A'']\<rparr>"
        and p = "''/foo''" and op_tags = "JArr [JStr ''A'', JStr ''B'']",
        THEN conjunct2, THEN conjunct2, THEN conjunct1]
    by (simp add: patterns_of_def test_binding_def match_any_def)
  have verb: "lower ''get'' \<in> set http_verbs"
    by (simp add: http_verbs_def lower_def lower_char_def)
  have rd: "get_path (snd (new_caller, tagged_doc)) [''paths'', ''/foo'', ''get''] = Some ?op"
    by (simp add: tagged_doc_def)
  have tg: "py_get ?op ''tags'' (JArr []) = Inr (JArr [JStr ''A'', JStr ''B''])"
    by simp
  have ps: "passes_filters (test_binding\<lparr>include_tags := Some [''C'']\<rparr>) ''/foo''
      (JArr [JStr ''A'', JStr ''B'']) = Inr False"
    by (simp add: passes_filters_def patterns_of_def test_binding_def match_any_def)
  have 4: "add_operation plain_lib 8 unshared (test_binding\<lparr>include_tags := Some [''C'']\<rparr>) ''https://dummy.api'' 0
     (new_caller, tagged_doc) ''/foo'' (JStr ''get'') = Inr (new_caller, tagged_doc)"
    using filters_in_order [where b = "test_binding\<lparr>include_tags := Some [''C'']\<rparr>"
        and p = "''/foo''" and op_tags = "JArr [JStr ''A'', JStr ''B'']" and m = "''get''"
        and s = "(new_caller, tagged_doc)" and operation = ?op and L = plain_lib and depth = 8 and sh = unshared
        and base = "''https://dummy.api''" and spec_id = 0,
        THEN conjunct2, THEN conjunct2, THEN conjunct2, THEN conjunct2, THEN conjunct1]
      verb rd tg ps
    by blast
  show ?thesis using 1 2 3 4 by blast
qed


end
